(* ===== verification/Prelude.thy ===== *)
theory Prelude
  imports Main "HOL-Library.Word" "HOL-Library.Monad_Syntax" "HOL-Library.Code_Target_Nat"
begin

text \<open>
  Shared vocabulary of the development.

  A byte of a C buffer is an \<^typ>\<open>8 word\<close>. A buffer is the list of its bytes, so its C size is
  the length of the list. A C function that touches memory returns an \<^typ>\<open>'a option\<close>:
  \<^const>\<open>None\<close> is the run whose behaviour C leaves undefined (an access outside the object,
  through a null, freed or uninitialised pointer), \<^const>\<open>Some\<close> carries the result. So "the
  result is not \<^const>\<open>None\<close>" is the memory-safety statement of the function.

  A writer works on a cursor (buffer, offset), the C pair of buffer and running pointer. Every
  writer of the packet library has the normal form \<open>write_bytes p xs\<close> for the bytes \<open>xs\<close> it
  emits; the collection \<open>writer\<close> brings a sequence of writers into that form.
  A reader works on a buffer and an offset; \<open>seg b i xs\<close> says that the bytes \<open>xs\<close> stand at
  offset \<open>i\<close>, and the collection \<open>reader\<close> evaluates readers under such facts.
\<close>

type_synonym u8 = "8 word"
type_synonym u16 = "16 word"
type_synonym u32 = "32 word"
type_synonym bytes = "u8 list"

named_theorems writer \<open>normal forms of buffer writers\<close>
named_theorems reader \<open>results of buffer readers on known bytes\<close>

section \<open>Results that meet a condition\<close>

text \<open>\<open>valid m Q\<close>: if the run is defined, its result meets \<open>Q\<close>. The rules take a program apart into
  its calls; what a call keeps is a rule for \<open>valid\<close> in one of the collections \<open>keep\<close> and \<open>wlen\<close>.\<close>

definition valid :: "'a option \<Rightarrow> ('a \<Rightarrow> bool) \<Rightarrow> bool" where
  "valid m Q \<longleftrightarrow> (\<forall>r. m = Some r \<longrightarrow> Q r)"

named_theorems keep \<open>what the client's operations keep\<close>
named_theorems wlen \<open>writers keep the length of the buffer\<close>

lemma valid_simps [simp]: "valid (Some r) Q \<longleftrightarrow> Q r" "valid None Q"
  by (simp_all add: valid_def)

lemma valid_bind [simp]: "valid (Option.bind m f) Q \<longleftrightarrow> valid m (\<lambda>r. valid (f r) Q)"
  by (cases m) simp_all

lemma validD: "valid m Q \<Longrightarrow> m = Some r \<Longrightarrow> Q r"
  by (simp add: valid_def)

lemma valid_pure: "(\<And>r. m = Some r \<Longrightarrow> Q r) \<Longrightarrow> valid m Q"
  by (simp add: valid_def)

section \<open>Reading a buffer\<close>

definition rd :: "bytes \<Rightarrow> nat \<Rightarrow> u8 option" where
  "rd b i = (if i < length b then Some (b ! i) else None)"

definition rd_block :: "bytes \<Rightarrow> nat \<Rightarrow> nat \<Rightarrow> bytes option" where
  "rd_block b i n = (if i + n \<le> length b then Some (take n (drop i b)) else None)"

definition seg :: "bytes \<Rightarrow> nat \<Rightarrow> bytes \<Rightarrow> bool" where
  "seg b i xs \<longleftrightarrow> i + length xs \<le> length b \<and> take (length xs) (drop i b) = xs"

lemma seg_Nil [simp]: "seg b i [] \<longleftrightarrow> i \<le> length b"
  by (simp add: seg_def)

lemma seg_append:
  "seg b i (xs @ ys) \<longleftrightarrow> seg b i xs \<and> seg b (i + length xs) ys"
proof -
  have "take (length xs + length ys) (drop i b) =
      take (length xs) (drop i b) @ take (length ys) (drop (i + length xs) b)"
    by (simp add: take_add add.commute)
  moreover have "length (take (length xs) (drop i b)) = length xs"
    if "i + (length xs + length ys) \<le> length b" using that by simp
  ultimately show ?thesis
    unfolding seg_def by (auto simp: add.assoc)
qed

lemma seg_Cons:
  "seg b i (x # xs) \<longleftrightarrow> rd b i = Some x \<and> seg b (Suc i) xs"
  by (auto simp: seg_def rd_def take_Suc_conv_app_nth Cons_nth_drop_Suc [symmetric])

lemma seg_self: "seg (xs @ ys) 0 xs"
  by (simp add: seg_def)

lemma seg_prefix: "seg (pre @ xs @ post) (length pre) xs"
  by (simp add: seg_def)

lemma rd_seg [reader]: "seg b i (x # xs) \<Longrightarrow> rd b i = Some x"
  by (simp add: seg_Cons)

lemma rd_block_seg [reader]: "seg b i xs \<Longrightarrow> rd_block b i (length xs) = Some xs"
  by (simp add: seg_def rd_block_def)

lemma seg_append1 [dest]: "seg b i (xs @ ys) \<Longrightarrow> seg b i xs"
  by (simp add: seg_append)

lemma rd_Some_iff: "rd b i \<noteq> None \<longleftrightarrow> i < length b"
  by (simp add: rd_def)

lemma rd_less: "rd b i = Some c \<Longrightarrow> i < length b"
  by (simp add: rd_def split: if_splits)

lemma rd_block_length: "rd_block b i n = Some xs \<Longrightarrow> length xs = n"
  by (auto simp: rd_block_def split: if_splits)

lemma rd_block_take: "rd_block b i n = Some xs \<Longrightarrow> k \<le> n \<Longrightarrow> rd_block b i k = Some (take k xs)"
  by (auto simp: rd_block_def min_def split: if_splits)

text \<open>An array is the list of its elements.\<close>

definition arr :: "'a list \<Rightarrow> nat \<Rightarrow> 'a option" where
  "arr xs i = (if i < length xs then Some (xs ! i) else None)"

definition arr_set :: "'a list \<Rightarrow> nat \<Rightarrow> 'a \<Rightarrow> 'a list option" where
  "arr_set xs i x = (if i < length xs then Some (xs[i := x]) else None)"

lemma arr_Some [simp]: "i < length xs \<Longrightarrow> arr xs i = Some (xs ! i)"
  by (simp add: arr_def)

lemma arr_set_Some [simp]: "i < length xs \<Longrightarrow> arr_set xs i x = Some (xs[i := x])"
  by (simp add: arr_set_def)

lemma arr_set_None [simp]: "arr_set xs i x = None \<longleftrightarrow> length xs \<le> i"
  by (simp add: arr_set_def not_less)

section \<open>Writing a buffer\<close>

type_synonym wcur = "bytes \<times> nat"

definition write_bytes :: "wcur \<Rightarrow> bytes \<Rightarrow> wcur option" where
  "write_bytes p xs =
     (if snd p + length xs \<le> length (fst p)
      then Some (take (snd p) (fst p) @ xs @ drop (snd p + length xs) (fst p), snd p + length xs)
      else None)"

lemma write_bytes_Nil [simp]: "snd p \<le> length (fst p) \<Longrightarrow> write_bytes p [] = Some p"
  by (simp add: write_bytes_def)

lemma write_bytes_Some:
  "write_bytes (b, i) xs = Some q \<longleftrightarrow>
     i + length xs \<le> length b \<and> q = (take i b @ xs @ drop (i + length xs) b, i + length xs)"
  by (auto simp: write_bytes_def)

lemma write_bytes_append [writer]:
  "Option.bind (write_bytes p xs) (\<lambda>q. write_bytes q ys) = write_bytes p (xs @ ys)"
  by (cases p) (auto simp: write_bytes_def ac_simps)

lemma write_bytes_bind [writer]:
  "Option.bind (write_bytes p xs) (\<lambda>q. Option.bind (write_bytes q ys) g) =
     Option.bind (write_bytes p (xs @ ys)) g"
  by (simp add: write_bytes_append [symmetric])

lemma write_loop_bind:
  "Option.bind (write_bytes p pre) f = write_bytes p xs \<Longrightarrow>
   Option.bind (write_bytes p pre) (\<lambda>q. Option.bind (f q) g) = Option.bind (write_bytes p xs) g"
  by (simp flip: bind_assoc)

lemma write_bytes_pad:
  "write_bytes (b, 0) xs = (if length xs \<le> length b then Some (xs @ drop (length xs) b, length xs) else None)"
  by (simp add: write_bytes_def)

lemma write_bytes_length: "write_bytes p xs = Some q \<Longrightarrow> length (fst q) = length (fst p)"
  by (cases p) (auto simp: write_bytes_Some)

section \<open>C characters and truncation\<close>

text \<open>
  Whether plain \<open>char\<close> is signed is the platform's choice (signed on x86, unsigned on ARM).
  \<open>char_val s c\<close> is the \<open>int\<close> a \<open>char\<close> with bits \<open>c\<close> promotes to.
\<close>

definition char_val :: "bool \<Rightarrow> u8 \<Rightarrow> int" where
  "char_val sgnd c = (if sgnd then sint c else uint c)"

text \<open>A 32-bit word below the middle of its range is not negative as a signed number.\<close>

lemma sint_small: "unat (w :: u32) < 2147483648 \<Longrightarrow> sint w = int (unat w)"
proof -
  assume "unat w < 2147483648"
  then have "int (unat w) < 2147483648" by linarith
  then have "uint w < 2147483648" by simp
  moreover have "- 2147483648 \<le> uint w" by (rule order_trans [OF _ unsigned_greater_eq]) simp
  ultimately show ?thesis using signed_take_bit_int_eq_self [of 31 "uint w"] by (simp add: sint_uint)
qed

lemma u32_no_wrap: "unat a + unat b < 4294967296 \<Longrightarrow> unat (a + b :: u32) = unat a + unat b"
  using unat_add_lem [of a b] by simp

definition be16 :: "nat \<Rightarrow> bytes" where
  "be16 n = [of_nat (n div 256), of_nat (n mod 256)]"

lemma length_be16 [simp]: "length (be16 n) = 2"
  by (simp add: be16_def)

lemma unat_u8_of_nat [simp]: "unat (of_nat n :: u8) = n mod 256"
  by (simp add: unat_of_nat)

lemma unat_u8_less: "unat (c :: u8) < 256"
  using unsigned_less [of c, where ?'a = nat] by simp

lemma be16_val: "n < 65536 \<Longrightarrow> 256 * unat (be16 n ! 0) + unat (be16 n ! 1) = n"
  by (simp add: be16_def)

end
