(* ===== verification/Platform_Timer.thy ===== *)
theory Platform_Timer
  imports Prelude
begin

text \<open>
  The countdown timers of the four platforms: \<^verbatim>\<open>platform/linux/platform_timer.c\<close> (a \<open>timeval\<close>
  deadline on \<open>gettimeofday\<close>) and the three real-time systems
  (\<^verbatim>\<open>platform/FreeRTOS\<close>, \<^verbatim>\<open>platform/RT-Thread\<close>, \<^verbatim>\<open>platform/TencentOS-tiny\<close>), which share one text: a
  32-bit millisecond deadline on the tick counter. The clock is an argument: microseconds since the
  epoch on Linux, the tick counter on the others. The locale \<open>countdown_timer\<close> is the contract the
  client relies on; both implementations are shown to meet it, the second one only while
  the 32-bit clock does not wrap.
\<close>

section \<open>Linux\<close>

record timeval =
  tv_sec :: int
  tv_usec :: int

type_synonym platform_timer = timeval

definition gettimeofday :: "nat \<Rightarrow> timeval" where
  "gettimeofday now_us = \<lparr>tv_sec = int (now_us div 1000000), tv_usec = int (now_us mod 1000000)\<rparr>"

text \<open>\<open>timeradd\<close> and \<open>timersub\<close> as \<^verbatim>\<open><sys/time.h>\<close> defines them.\<close>

definition timeradd :: "timeval \<Rightarrow> timeval \<Rightarrow> timeval" where
  "timeradd a b =
     (let s = tv_sec a + tv_sec b; u = tv_usec a + tv_usec b in
      if u \<ge> 1000000 then \<lparr>tv_sec = s + 1, tv_usec = u - 1000000\<rparr> else \<lparr>tv_sec = s, tv_usec = u\<rparr>)"

definition timersub :: "timeval \<Rightarrow> timeval \<Rightarrow> timeval" where
  "timersub a b =
     (let s = tv_sec a - tv_sec b; u = tv_usec a - tv_usec b in
      if u < 0 then \<lparr>tv_sec = s - 1, tv_usec = u + 1000000\<rparr> else \<lparr>tv_sec = s, tv_usec = u\<rparr>)"

definition platform_timer_init :: platform_timer where
  "platform_timer_init = \<lparr>tv_sec = 0, tv_usec = 0\<rparr>"

definition platform_timer_cutdown :: "nat \<Rightarrow> nat \<Rightarrow> platform_timer" where
  "platform_timer_cutdown now_us timeout =
     timeradd (gettimeofday now_us)
       \<lparr>tv_sec = int (timeout div 1000), tv_usec = int (timeout mod 1000 * 1000)\<rparr>"

definition platform_timer_is_expired :: "nat \<Rightarrow> platform_timer \<Rightarrow> bool" where
  "platform_timer_is_expired now_us timer =
     (let res = timersub timer (gettimeofday now_us) in
      tv_sec res < 0 \<or> tv_sec res = 0 \<and> tv_usec res \<le> 0)"

definition platform_timer_remain :: "nat \<Rightarrow> platform_timer \<Rightarrow> int" where
  "platform_timer_remain now_us timer =
     (let res = timersub timer (gettimeofday now_us) in
      if tv_sec res < 0 then 0 else tv_sec res * 1000 + tv_usec res div 1000)"

definition platform_timer_now :: "nat \<Rightarrow> nat" where
  "platform_timer_now now_us = now_us div 1000000"

text \<open>The deadline of a timer in microseconds; timers keep their microseconds normalised.\<close>

definition deadline :: "platform_timer \<Rightarrow> int" where
  "deadline t = tv_sec t * 1000000 + tv_usec t"

definition tv_norm :: "platform_timer \<Rightarrow> bool" where
  "tv_norm t \<longleftrightarrow> 0 \<le> tv_usec t \<and> tv_usec t < 1000000"

lemma deadline_now [simp]: "deadline (gettimeofday now) = int now"
proof -
  have "int now div 1000000 * 1000000 + int now mod 1000000 = int now" by simp
  then show ?thesis by (simp add: deadline_def gettimeofday_def zdiv_int zmod_int)
qed

lemma tv_norm_now [simp]: "tv_norm (gettimeofday now)"
  by (simp add: tv_norm_def gettimeofday_def zmod_int)

lemma deadline_timeradd [simp]: "deadline (timeradd a b) = deadline a + deadline b"
  by (simp add: timeradd_def deadline_def Let_def algebra_simps)

lemma tv_norm_timeradd: "tv_norm a \<Longrightarrow> tv_norm b \<Longrightarrow> tv_norm (timeradd a b)"
  by (auto simp: timeradd_def tv_norm_def Let_def)

lemma deadline_timersub [simp]: "deadline (timersub a b) = deadline a - deadline b"
  by (simp add: timersub_def deadline_def Let_def algebra_simps)

lemma tv_norm_timersub: "tv_norm a \<Longrightarrow> tv_norm b \<Longrightarrow> tv_norm (timersub a b)"
  by (auto simp: timersub_def tv_norm_def Let_def)

lemma deadline_cutdown [simp]: "deadline (platform_timer_cutdown now ms) = int (now + ms * 1000)"
proof -
  have "deadline \<lparr>tv_sec = int (ms div 1000), tv_usec = int (ms mod 1000 * 1000)\<rparr> = int (ms * 1000)"
  proof -
    have "a * 1000000 + b * 1000 = (a * 1000 + b) * 1000" for a b :: nat by simp
    then have "(ms div 1000) * 1000000 + ms mod 1000 * 1000 = (ms div 1000 * 1000 + ms mod 1000) * 1000"
      by blast
    also have "\<dots> = ms * 1000" by (simp only: div_mult_mod_eq)
    finally have "int ((ms div 1000) * 1000000 + ms mod 1000 * 1000) = int (ms * 1000)" by simp
    then show ?thesis by (simp add: deadline_def)
  qed
  then show ?thesis by (simp add: platform_timer_cutdown_def)
qed

lemma tv_norm_cutdown [simp]: "tv_norm (platform_timer_cutdown now ms)"
proof -
  have "ms mod 1000 * 1000 < 1000000" using mod_less_divisor [of 1000 ms] by simp
  then have "int (ms mod 1000 * 1000) < 1000000" by linarith
  then show ?thesis
    unfolding platform_timer_cutdown_def by (intro tv_norm_timeradd tv_norm_now) (simp add: tv_norm_def)
qed

lemma is_expired_iff: "tv_norm t \<Longrightarrow> platform_timer_is_expired now t \<longleftrightarrow> deadline t \<le> int now"
proof -
  assume "tv_norm t"
  then have n: "tv_norm (timersub t (gettimeofday now))" by (simp add: tv_norm_timersub)
  have "deadline t \<le> int now \<longleftrightarrow> deadline (timersub t (gettimeofday now)) \<le> 0" by simp
  also have "\<dots> \<longleftrightarrow> platform_timer_is_expired now t"
    using n unfolding platform_timer_is_expired_def deadline_def tv_norm_def Let_def by linarith
  finally show ?thesis by simp
qed

lemma remain_eq:
  assumes "tv_norm t"
  shows "platform_timer_remain now t = (if deadline t < int now then 0 else (deadline t - int now) div 1000)"
proof -
  let ?r = "timersub t (gettimeofday now)"
  have n: "0 \<le> tv_usec ?r" "tv_usec ?r < 1000000"
    using tv_norm_timersub [OF assms tv_norm_now [of now]] by (simp_all add: tv_norm_def)
  have d: "deadline t - int now = tv_sec ?r * 1000000 + tv_usec ?r"
    using deadline_timersub [of t "gettimeofday now"] unfolding deadline_now deadline_def [of ?r] by simp
  have neg: "deadline t < int now \<longleftrightarrow> tv_sec ?r < 0" using d n by linarith
  have "(tv_sec ?r * 1000000 + tv_usec ?r) div 1000 = tv_sec ?r * 1000 + tv_usec ?r div 1000" by simp
  then show ?thesis
    using neg d by (simp add: platform_timer_remain_def Let_def)
qed

section \<open>The contract\<close>

text \<open>
  \<open>unit\<close> is the number of clock steps in a millisecond, \<open>horizon\<close> the clock readings for which the
  contract holds.
\<close>

locale countdown_timer =
  fixes unit_ms :: nat
    and horizon :: "nat \<Rightarrow> bool"
    and cutdown :: "nat \<Rightarrow> nat \<Rightarrow> 't"
    and expired :: "nat \<Rightarrow> 't \<Rightarrow> bool"
    and remain :: "nat \<Rightarrow> 't \<Rightarrow> int"
  assumes unit_pos: "0 < unit_ms"
    and live: "horizon (t0 + d * unit_ms) \<Longrightarrow> t0 \<le> t \<Longrightarrow> t < t0 + d * unit_ms \<Longrightarrow> \<not> expired t (cutdown t0 d)"
    and due: "horizon (t0 + d * unit_ms) \<Longrightarrow> horizon t \<Longrightarrow> t0 + d * unit_ms < t \<Longrightarrow> expired t (cutdown t0 d)"
    and remain_val: "horizon (t0 + d * unit_ms) \<Longrightarrow> horizon t \<Longrightarrow> t0 \<le> t \<Longrightarrow>
      remain t (cutdown t0 d) = int ((t0 + d * unit_ms - t) div unit_ms)"
begin

lemma remain_le: "horizon (t0 + d * unit_ms) \<Longrightarrow> horizon t \<Longrightarrow> t0 \<le> t \<Longrightarrow> remain t (cutdown t0 d) \<le> int d"
proof -
  assume a: "horizon (t0 + d * unit_ms)" "horizon t" "t0 \<le> t"
  have "(t0 + d * unit_ms - t) div unit_ms \<le> (d * unit_ms) div unit_ms"
    using a(3) by (intro div_le_mono) simp
  then show ?thesis using unit_pos remain_val [OF a] by simp
qed

lemma remain_nonneg: "horizon (t0 + d * unit_ms) \<Longrightarrow> horizon t \<Longrightarrow> t0 \<le> t \<Longrightarrow> 0 \<le> remain t (cutdown t0 d)"
  by (simp add: remain_val)

lemma remain_pos_live:
  "horizon (t0 + d * unit_ms) \<Longrightarrow> horizon t \<Longrightarrow> t0 \<le> t \<Longrightarrow> 0 < remain t (cutdown t0 d) \<Longrightarrow> \<not> expired t (cutdown t0 d)"
proof -
  assume a: "horizon (t0 + d * unit_ms)" "horizon t" "t0 \<le> t" and "0 < remain t (cutdown t0 d)"
  then have "(t0 + d * unit_ms - t) div unit_ms \<noteq> 0" by (simp add: remain_val)
  then have "t < t0 + d * unit_ms" by (metis diff_is_0_eq div_0 not_le)
  then show ?thesis by (rule live [OF a(1,3)])
qed

text \<open>
  A polling loop whose rounds each take at least one clock step has, after at most \<open>d * unit_ms + 1\<close>
  rounds, seen the timer expire.
\<close>

fun poll :: "nat \<Rightarrow> nat list \<Rightarrow> 't \<Rightarrow> nat \<times> nat" where
  "poll t [] tm = (t, 0)"
| "poll t (e # es) tm = (if expired t tm then (t, 0) else (let (t', n) = poll (t + e) es tm in (t', Suc n)))"

lemma poll_bound:
  assumes "horizon (t0 + d * unit_ms)" "\<forall>t. horizon t"
  shows "t0 \<le> t \<Longrightarrow> \<forall>e\<in>set es. 0 < e \<Longrightarrow> snd (poll t es (cutdown t0 d)) \<le> (t0 + d * unit_ms + 1) - t"
proof (induction es arbitrary: t)
  case (Cons e es)
  show ?case
  proof (cases "t0 + d * unit_ms < t")
    case True
    with due [OF assms(1)] assms(2) show ?thesis by simp
  next
    case False
    from Cons.IH [of "t + e"] Cons.prems have "snd (poll (t + e) es (cutdown t0 d)) \<le> t0 + d * unit_ms + 1 - (t + e)"
      by simp
    moreover have "0 < e" using Cons.prems by simp
    ultimately show ?thesis using False by (auto split: prod.splits)
  qed
qed simp

end

interpretation linux: countdown_timer 1000 "\<lambda>_. True" platform_timer_cutdown platform_timer_is_expired platform_timer_remain
proof unfold_locales
  show "\<not> platform_timer_is_expired t (platform_timer_cutdown t0 d)" if "t < t0 + d * 1000" for t0 d t
    using that by (simp add: is_expired_iff)
  show "platform_timer_is_expired t (platform_timer_cutdown t0 d)" if "t0 + d * 1000 < t" for t0 d t
    using that by (simp add: is_expired_iff)
  show "platform_timer_remain t (platform_timer_cutdown t0 d) = int ((t0 + d * 1000 - t) div 1000)" if "t0 \<le> t" for t0 d t
    by (simp add: remain_eq zdiv_int of_nat_diff)
qed simp

text \<open>A Linux timer set to \<open>ms\<close> milliseconds at time
  \<open>t0\<close> is expired at exactly the times that are \<open>ms\<close> milliseconds or more after \<open>t0\<close>; before that
  its remainder is the whole number of milliseconds left, never more than \<open>ms\<close>; a timer that was
  only initialised is expired at once.\<close>

theorem linux_timer_correct:
  "(platform_timer_is_expired (t0 + e) (platform_timer_cutdown t0 ms) \<longleftrightarrow> ms * 1000 \<le> e) \<and>
   platform_timer_remain (t0 + e) (platform_timer_cutdown t0 ms) = int ((ms * 1000 - e) div 1000) \<and>
   platform_timer_remain (t0 + e) (platform_timer_cutdown t0 ms) \<le> int ms \<and>
   platform_timer_is_expired t0 platform_timer_init"
proof (intro conjI)
  show "platform_timer_is_expired (t0 + e) (platform_timer_cutdown t0 ms) \<longleftrightarrow> ms * 1000 \<le> e"
    by (simp add: is_expired_iff) linarith
  show "platform_timer_remain (t0 + e) (platform_timer_cutdown t0 ms) = int ((ms * 1000 - e) div 1000)"
    using linux.remain_val [of t0 "t0 + e" ms] by simp
  show "platform_timer_remain (t0 + e) (platform_timer_cutdown t0 ms) \<le> int ms"
    using linux.remain_le [of t0 "t0 + e" ms] by simp
  show "platform_timer_is_expired t0 platform_timer_init"
    by (simp add: is_expired_iff tv_norm_def deadline_def platform_timer_init_def)
qed

section \<open>The real-time systems\<close>

text \<open>
  The three sources have the same timer operations. \<open>hz\<close> is the configured tick rate (with 1000 Hz
  the conversion is compiled out), \<open>tick\<close> the tick counter, whose width is the kernel's.
\<close>

definition rtos_uptime_ms :: "nat \<Rightarrow> 'w::len word \<Rightarrow> u32" where
  "rtos_uptime_ms hz tick =
     (if hz = 1000 then ucast tick
      else (let tick = tick * 1000 in ucast ((tick + of_nat hz - 1) div of_nat hz)))"

definition rtos_timer_init :: u32 where
  "rtos_timer_init = 0"

definition rtos_timer_cutdown :: "u32 \<Rightarrow> u32 \<Rightarrow> u32" where
  "rtos_timer_cutdown uptime timeout = uptime + timeout"

definition rtos_timer_is_expired :: "u32 \<Rightarrow> u32 \<Rightarrow> bool" where
  "rtos_timer_is_expired uptime timer \<longleftrightarrow> uptime > timer"

definition rtos_timer_remain :: "u32 \<Rightarrow> u32 \<Rightarrow> int" where
  "rtos_timer_remain uptime timer = (if timer \<le> uptime then 0 else sint (timer - uptime))"

definition rtos_timer_now :: "u32 \<Rightarrow> nat" where
  "rtos_timer_now uptime = unat uptime"

text \<open>
  The sleeps give the argument of the kernel call. A local that no branch assigned is an
  undefined argument.
\<close>

definition freertos_usleep :: "nat \<Rightarrow> nat \<Rightarrow> nat option" where
  "freertos_usleep portTICK_PERIOD_MS usec =
     (if usec \<noteq> 0
      then (let tick = usec div portTICK_PERIOD_MS in Some (if tick = 0 then 1 else tick))
      else None)"

definition rtthread_usleep :: "nat \<Rightarrow> nat option" where
  "rtthread_usleep usec =
     (let ms = (if usec \<noteq> 0 then (let ms = usec div 1000 in if ms = 0 then 1 else ms) else 0) in Some ms)"

definition tencent_usleep :: "(nat \<Rightarrow> nat) \<Rightarrow> nat \<Rightarrow> nat \<Rightarrow> nat option" where
  "tencent_usleep tos_millisec2tick ticks_per_second usec =
     do {
       ms \<leftarrow> (if usec \<noteq> 0 then (let ms = usec div ticks_per_second in Some (if ms = 0 then 1 else ms)) else None);
       Some (tos_millisec2tick ms)
     }"

interpretation rtos: countdown_timer 1 "\<lambda>t. t < 2147483648"
  "\<lambda>t0 d. rtos_timer_cutdown (of_nat t0) (of_nat d)"
  "\<lambda>t. rtos_timer_is_expired (of_nat t)" "\<lambda>t. rtos_timer_remain (of_nat t)"
proof unfold_locales
  have nat32: "unat (of_nat n :: u32) = n" if "n < 4294967296" for n
    using that by (simp add: unat_of_nat)
  have sum: "unat (rtos_timer_cutdown (of_nat t0) (of_nat d)) = t0 + d" if "t0 + d * 1 < 2147483648" for t0 d
    using that nat32 u32_no_wrap [of "of_nat t0" "of_nat d"] by (simp add: rtos_timer_cutdown_def)
  show "\<not> rtos_timer_is_expired (of_nat t) (rtos_timer_cutdown (of_nat t0) (of_nat d))"
    if "t0 + d * 1 < 2147483648" "t < t0 + d * 1" for t0 d t
    using that sum [OF that(1)] nat32 [of t] by (simp add: rtos_timer_is_expired_def word_less_nat_alt)
  show "rtos_timer_is_expired (of_nat t) (rtos_timer_cutdown (of_nat t0) (of_nat d))"
    if "t0 + d * 1 < 2147483648" "t < 2147483648" "t0 + d * 1 < t" for t0 d t
    using that sum [OF that(1)] nat32 [of t] by (simp add: rtos_timer_is_expired_def word_less_nat_alt)
  show "rtos_timer_remain (of_nat t) (rtos_timer_cutdown (of_nat t0) (of_nat d)) = int ((t0 + d * 1 - t) div 1)"
    if "t0 + d * 1 < 2147483648" "t < 2147483648" for t0 d t
  proof (cases "t0 + d \<le> t")
    case True
    with sum [OF that(1)] nat32 [of t] that show ?thesis
      by (simp add: rtos_timer_remain_def word_le_nat_alt)
  next
    case False
    let ?w = "rtos_timer_cutdown (of_nat t0) (of_nat d) - of_nat t"
    have u: "unat ?w = t0 + d - t"
      using False sum [OF that(1)] nat32 [of t] that by (subst unat_sub) (simp_all add: word_le_nat_alt)
    then have "sint ?w = int (t0 + d - t)"
      using that sint_small [of ?w] by simp
    with False sum [OF that(1)] nat32 [of t] that show ?thesis
      by (simp add: rtos_timer_remain_def word_le_nat_alt)
  qed
qed simp

text \<open>On the real-time systems the timer keeps the
  same contract while the deadline and the clock stay below 2 to the 31 milliseconds, with expiry one
  millisecond after the deadline.\<close>

theorem rtos_timer_correct:
  assumes "t0 + e < 2147483648" "t0 + ms < 2147483648"
  shows "(rtos_timer_is_expired (of_nat (t0 + e)) (rtos_timer_cutdown (of_nat t0) (of_nat ms)) \<longleftrightarrow> ms < e) \<and>
    rtos_timer_remain (of_nat (t0 + e)) (rtos_timer_cutdown (of_nat t0) (of_nat ms)) = int (ms - e)"
proof
  show "rtos_timer_is_expired (of_nat (t0 + e)) (rtos_timer_cutdown (of_nat t0) (of_nat ms)) \<longleftrightarrow> ms < e"
  proof (cases "ms < e")
    case True
    with rtos.due [of t0 ms "t0 + e"] assms show ?thesis by simp
  next
    case False
    show ?thesis
    proof (cases "ms = e")
      case True
      then show ?thesis by (simp add: rtos_timer_is_expired_def rtos_timer_cutdown_def)
    next
      case ne: False
      with False rtos.live [of t0 ms "t0 + e"] assms show ?thesis by simp
    qed
  qed
  show "rtos_timer_remain (of_nat (t0 + e)) (rtos_timer_cutdown (of_nat t0) (of_nat ms)) = int (ms - e)"
    using rtos.remain_val [of t0 ms "t0 + e"] assms by simp
qed

theorem rtos_timer_correct_witness:
  "rtos_timer_is_expired (of_nat (1000 + 501)) (rtos_timer_cutdown (of_nat 1000) (of_nat 500)) \<and>
   rtos_timer_remain (of_nat (1000 + 100)) (rtos_timer_cutdown (of_nat 1000) (of_nat 500)) = 400"
  using rtos_timer_correct [of 1000 501 500] rtos_timer_correct [of 1000 100 500] by simp

text \<open>The 32-bit comparison does not survive the wrap of
  the clock: a timer whose deadline wraps is expired, with nothing remaining, at the moment it is set,
  although the header comment of \<open>platform_timer_is_expired\<close> promises the opposite.\<close>

theorem rtos_timer_wraps:
  assumes "4294967296 \<le> unat uptime + unat timeout"
  shows "rtos_timer_is_expired uptime (rtos_timer_cutdown uptime timeout) \<and>
    rtos_timer_remain uptime (rtos_timer_cutdown uptime timeout) = 0"
proof -
  have "unat (uptime + timeout) < unat uptime"
    using assms unsigned_less [of uptime, where ?'a = nat] unsigned_less [of timeout, where ?'a = nat]
    by (simp add: unat_word_ariths(1) mod_if) linarith
  then show ?thesis
    by (simp add: rtos_timer_is_expired_def rtos_timer_cutdown_def rtos_timer_remain_def
        word_less_nat_alt word_le_nat_alt)
qed

theorem rtos_timer_wraps_witness:
  "rtos_timer_is_expired 0xFFFFFFF0 (rtos_timer_cutdown 0xFFFFFFF0 5000)"
  using rtos_timer_wraps [of "0xFFFFFFF0" 5000] by simp

text \<open>
  The sleep of the FreeRTOS port divides microseconds by a period in milliseconds: the time it
  sleeps is the number it was given, taken as milliseconds.
\<close>

lemma freertos_usleep_unit:
  "0 < p \<Longrightarrow> p dvd usec \<Longrightarrow> 0 < usec \<Longrightarrow> \<exists>ticks. freertos_usleep p usec = Some ticks \<and> ticks * p = usec"
  by (auto simp: freertos_usleep_def)

lemma freertos_usleep_zero: "freertos_usleep p 0 = None"
  by (simp add: freertos_usleep_def)

end
