(* ===== verification/Platform_Net.thy ===== *)
theory Platform_Net
  imports Platform_Timer
begin

text \<open>
  The outside world and the socket layer: \<^verbatim>\<open>platform/linux/platform_net_socket.c\<close>,
  \<^verbatim>\<open>network/nettype_tcp.c\<close> and \<^verbatim>\<open>network/network.c\<close>.

  The environment is a script: what the peer sends and when, how much of a write the kernel
  accepts, how name resolution and connection attempts end, which allocations succeed. A system call
  consumes the script and moves the clock; a record of the world is the prefix of the client's state,
  so these operations apply to the client directly. A finished receive script is a silent peer,
  a finished transmit script a kernel that accepts everything, a finished allocation script memory that
  suffices. Writes are logged with their descriptor, closed descriptors are logged.
\<close>

section \<open>Error codes\<close>

definition MQTT_SOCKET_FAILED_ERROR :: int where "MQTT_SOCKET_FAILED_ERROR = - 0x1B"
definition MQTT_SOCKET_UNKNOWN_HOST_ERROR :: int where "MQTT_SOCKET_UNKNOWN_HOST_ERROR = - 0x1A"
definition MQTT_SET_PUBLISH_DUP_FAILED_ERROR :: int where "MQTT_SET_PUBLISH_DUP_FAILED_ERROR = - 0x19"
definition MQTT_CLEAN_SESSION_ERROR :: int where "MQTT_CLEAN_SESSION_ERROR = - 0x18"
definition MQTT_ACK_NODE_IS_EXIST_ERROR :: int where "MQTT_ACK_NODE_IS_EXIST_ERROR = - 0x17"
definition MQTT_ACK_HANDLER_NUM_TOO_MUCH_ERROR :: int where "MQTT_ACK_HANDLER_NUM_TOO_MUCH_ERROR = - 0x16"
definition MQTT_RESUBSCRIBE_ERROR :: int where "MQTT_RESUBSCRIBE_ERROR = - 0x15"
definition MQTT_SUBSCRIBE_ERROR :: int where "MQTT_SUBSCRIBE_ERROR = - 0x14"
definition MQTT_SEND_PACKET_ERROR :: int where "MQTT_SEND_PACKET_ERROR = - 0x13"
definition MQTT_SERIALIZE_PUBLISH_ACK_PACKET_ERROR :: int where "MQTT_SERIALIZE_PUBLISH_ACK_PACKET_ERROR = - 0x12"
definition MQTT_PUBLISH_PACKET_ERROR :: int where "MQTT_PUBLISH_PACKET_ERROR = - 0x11"
definition MQTT_RECONNECT_TIMEOUT_ERROR :: int where "MQTT_RECONNECT_TIMEOUT_ERROR = - 0x10"
definition MQTT_SUBSCRIBE_NOT_ACK_ERROR :: int where "MQTT_SUBSCRIBE_NOT_ACK_ERROR = - 0x0F"
definition MQTT_NOT_CONNECT_ERROR :: int where "MQTT_NOT_CONNECT_ERROR = - 0x0E"
definition MQTT_SUBSCRIBE_ACK_PACKET_ERROR :: int where "MQTT_SUBSCRIBE_ACK_PACKET_ERROR = - 0x0D"
definition MQTT_UNSUBSCRIBE_ACK_PACKET_ERROR :: int where "MQTT_UNSUBSCRIBE_ACK_PACKET_ERROR = - 0x0C"
definition MQTT_PUBLISH_ACK_PACKET_ERROR :: int where "MQTT_PUBLISH_ACK_PACKET_ERROR = - 0x0B"
definition MQTT_PUBLISH_ACK_TYPE_ERROR :: int where "MQTT_PUBLISH_ACK_TYPE_ERROR = - 0x0A"
definition MQTT_PUBREC_PACKET_ERROR :: int where "MQTT_PUBREC_PACKET_ERROR = - 0x09"
definition MQTT_BUFFER_TOO_SHORT_ERROR :: int where "MQTT_BUFFER_TOO_SHORT_ERROR = - 0x08"
definition MQTT_NOTHING_TO_READ_ERROR :: int where "MQTT_NOTHING_TO_READ_ERROR = - 0x07"
definition MQTT_CONNECT_FAILED_ERROR :: int where "MQTT_CONNECT_FAILED_ERROR = - 0x04"
definition MQTT_MEM_NOT_ENOUGH_ERROR :: int where "MQTT_MEM_NOT_ENOUGH_ERROR = - 0x03"
definition MQTT_NULL_VALUE_ERROR :: int where "MQTT_NULL_VALUE_ERROR = - 0x02"
definition MQTT_FAILED_ERROR :: int where "MQTT_FAILED_ERROR = - 0x01"
definition MQTT_SUCCESS_ERROR :: int where "MQTT_SUCCESS_ERROR = 0"

lemmas mqtt_errors = MQTT_SOCKET_FAILED_ERROR_def MQTT_SOCKET_UNKNOWN_HOST_ERROR_def
  MQTT_SET_PUBLISH_DUP_FAILED_ERROR_def MQTT_CLEAN_SESSION_ERROR_def MQTT_ACK_NODE_IS_EXIST_ERROR_def
  MQTT_ACK_HANDLER_NUM_TOO_MUCH_ERROR_def MQTT_RESUBSCRIBE_ERROR_def MQTT_SUBSCRIBE_ERROR_def
  MQTT_SEND_PACKET_ERROR_def MQTT_SERIALIZE_PUBLISH_ACK_PACKET_ERROR_def MQTT_PUBLISH_PACKET_ERROR_def
  MQTT_RECONNECT_TIMEOUT_ERROR_def MQTT_SUBSCRIBE_NOT_ACK_ERROR_def MQTT_NOT_CONNECT_ERROR_def
  MQTT_SUBSCRIBE_ACK_PACKET_ERROR_def MQTT_UNSUBSCRIBE_ACK_PACKET_ERROR_def
  MQTT_PUBLISH_ACK_PACKET_ERROR_def MQTT_PUBLISH_ACK_TYPE_ERROR_def MQTT_PUBREC_PACKET_ERROR_def
  MQTT_BUFFER_TOO_SHORT_ERROR_def MQTT_NOTHING_TO_READ_ERROR_def MQTT_CONNECT_FAILED_ERROR_def
  MQTT_MEM_NOT_ENOUGH_ERROR_def MQTT_NULL_VALUE_ERROR_def MQTT_FAILED_ERROR_def MQTT_SUCCESS_ERROR_def

section \<open>The environment\<close>

text \<open>
  \<open>Rx e bs\<close>: after \<open>e\<close> microseconds the bytes \<open>bs\<close> are there; no bytes is the end of the stream.
  \<open>RxErr e\<close>: after \<open>e\<close> microseconds the call fails. \<open>Tx e n\<close>: the kernel takes \<open>n\<close> bytes after
  \<open>e\<close> microseconds (at most those offered); \<open>TxErr e\<close>: the call fails. One \<open>getaddrinfo\<close> answer is
  a list of addresses, each with the outcome of \<open>socket\<close> and \<open>connect\<close>.
\<close>

datatype rx_event = Rx nat bytes | RxErr nat
datatype tx_event = Tx nat nat | TxErr nat
datatype addr_try = SocketFails | ConnectFails int | Connects int

record world =
  now_us :: nat
  rx :: "rx_event list"
  tx :: "tx_event list"
  dns :: "addr_try list option list"
  wire :: "(int \<times> bytes) list"
  closed :: "int list"
  allocs :: "bool list"
  junk16 :: u16

definition recv :: "nat \<Rightarrow> nat \<Rightarrow> 'a world_scheme \<Rightarrow> (int \<times> bytes) \<times> 'a world_scheme" where
  "recv n tmo w =
     (case rx w of
        [] \<Rightarrow> ((-1, []), w\<lparr>now_us := now_us w + tmo\<rparr>)
      | Rx e bs # es \<Rightarrow>
          if e > tmo then ((-1, []), w\<lparr>now_us := now_us w + tmo, rx := Rx (e - tmo) bs # es\<rparr>)
          else if length bs \<le> n \<and> bs \<noteq> []
          then ((int (length bs), bs), w\<lparr>now_us := now_us w + e, rx := es\<rparr>)
          else ((int (length (take n bs)), take n bs), w\<lparr>now_us := now_us w + e, rx := Rx 0 (drop n bs) # es\<rparr>)
      | RxErr e # es \<Rightarrow>
          if e > tmo then ((-1, []), w\<lparr>now_us := now_us w + tmo, rx := RxErr (e - tmo) # es\<rparr>)
          else ((-1, []), w\<lparr>now_us := now_us w + e, rx := es\<rparr>))"

definition send_some :: "int \<Rightarrow> bytes \<Rightarrow> nat \<Rightarrow> 'a world_scheme \<Rightarrow> int \<times> 'a world_scheme" where
  "send_some fd bs tmo w =
     (case tx w of
        [] \<Rightarrow> (int (length bs), w\<lparr>wire := wire w @ [(fd, bs)]\<rparr>)
      | Tx e n # es \<Rightarrow>
          if e > tmo then (-1, w\<lparr>now_us := now_us w + tmo, tx := es\<rparr>)
          else (int (length (take n bs)), w\<lparr>now_us := now_us w + e, tx := es, wire := wire w @ [(fd, take n bs)]\<rparr>)
      | TxErr e # es \<Rightarrow> (-1, w\<lparr>now_us := now_us w + min e tmo, tx := es\<rparr>))"

definition platform_memory_alloc :: "'a world_scheme \<Rightarrow> bool \<times> 'a world_scheme" where
  "platform_memory_alloc w =
     (case allocs w of [] \<Rightarrow> (True, w) | ok # as \<Rightarrow> (ok, w\<lparr>allocs := as\<rparr>))"

definition close_fd :: "int \<Rightarrow> 'a world_scheme \<Rightarrow> 'a world_scheme" where
  "close_fd fd w = w\<lparr>closed := closed w @ [fd]\<rparr>"

definition usleep_us :: "nat \<Rightarrow> 'a world_scheme \<Rightarrow> 'a world_scheme" where
  "usleep_us usec w = w\<lparr>now_us := now_us w + usec\<rparr>"

section \<open>Sockets\<close>

fun connect_addrs :: "addr_try list \<Rightarrow> int \<Rightarrow> 'a world_scheme \<Rightarrow> int \<times> 'a world_scheme" where
  "connect_addrs [] ret w = (ret, w)"
| "connect_addrs (SocketFails # as) ret w = connect_addrs as MQTT_SOCKET_FAILED_ERROR w"
| "connect_addrs (Connects fd # as) ret w = (fd, w)"
| "connect_addrs (ConnectFails fd # as) ret w = connect_addrs as MQTT_CONNECT_FAILED_ERROR (close_fd fd w)"

definition platform_net_socket_connect :: "'a world_scheme \<Rightarrow> int \<times> 'a world_scheme" where
  "platform_net_socket_connect w =
     (let ret = MQTT_SOCKET_UNKNOWN_HOST_ERROR in
      case dns w of
        [] \<Rightarrow> (ret, w)
      | None # ds \<Rightarrow> (ret, w\<lparr>dns := ds\<rparr>)
      | Some addr_list # ds \<Rightarrow> connect_addrs addr_list ret (w\<lparr>dns := ds\<rparr>))"

definition sock_timeout_us :: "int \<Rightarrow> nat" where
  "sock_timeout_us timeout = (if timeout \<le> 0 then 100 else nat (timeout * 1000))"

text \<open>The receive loop; the first result tells whether \<open>recv\<close> failed, the second what was left to read.\<close>

function recv_loop :: "nat \<Rightarrow> bytes \<Rightarrow> nat \<Rightarrow> nat \<Rightarrow> 'a world_scheme \<Rightarrow>
    (bool \<times> nat \<times> bytes \<times> 'a world_scheme) option" where
  "recv_loop tmo buf ptr nleft w =
     (if nleft = 0 then Some (False, 0, buf, w)
      else
        (let ((nread, bs), w) = recv nleft tmo w in
         if nread < 0 then Some (True, nleft, buf, w)
         else if nread = 0 then Some (False, nleft, buf, w)
         else do {
           (buf, ptr) \<leftarrow> write_bytes (buf, ptr) bs;
           recv_loop tmo buf ptr (nleft - nat nread) w
         }))"
  by pat_completeness auto
termination
  by (relation "measure (\<lambda>(_, _, _, nleft, _). nleft)") auto

declare recv_loop.simps [simp del]

definition platform_net_socket_recv_timeout ::
  "bytes \<Rightarrow> nat \<Rightarrow> nat \<Rightarrow> int \<Rightarrow> 'a world_scheme \<Rightarrow> (int \<times> bytes \<times> 'a world_scheme) option" where
  "platform_net_socket_recv_timeout buf ptr len timeout w =
     do {
       (failed, nleft, buf, w) \<leftarrow> recv_loop (sock_timeout_us timeout) buf ptr len w;
       Some (if failed then -1 else int len - int nleft, buf, w)
     }"

definition platform_net_socket_write_timeout ::
  "int \<Rightarrow> bytes \<Rightarrow> int \<Rightarrow> 'a world_scheme \<Rightarrow> int \<times> 'a world_scheme" where
  "platform_net_socket_write_timeout fd bs timeout w = send_some fd bs (sock_timeout_us timeout) w"

definition platform_net_socket_close :: "int \<Rightarrow> 'a world_scheme \<Rightarrow> 'a world_scheme" where
  "platform_net_socket_close fd w = close_fd fd w"

section \<open>The network object\<close>

record network =
  net_host :: "bytes option"
  net_port :: "bytes option"
  net_socket :: int
  net_channel :: int
  net_ca_crt :: "bytes option"
  net_ca_crt_len :: nat
  net_timeout_ms :: nat

definition network_zero :: network where
  "network_zero = \<lparr>net_host = None, net_port = None, net_socket = 0, net_channel = 0,
     net_ca_crt = None, net_ca_crt_len = 0, net_timeout_ms = 0\<rparr>"

definition nettype_tcp_read ::
  "'n network_scheme \<Rightarrow> bytes \<Rightarrow> nat \<Rightarrow> nat \<Rightarrow> int \<Rightarrow> 'a world_scheme \<Rightarrow> (int \<times> bytes \<times> 'a world_scheme) option" where
  "nettype_tcp_read n buf ptr len timeout w = platform_net_socket_recv_timeout buf ptr len timeout w"

definition nettype_tcp_write :: "'n network_scheme \<Rightarrow> bytes \<Rightarrow> int \<Rightarrow> 'a world_scheme \<Rightarrow> int \<times> 'a world_scheme" where
  "nettype_tcp_write n bs timeout w = platform_net_socket_write_timeout (net_socket n) bs timeout w"

definition nettype_tcp_connect :: "'n network_scheme \<Rightarrow> 'a world_scheme \<Rightarrow> int \<times> 'n network_scheme \<times> 'a world_scheme" where
  "nettype_tcp_connect n w =
     (let (fd, w) = platform_net_socket_connect w; n = n\<lparr>net_socket := fd\<rparr> in
      if fd < 0 then (fd, n, w) else (MQTT_SUCCESS_ERROR, n, w))"

definition nettype_tcp_disconnect :: "'n network_scheme \<Rightarrow> 'a world_scheme \<Rightarrow> 'n network_scheme \<times> 'a world_scheme" where
  "nettype_tcp_disconnect n w =
     (n\<lparr>net_socket := -1\<rparr>, platform_net_socket_close (net_socket n) w)"

text \<open>
  \<^verbatim>\<open>network/network.c\<close> as built without TLS, where every call goes to the TCP functions; the
  TLS channel is dealt with in \<^verbatim>\<open>Tls_Session\<close> and \<^verbatim>\<open>Tls_Transfer\<close>.
\<close>

definition network_read ::
  "network \<Rightarrow> bytes \<Rightarrow> nat \<Rightarrow> nat \<Rightarrow> int \<Rightarrow> 'a world_scheme \<Rightarrow> (int \<times> bytes \<times> 'a world_scheme) option" where
  "network_read n buf ptr len timeout w = nettype_tcp_read n buf ptr len timeout w"

definition network_write :: "network \<Rightarrow> bytes \<Rightarrow> int \<Rightarrow> 'a world_scheme \<Rightarrow> int \<times> 'a world_scheme" where
  "network_write n bs timeout w = nettype_tcp_write n bs timeout w"

definition network_connect :: "network \<Rightarrow> 'a world_scheme \<Rightarrow> int \<times> network \<times> 'a world_scheme" where
  "network_connect n w = nettype_tcp_connect n w"

definition network_disconnect :: "network \<Rightarrow> 'a world_scheme \<Rightarrow> network \<times> 'a world_scheme" where
  "network_disconnect n w = nettype_tcp_disconnect n w"

definition network_release :: "network \<Rightarrow> 'a world_scheme \<Rightarrow> network \<times> 'a world_scheme" where
  "network_release n w =
     (if net_socket n \<ge> 0
      then (let (n, w) = network_disconnect n w in (network_zero, w))
      else (n, w))"

definition network_init :: "network option \<Rightarrow> bytes option \<Rightarrow> bytes option \<Rightarrow> int \<times> network option" where
  "network_init n host port =
     (case n of
        None \<Rightarrow> (MQTT_NULL_VALUE_ERROR, None)
      | Some n \<Rightarrow> (MQTT_SUCCESS_ERROR, Some (n\<lparr>net_socket := -1, net_host := host, net_port := port\<rparr>)))"

definition network_set_host_port :: "network option \<Rightarrow> bytes option \<Rightarrow> bytes option \<Rightarrow> int \<times> network option" where
  "network_set_host_port n host port =
     (case (n, host, port) of
        (Some n, Some h, Some p) \<Rightarrow> (MQTT_SUCCESS_ERROR, Some (n\<lparr>net_host := Some h, net_port := Some p\<rparr>))
      | _ \<Rightarrow> (MQTT_NULL_VALUE_ERROR, n))"

text \<open>In the build with TLS.\<close>

definition NETWORK_CHANNEL_TLS :: int where "NETWORK_CHANNEL_TLS = 1"
definition MQTT_TLS_HANDSHAKE_TIMEOUT :: nat where "MQTT_TLS_HANDSHAKE_TIMEOUT = 5000"

definition network_set_channel :: "network \<Rightarrow> int \<Rightarrow> network" where
  "network_set_channel n channel = n\<lparr>net_channel := channel\<rparr>"

definition network_set_ca :: "network option \<Rightarrow> bytes option \<Rightarrow> int \<times> network option" where
  "network_set_ca n ca =
     (case (n, ca) of
        (Some n, Some ca) \<Rightarrow>
          (MQTT_SUCCESS_ERROR, Some (n\<lparr>net_ca_crt := Some ca, net_ca_crt_len := length ca,
             net_channel := NETWORK_CHANNEL_TLS, net_timeout_ms := MQTT_TLS_HANDSHAKE_TIMEOUT\<rparr>))
      | _ \<Rightarrow> (MQTT_NULL_VALUE_ERROR, n))"

definition network_init_tls ::
  "network option \<Rightarrow> bytes option \<Rightarrow> bytes option \<Rightarrow> bytes option \<Rightarrow> int \<times> network option" where
  "network_init_tls n host port ca =
     (case n of
        None \<Rightarrow> (MQTT_NULL_VALUE_ERROR, None)
      | Some n \<Rightarrow>
          (let n = n\<lparr>net_socket := -1, net_host := host, net_port := port, net_channel := 0\<rparr>;
               n' = (if ca \<noteq> None then snd (network_set_ca (Some n) ca) else Some n) in
           (MQTT_SUCCESS_ERROR, n')))"

definition network_release_tls :: "(network \<Rightarrow> 'w \<Rightarrow> network \<times> 'w) \<Rightarrow> network \<Rightarrow> 'w \<Rightarrow> network \<times> 'w" where
  "network_release_tls disconnect n w =
     (if net_socket n \<ge> 0 then (network_zero, snd (disconnect n w)) else (n, w))"

section \<open>What a read takes from the stream\<close>

definition stream :: "rx_event list \<Rightarrow> bytes" where
  "stream es = concat (map (\<lambda>e. case e of Rx _ bs \<Rightarrow> bs | RxErr _ \<Rightarrow> []) es)"

lemma stream_simps [simp]:
  "stream [] = []" "stream (Rx e bs # es) = bs @ stream es" "stream (RxErr e # es) = stream es"
  by (simp_all add: stream_def)

lemma recv_cases:
  assumes "recv n tmo w = ((rc, bs), w')"
  shows "(rc = int (length bs) \<or> rc = -1 \<and> bs = []) \<and> length bs \<le> n \<and>
    stream (rx w) = bs @ stream (rx w') \<and> now_us w \<le> now_us w' \<and> now_us w' \<le> now_us w + tmo \<and>
    world.more w' = world.more w"
  using assms by (auto simp: recv_def split: list.splits rx_event.splits if_splits)

lemma recv_frame:
  "recv n tmo w = (r, w') \<Longrightarrow> tx w' = tx w \<and> dns w' = dns w \<and> wire w' = wire w \<and> closed w' = closed w \<and>
     allocs w' = allocs w \<and> junk16 w' = junk16 w \<and> world.more w' = world.more w"
  by (auto simp: recv_def split: list.splits rx_event.splits if_splits)

lemma recv_loop_stream:
  "ptr + nleft \<le> length buf \<Longrightarrow>
   \<exists>failed left bs w'. recv_loop tmo buf ptr nleft w =
      Some (failed, left, take ptr buf @ bs @ drop (ptr + length bs) buf, w') \<and>
    left + length bs = nleft \<and> stream (rx w) = bs @ stream (rx w') \<and> (failed \<longrightarrow> 0 < left) \<and>
    now_us w \<le> now_us w' \<and> world.more w' = world.more w"
proof (induction nleft arbitrary: buf ptr w rule: less_induct)
  case (less nleft)
  show ?case
  proof (cases "nleft = 0")
    case True
    then show ?thesis
      by (intro exI [of _ False] exI [of _ 0] exI [of _ "[]"] exI [of _ w]) (subst recv_loop.simps, simp)
  next
    case False
    obtain rc bs w1 where r: "recv nleft tmo w = ((rc, bs), w1)" by (metis surj_pair)
    note rc = recv_cases [OF r]
    consider "rc < 0" | "rc = 0" | "0 < rc" by linarith
    then show ?thesis
    proof cases
      case 1
      with rc have "bs = []" by auto
      with 1 False r rc show ?thesis
        by (intro exI [of _ True] exI [of _ nleft] exI [of _ "[]"] exI [of _ w1]) (subst recv_loop.simps, simp)
    next
      case 2
      with rc have "bs = []" by auto
      with 2 False r rc show ?thesis
        by (intro exI [of _ False] exI [of _ nleft] exI [of _ "[]"] exI [of _ w1]) (subst recv_loop.simps, simp)
    next
      case 3
      with rc have rcl: "rc = int (length bs)" "bs \<noteq> []" "length bs \<le> nleft" by auto
      let ?buf = "take ptr buf @ bs @ drop (ptr + length bs) buf"
      have fit: "ptr + length bs \<le> length buf" using less.prems rcl(3) by linarith
      have step: "recv_loop tmo buf ptr nleft w =
          recv_loop tmo ?buf (ptr + length bs) (nleft - length bs) w1"
        using False r 3 rcl fit by (subst recv_loop.simps) (auto simp: write_bytes_def)
      have pr: "ptr + length bs + (nleft - length bs) \<le> length ?buf" using less.prems rcl(3) by simp
      have "nleft - length bs < nleft" using rcl(2) False by simp
      from less.IH [OF this pr, of w1] obtain failed left cs w2 where IH: "recv_loop tmo ?buf (ptr + length bs) (nleft - length bs) w1 =
          Some (failed, left, take (ptr + length bs) ?buf @ cs @ drop (ptr + length bs + length cs) ?buf, w2)"
        "left + length cs = nleft - length bs" "stream (rx w1) = cs @ stream (rx w2)" "failed \<longrightarrow> 0 < left"
        "now_us w1 \<le> now_us w2" "world.more w2 = world.more w1"
        by blast
      have "take (ptr + length bs) ?buf @ cs @ drop (ptr + length bs + length cs) ?buf =
          take ptr buf @ (bs @ cs) @ drop (ptr + length (bs @ cs)) buf"
        using fit by (simp add: ac_simps)
      with step IH rc rcl show ?thesis
        by (intro exI [of _ failed] exI [of _ left] exI [of _ "bs @ cs"] exI [of _ w2]) simp
    qed
  qed
qed

text \<open>\<^bold>\<open>Property C24 (recv_timeout_stream).\<close> \<open>platform_net_socket_recv_timeout\<close> into a
  buffer with room ends, writes only the requested window, and what it writes there is exactly what it
  takes from the stream, in order. A non-negative result is that number of bytes; the result minus one
  can come with bytes taken from the stream whose number the caller never learns.\<close>

theorem recv_timeout_stream:
  assumes "ptr + len \<le> length buf"
  shows "\<exists>rc bs w'. platform_net_socket_recv_timeout buf ptr len timeout w =
      Some (rc, take ptr buf @ bs @ drop (ptr + length bs) buf, w') \<and>
    stream (rx w) = bs @ stream (rx w') \<and> length bs \<le> len \<and>
    (rc = int (length bs) \<or> rc = -1 \<and> length bs < len)"
proof -
  obtain failed left bs w' where "recv_loop (sock_timeout_us timeout) buf ptr len w =
      Some (failed, left, take ptr buf @ bs @ drop (ptr + length bs) buf, w')"
    "left + length bs = len" "stream (rx w) = bs @ stream (rx w')" "failed \<longrightarrow> 0 < left"
    using recv_loop_stream [OF assms] by blast
  then show ?thesis
    by (intro exI [of _ "if failed then -1 else int len - int left"] exI [of _ bs] exI [of _ w'])
      (auto simp: platform_net_socket_recv_timeout_def)
qed

definition sample_world :: world where
  "sample_world = \<lparr>now_us = 0, rx = [Rx 10 [1, 2], RxErr 5, Rx 0 [3]], tx = [], dns = [], wire = [], closed = [],
     allocs = [], junk16 = 0\<rparr>"

theorem recv_timeout_stream_witness:
  "(\<exists>rc bs w'. platform_net_socket_recv_timeout [0, 0, 0, 0] 1 3 1000 sample_world =
      Some (rc, take 1 [0, 0, 0, 0] @ bs @ drop (1 + length bs) [0, 0, 0, 0], w') \<and>
    stream (rx sample_world) = bs @ stream (rx w') \<and> length bs \<le> 3 \<and>
    (rc = int (length bs) \<or> rc = -1 \<and> length bs < 3)) \<and>
   map_option (\<lambda>(rc, buf, w). (rc, buf, stream (rx w))) (platform_net_socket_recv_timeout [0, 0, 0, 0] 1 3 1000 sample_world) =
     Some (-1, [0, 1, 2, 0], [3])"
  by (rule conjI [OF recv_timeout_stream]) code_simp+

end
