(* ===== verification/Packet_Codec.thy ===== *)
theory Packet_Codec
  imports Prelude
begin

unbundle bit_operations_syntax

text \<open>
  The primitives of \<^verbatim>\<open>mqtt/MQTTPacket.c\<close> and \<^verbatim>\<open>mqtt/MQTTPacket.h\<close>: the fixed header byte and
  its bit fields, the remaining-length code, the typed readers and writers on a running pointer,
  length-delimited strings, and the two routines that pull a packet from a byte source
  (\<open>MQTTPacket_read\<close>, blocking, and \<open>MQTTPacket_readnb\<close>, resumable).
  C \<open>int\<close> values that are lengths are natural numbers here.
\<close>

section \<open>Message types and the header byte\<close>

datatype msgTypes = CONNECT | CONNACK | PUBLISH | PUBACK | PUBREC | PUBREL | PUBCOMP
  | SUBSCRIBE | SUBACK | UNSUBSCRIBE | UNSUBACK | PINGREQ | PINGRESP | DISCONNECT

fun msg_code :: "msgTypes \<Rightarrow> u8" where
  "msg_code CONNECT = 1"
| "msg_code CONNACK = 2"
| "msg_code PUBLISH = 3"
| "msg_code PUBACK = 4"
| "msg_code PUBREC = 5"
| "msg_code PUBREL = 6"
| "msg_code PUBCOMP = 7"
| "msg_code SUBSCRIBE = 8"
| "msg_code SUBACK = 9"
| "msg_code UNSUBSCRIBE = 10"
| "msg_code UNSUBACK = 11"
| "msg_code PINGREQ = 12"
| "msg_code PINGRESP = 13"
| "msg_code DISCONNECT = 14"

lemma msg_code_inj [simp]: "msg_code a = msg_code b \<longleftrightarrow> a = b"
  by (cases a; cases b) simp_all

lemma msg_code_nibble [simp]: "take_bit 4 (msg_code m) = msg_code m"
  by (cases m) simp_all

text \<open>The packet types can be enumerated, so quantifiers over them compute.\<close>

instantiation msgTypes :: enum
begin

definition enum_msgTypes :: "msgTypes list" where
  "enum_msgTypes = [CONNECT, CONNACK, PUBLISH, PUBACK, PUBREC, PUBREL, PUBCOMP, SUBSCRIBE, SUBACK, UNSUBSCRIBE,
     UNSUBACK, PINGREQ, PINGRESP, DISCONNECT]"

definition enum_all_msgTypes :: "(msgTypes \<Rightarrow> bool) \<Rightarrow> bool" where
  "enum_all_msgTypes P \<longleftrightarrow> list_all P enum_class.enum"

definition enum_ex_msgTypes :: "(msgTypes \<Rightarrow> bool) \<Rightarrow> bool" where
  "enum_ex_msgTypes P \<longleftrightarrow> list_ex P enum_class.enum"

lemma UNIV_msgTypes: "UNIV = set (enum_class.enum :: msgTypes list)"
proof -
  have "t \<in> set enum_class.enum" for t :: msgTypes by (cases t) (simp_all add: enum_msgTypes_def)
  then show ?thesis by auto
qed

instance
  by standard (simp_all add: UNIV_msgTypes enum_all_msgTypes_def enum_ex_msgTypes_def list_all_iff list_ex_iff,
    simp add: enum_msgTypes_def)

end

lemma card_msgTypes: "CARD(msgTypes) = 14"
  by (simp add: card_UNIV_length_enum enum_msgTypes_def)

text \<open>The bit fields of \<open>MQTTHeader\<close> (little-endian layout); an assignment truncates.\<close>

definition mk_header :: "u8 \<Rightarrow> u8 \<Rightarrow> nat \<Rightarrow> u8 \<Rightarrow> u8" where
  "mk_header typ dup qos retain =
     push_bit 4 (take_bit 4 typ) OR push_bit 3 (take_bit 1 dup) OR
     push_bit 1 (take_bit 2 (of_nat qos)) OR take_bit 1 retain"

definition hdr_type :: "u8 \<Rightarrow> u8" where
  "hdr_type h = drop_bit 4 h"

definition hdr_dup :: "u8 \<Rightarrow> u8" where
  "hdr_dup h = take_bit 1 (drop_bit 3 h)"

definition hdr_qos :: "u8 \<Rightarrow> nat" where
  "hdr_qos h = take_bit 2 (unat (drop_bit 1 h))"

definition hdr_retain :: "u8 \<Rightarrow> u8" where
  "hdr_retain h = take_bit 1 h"

definition hdr_set_dup :: "u8 \<Rightarrow> u8 \<Rightarrow> u8" where
  "hdr_set_dup h dup = (h AND NOT (push_bit 3 1)) OR push_bit 3 (take_bit 1 dup)"

lemma bit_mk_header:
  "bit (mk_header t d q r) n \<longleftrightarrow> n < 8 \<and>
     (if 4 \<le> n then bit t (n - 4) else if n = 3 then bit d 0
      else if n = 0 then bit r 0 else bit q (n - 1))"
  unfolding mk_header_def
  by (simp only: bit_or_iff bit_push_bit_iff bit_take_bit_iff possible_bit_word bit_of_nat_iff_bit)
    (auto simp: bit_of_nat_iff)

lemma bit_hdr_set_dup: "bit (hdr_set_dup h d) n \<longleftrightarrow> n < 8 \<and> (if n = 3 then bit d 0 else bit h n)"
  unfolding hdr_set_dup_def
  by (simp only: bit_or_iff bit_and_iff bit_not_iff bit_push_bit_iff bit_take_bit_iff possible_bit_word)
    (auto dest: bit_imp_le_length simp: bit_1_iff)

lemmas bit_fields = bit_mk_header bit_hdr_set_dup bit_take_bit_iff bit_drop_bit_eq

lemma hdr_type_mk [simp]: "hdr_type (mk_header t d q r) = take_bit 4 t"
  unfolding hdr_type_def by (rule bit_word_eqI) (auto simp: bit_fields)

lemma hdr_dup_mk [simp]: "hdr_dup (mk_header t d q r) = take_bit 1 d"
  unfolding hdr_dup_def by (rule bit_word_eqI) (simp only: bit_fields o_apply, auto simp: not_le)

lemma hdr_retain_mk [simp]: "hdr_retain (mk_header t d q r) = take_bit 1 r"
  unfolding hdr_retain_def by (rule bit_word_eqI) (simp only: bit_fields o_apply, auto)

lemma hdr_qos_mk [simp]: "hdr_qos (mk_header t d q r) = q mod 4"
proof -
  have "hdr_qos (mk_header t d q r) = take_bit 2 q"
    unfolding hdr_qos_def
    by (rule bit_eqI) (simp only: bit_fields bit_unsigned_iff o_apply, auto)
  then show ?thesis by (simp add: take_bit_eq_mod)
qed

lemma hdr_qos_less: "hdr_qos h < 4"
  by (simp add: hdr_qos_def take_bit_eq_mod)

lemma hdr_type_set_dup [simp]: "hdr_type (hdr_set_dup h d) = hdr_type h"
  unfolding hdr_type_def
  by (rule bit_word_eqI) (auto simp: bit_fields dest: bit_imp_le_length)

lemma hdr_set_dup_mk: "hdr_set_dup (mk_header t d q r) d' = mk_header t d' q r"
  by (rule bit_word_eqI) (auto simp: bit_fields)

section \<open>Remaining length\<close>

fun MQTTPacket_encode :: "wcur \<Rightarrow> nat \<Rightarrow> wcur option" where
  "MQTTPacket_encode p len =
     (let d = of_nat (len mod 128); len' = len div 128 in
      do {
        p \<leftarrow> write_bytes p [if len' > 0 then d OR 0x80 else d];
        if len' > 0 then MQTTPacket_encode p len' else Some p
      })"

declare MQTTPacket_encode.simps [simp del]

fun enc_len :: "nat \<Rightarrow> bytes" where
  "enc_len n = (if n < 128 then [of_nat n] else (of_nat (n mod 128) OR 128) # enc_len (n div 128))"

declare enc_len.simps [simp del]

lemma MQTTPacket_encode_eq [writer]: "MQTTPacket_encode p n = write_bytes p (enc_len n)"
proof (induction n arbitrary: p rule: enc_len.induct)
  case (1 n)
  show ?case
  proof (cases "n < 128")
    case True
    then show ?thesis
      by (simp add: MQTTPacket_encode.simps [of p] enc_len.simps [of n] bind_eq_Some_conv
        split: option.split)
  next
    case False
    then have "n div 128 > 0" by (simp add: div_greater_zero_iff)
    with False 1 show ?thesis
      by (simp add: MQTTPacket_encode.simps [of p] enc_len.simps [of n] writer)
  qed
qed

text \<open>
  \<open>MQTTPacket_decode\<close> pulls bytes through a callback; \<open>getcharfn s\<close> gives the callback's return
  value, the byte it stored and the source afterwards. The loop keeps \<open>len\<close>, \<open>multiplier\<close> and
  \<open>value\<close>. A fifth byte, or a failed read, ends it with \<open>len\<close> already counted.
\<close>

function MQTTPacket_decode_loop ::
  "('s \<Rightarrow> ((int \<times> u8) \<times> 's) option) \<Rightarrow> nat \<Rightarrow> nat \<Rightarrow> nat \<Rightarrow> 's \<Rightarrow> (nat \<times> nat \<times> 's) option" where
  "MQTTPacket_decode_loop getcharfn len multiplier value s =
     (let len = Suc len in
      if len > 4 then Some (len, value, s)
      else do {
        ((rc, c), s) \<leftarrow> getcharfn s;
        if rc \<noteq> 1 then Some (len, value, s)
        else
          (let value = value + unat (c AND 127) * multiplier in
           if c AND 128 \<noteq> 0
           then MQTTPacket_decode_loop getcharfn len (multiplier * 128) value s
           else Some (len, value, s))
      })"
  by pat_completeness auto
termination
  by (relation "measure (\<lambda>(_, len, _). 5 - len)") auto

declare MQTTPacket_decode_loop.simps [simp del]

definition MQTTPacket_decode :: "('s \<Rightarrow> ((int \<times> u8) \<times> 's) option) \<Rightarrow> 's \<Rightarrow> (nat \<times> nat \<times> 's) option" where
  "MQTTPacket_decode getcharfn s = MQTTPacket_decode_loop getcharfn 0 1 0 s"

fun bufchar_loop :: "bytes \<Rightarrow> nat \<Rightarrow> u8 \<Rightarrow> nat \<Rightarrow> (u8 \<times> nat) option" where
  "bufchar_loop buf 0 c bufptr = Some (c, bufptr)"
| "bufchar_loop buf (Suc k) c bufptr = do { c \<leftarrow> rd buf bufptr; bufchar_loop buf k c (Suc bufptr) }"

definition bufchar :: "bytes \<Rightarrow> u8 \<Rightarrow> nat \<Rightarrow> nat \<Rightarrow> ((int \<times> u8) \<times> nat) option" where
  "bufchar buf c count bufptr =
     do { (c, bufptr) \<leftarrow> bufchar_loop buf count c bufptr; Some ((int count, c), bufptr) }"

definition MQTTPacket_decodeBuf :: "bytes \<Rightarrow> nat \<Rightarrow> (nat \<times> nat) option" where
  "MQTTPacket_decodeBuf buf i =
     do { (len, value, _) \<leftarrow> MQTTPacket_decode (bufchar buf 0 1) i; Some (len, value) }"

definition MQTTPacket_len :: "nat \<Rightarrow> nat" where
  "MQTTPacket_len rem_len =
     (let rem_len = rem_len + 1 in
      if rem_len < 128 then rem_len + 1
      else if rem_len < 16384 then rem_len + 2
      else if rem_len < 2097151 then rem_len + 3
      else rem_len + 4)"


subsection \<open>The code of a length and its decoding\<close>

lemma and_127: "(c :: u8) AND 127 = take_bit 7 c"
  by (simp add: take_bit_eq_mask mask_eq_exp_minus_1)

lemma and_128: "(c :: u8) AND 128 \<noteq> 0 \<longleftrightarrow> bit c 7"
  using and_exp_eq_0_iff_not_bit [of c 7] by simp

lemma bit_or_128: "bit ((c :: u8) OR 128) n \<longleftrightarrow> bit c n \<or> n = 7"
  using bit_exp_iff [of 7 n, where ?'a = u8] by (auto simp: bit_or_iff possible_bit_word)

lemma low7_unat: "unat ((c :: u8) AND 127) = unat c mod 128"
  unfolding and_127 unsigned_take_bit_eq by (simp add: take_bit_eq_mod)

lemma low7_small: "n < 128 \<Longrightarrow> unat ((of_nat n :: u8) AND 127) = n"
  by (simp add: low7_unat)

lemma low7_cont: "n < 128 \<Longrightarrow> unat ((of_nat n OR 128 :: u8) AND 127) = n"
proof -
  assume "n < 128"
  have "(of_nat n OR 128 :: u8) AND 127 = of_nat n AND 127"
    unfolding and_127 by (rule bit_word_eqI) (auto simp: bit_take_bit_iff bit_or_128)
  with \<open>n < 128\<close> show ?thesis by (simp only: low7_small)
qed

lemma top_bit_small: "n < 128 \<Longrightarrow> (of_nat n :: u8) AND 128 = 0"
  using and_128 [of "of_nat n"] by (auto simp: bit_of_nat_iff bit_iff_odd [of n])

lemma top_bit_cont: "(c OR 128 :: u8) AND 128 \<noteq> 0"
  unfolding and_128 bit_or_128 by simp

lemma length_enc_len_pos [simp]: "0 < length (enc_len n)"
  by (subst enc_len.simps) simp

lemma length_enc_len_le: "n < 128 ^ k \<Longrightarrow> 0 < k \<Longrightarrow> length (enc_len n) \<le> k"
proof (induction n arbitrary: k rule: enc_len.induct)
  case (1 n)
  show ?case
  proof (cases "n < 128")
    case True
    with 1 show ?thesis by (simp add: enc_len.simps [of n])
  next
    case False
    have "k \<noteq> 1" using False 1(2) by (rule_tac notI) simp
    with 1(3) obtain k' where k: "k = Suc k'" "0 < k'"
      by (cases k) auto
    then have "n div 128 < 128 ^ k'" using 1(2) by (simp add: less_mult_imp_div_less mult.commute)
    from 1(1) [OF False this k(2)] False k show ?thesis by (simp add: enc_len.simps [of n])
  qed
qed

lemma length_enc_len_128: "n < 128 \<Longrightarrow> length (enc_len n) = 1"
  by (simp add: enc_len.simps [of n])

lemma bufchar_one: "bufchar buf c 1 i = map_option (\<lambda>c. ((1, c), Suc i)) (rd buf i)"
  by (cases "rd buf i") (simp_all add: bufchar_def numeral_eq_Suc)

lemma decode_loop_last:
  "k < 4 \<Longrightarrow> g s = Some ((1, c), t) \<Longrightarrow> c AND 128 = 0 \<Longrightarrow>
   MQTTPacket_decode_loop g k m v s = Some (Suc k, v + unat (c AND 127) * m, t)"
  by (subst MQTTPacket_decode_loop.simps) (simp add: Let_def)

lemma decode_loop_more:
  "k < 4 \<Longrightarrow> g s = Some ((1, c), t) \<Longrightarrow> c AND 128 \<noteq> 0 \<Longrightarrow>
   MQTTPacket_decode_loop g k m v s =
     MQTTPacket_decode_loop g (Suc k) (m * 128) (v + unat (c AND 127) * m) t"
  by (subst MQTTPacket_decode_loop.simps) (simp add: Let_def)

lemma decode_loop_fail:
  "k < 4 \<Longrightarrow> g s = Some ((rc, c), t) \<Longrightarrow> rc \<noteq> 1 \<Longrightarrow>
   MQTTPacket_decode_loop g k m v s = Some (Suc k, v, t)"
  by (subst MQTTPacket_decode_loop.simps) (simp add: Let_def)

lemma decode_loop_over: "4 \<le> k \<Longrightarrow> MQTTPacket_decode_loop g k m v s = Some (Suc k, v, s)"
  by (subst MQTTPacket_decode_loop.simps) (simp add: Let_def)

lemma bufchar_rd: "rd buf i = Some c \<Longrightarrow> bufchar buf d 1 i = Some ((1, c), Suc i)"
  by (simp only: bufchar_one option.map)

lemma decode_loop_enc:
  "k + length (enc_len n) \<le> 4 \<Longrightarrow> seg buf i (enc_len n) \<Longrightarrow>
   MQTTPacket_decode_loop (bufchar buf 0 1) k m v i =
     Some (k + length (enc_len n), v + n * m, i + length (enc_len n))"
proof (induction n arbitrary: k m v i rule: enc_len.induct)
  case (1 n)
  then have k: "k < 4" using length_enc_len_pos [of n] by linarith
  show ?case
  proof (cases "n < 128")
    case True
    then have enc: "enc_len n = [of_nat n]" by (simp add: enc_len.simps [of n])
    with 1(3) have "rd buf i = Some (of_nat n)" by (simp add: seg_Cons)
    note r = bufchar_rd [OF this, of 0]
    show ?thesis
      unfolding enc decode_loop_last [of k "bufchar buf 0 1", OF k r top_bit_small [OF True]]
      by (simp add: low7_small [OF True])
  next
    case False
    then have enc: "enc_len n = (of_nat (n mod 128) OR 128) # enc_len (n div 128)"
      by (simp add: enc_len.simps [of n])
    with 1(3) have r: "rd buf i = Some (of_nat (n mod 128) OR 128)"
      and s: "seg buf (Suc i) (enc_len (n div 128))"
      unfolding enc by (simp_all only: seg_Cons)
    have "Suc k + length (enc_len (n div 128)) \<le> 4" using 1(2) enc by simp
    note IH = 1(1) [OF False this s]
    have "n mod 128 * m + n div 128 * (m * 128) = (n mod 128 + n div 128 * 128) * m"
      by (simp only: distrib_right mult.assoc mult.commute [of m])
    then have "n mod 128 * m + n div 128 * (m * 128) = n * m" by simp
    then show ?thesis
      unfolding decode_loop_more [of k "bufchar buf 0 1", OF k bufchar_rd [OF r] top_bit_cont] IH enc
      by (simp add: low7_cont add.assoc)
  qed
qed

lemma decodeBuf_enc [reader]:
  assumes "seg buf i (enc_len n)" and "n < 268435456"
  shows "MQTTPacket_decodeBuf buf i = Some (length (enc_len n), n)"
proof -
  have "length (enc_len n) \<le> 4" using length_enc_len_le [of n 4] assms(2) by simp
  with assms(1) show ?thesis
    by (simp add: MQTTPacket_decodeBuf_def MQTTPacket_decode_def decode_loop_enc del: One_nat_def)
qed

text \<open>For any source: at most four bytes make the value, a fifth count reports bad data.\<close>

lemma decode_step_value: "v < 128 ^ len \<Longrightarrow> v + unat ((c :: u8) AND 127) * 128 ^ len < 128 ^ Suc len"
proof -
  have step: "v + u * p < 128 * p" if "v < p" "u \<le> 127" for u p :: nat
  proof -
    have "u * p \<le> 127 * p" using that(2) by (rule mult_le_mono1)
    moreover have "127 * p + p = 128 * p" by simp
    ultimately show ?thesis using that(1) by linarith
  qed
  have "unat (c AND 127) \<le> 127"
    unfolding low7_unat using mod_less_divisor [of 128 "unat c"] by simp
  then show "v < 128 ^ len \<Longrightarrow> ?thesis" unfolding power_Suc by (rule step [rotated])
qed

lemma decode_loop_bounds:
  "MQTTPacket_decode_loop g len m v s = Some (len', v', s') \<Longrightarrow> m = 128 ^ len \<Longrightarrow>
   v < 128 ^ len \<Longrightarrow> len \<le> 4 \<Longrightarrow> len < len' \<and> len' \<le> 5 \<and> v' < 268435456"
proof (induction g len m v s rule: MQTTPacket_decode_loop.induct)
  case (1 g len m v s)
  have pw: "(128::nat) ^ k \<le> 268435456" if "k \<le> 4" for k
    using power_increasing [OF that, of "128::nat"] by simp
  show ?case
  proof (cases "len = 4")
    case True
    with 1 show ?thesis by (simp add: MQTTPacket_decode_loop.simps [of g])
  next
    case False
    with 1 have l: "\<not> Suc len > 4" "len < 4" by auto
    show ?thesis
    proof (cases "g s")
      case None
      with 1(2) l show ?thesis by (subst (asm) MQTTPacket_decode_loop.simps) simp
    next
      case (Some r)
      then obtain rc c t where g: "g s = Some ((rc, c), t)" by (metis surj_pair)
      let ?w = "v + unat (c AND 127) * m"
      have w: "?w < 128 ^ Suc len" using decode_step_value 1 by simp
      with pw [of "Suc len"] pw [of len] 1(4) l have small: "?w < 268435456" "v < 268435456"
        by linarith+
      consider "rc \<noteq> 1" | "rc = 1" "c AND 128 = 0" | "rc = 1" "c AND 128 \<noteq> 0" by blast
      then show ?thesis
      proof cases
        case 1
        from decode_loop_fail [of len g s, OF l(2) g this] "1.prems"(1) l small show ?thesis by simp
      next
        case 2
        from decode_loop_last [of len g s, OF l(2) g [unfolded 2(1)] 2(2)] "1.prems"(1) l small
        show ?thesis by simp
      next
        case 3
        from decode_loop_more [of len g s, OF l(2) g [unfolded 3(1)] 3(2)] "1.prems"(1)
        have "MQTTPacket_decode_loop g (Suc len) (m * 128) ?w t = Some (len', v', s')" by simp
        then have "Suc len < len' \<and> len' \<le> 5 \<and> v' < 268435456"
          using "1.IH" [OF refl l(1) g refl refl _ refl 3(2)] 3(1) "1.prems"(2) w l(2)
          by simp
        then show ?thesis by simp
      qed
    qed
  qed
qed


lemma MQTTPacket_len_upper:
  assumes "n < 268435456"
  shows "1 + length (enc_len n) + n \<le> MQTTPacket_len n"
proof -
  have b: "length (enc_len n) \<le> k" if "n < 128 ^ k" "0 < k" for k
    using length_enc_len_le that by blast
  from b [of 1] b [of 2] b [of 3] b [of 4] assms show ?thesis
    by (auto simp: MQTTPacket_len_def Let_def)
qed

section \<open>Typed readers and writers\<close>

text \<open>
  A reader takes the buffer and the running pointer and returns the value and the advanced pointer.
\<close>

definition readInt :: "bytes \<Rightarrow> nat \<Rightarrow> (nat \<times> nat) option" where
  "readInt buf ptr =
     do { hi \<leftarrow> rd buf ptr; lo \<leftarrow> rd buf (ptr + 1); Some (256 * unat hi + unat lo, ptr + 2) }"

definition readChar :: "bytes \<Rightarrow> nat \<Rightarrow> (u8 \<times> nat) option" where
  "readChar buf ptr = do { c \<leftarrow> rd buf ptr; Some (c, ptr + 1) }"

definition writeChar :: "wcur \<Rightarrow> u8 \<Rightarrow> wcur option" where
  "writeChar p c = write_bytes p [c]"

definition writeInt :: "wcur \<Rightarrow> nat \<Rightarrow> wcur option" where
  "writeInt p anInt =
     do { p \<leftarrow> write_bytes p [of_nat (anInt div 256)]; write_bytes p [of_nat (anInt mod 256)] }"

definition writeCString :: "wcur \<Rightarrow> bytes \<Rightarrow> wcur option" where
  "writeCString p str = do { p \<leftarrow> writeInt p (length str); write_bytes p str }"

definition getLenStringLen :: "bytes \<Rightarrow> nat \<Rightarrow> nat option" where
  "getLenStringLen buf ptr =
     do { hi \<leftarrow> rd buf ptr; lo \<leftarrow> rd buf (ptr + 1); Some (256 * unat hi + unat lo) }"

text \<open>
  \<open>MQTTString\<close>: a C string, or a length and a pointer to data that need not be terminated. A C
  string is the list of its bytes before the terminator; a data pointer is an object and an offset
  in it.
\<close>

type_synonym cptr = "bytes \<times> nat"

record MQTTString =
  cstring :: "bytes option"
  lenstring_len :: nat
  lenstring_data :: "cptr option"

definition MQTTString_initializer :: MQTTString where
  "MQTTString_initializer = \<lparr>cstring = None, lenstring_len = 0, lenstring_data = None\<rparr>"

definition deref_block :: "cptr option \<Rightarrow> nat \<Rightarrow> bytes option" where
  "deref_block d n = (case d of None \<Rightarrow> if n = 0 then Some [] else None | Some (b, i) \<Rightarrow> rd_block b i n)"

definition writeMQTTString :: "wcur \<Rightarrow> MQTTString \<Rightarrow> wcur option" where
  "writeMQTTString p s =
     (if lenstring_len s > 0
      then do {
        p \<leftarrow> writeInt p (lenstring_len s);
        xs \<leftarrow> deref_block (lenstring_data s) (lenstring_len s);
        write_bytes p xs
      }
      else case cstring s of
        Some str \<Rightarrow> writeCString p str
      | None \<Rightarrow> writeInt p 0)"

definition readMQTTLenString :: "bytes \<Rightarrow> nat \<Rightarrow> nat \<Rightarrow> MQTTString \<Rightarrow> (bool \<times> MQTTString \<times> nat) option" where
  "readMQTTLenString buf ptr enddata s =
     (if int enddata - int ptr > 1
      then do {
        (len, ptr) \<leftarrow> readInt buf ptr;
        let s = s\<lparr>lenstring_len := len\<rparr>;
        if ptr + len \<le> enddata
        then Some (True, s\<lparr>lenstring_data := Some (buf, ptr), cstring := None\<rparr>, ptr + len)
        else Some (False, s\<lparr>cstring := None\<rparr>, ptr)
      }
      else Some (False, s\<lparr>cstring := None\<rparr>, ptr))"

definition MQTTstrlen :: "MQTTString \<Rightarrow> nat" where
  "MQTTstrlen s = (case cstring s of Some str \<Rightarrow> length str | None \<Rightarrow> lenstring_len s)"

definition MQTTPacket_equals :: "MQTTString \<Rightarrow> bytes \<Rightarrow> bool option" where
  "MQTTPacket_equals a b =
     (case cstring a of
        Some str \<Rightarrow> Some (str = b)
      | None \<Rightarrow>
          if lenstring_len a = length b
          then do { xs \<leftarrow> deref_block (lenstring_data a) (lenstring_len a); Some (xs = b) }
          else Some False)"

text \<open>The bytes a string stands for, and the strings on which the two routines agree.\<close>

definition mstr_bytes :: "MQTTString \<Rightarrow> bytes option" where
  "mstr_bytes s =
     (case cstring s of Some str \<Rightarrow> Some str | None \<Rightarrow> deref_block (lenstring_data s) (lenstring_len s))"

definition mstr_ok :: "MQTTString \<Rightarrow> bytes \<Rightarrow> bool" where
  "mstr_ok s xs \<longleftrightarrow> mstr_bytes s = Some xs \<and> (cstring s \<noteq> None \<longrightarrow> lenstring_len s = 0)"

definition cstr :: "bytes \<Rightarrow> MQTTString" where
  "cstr xs = MQTTString_initializer\<lparr>cstring := Some xs\<rparr>"


lemma writeChar_eq [writer]: "writeChar p c = write_bytes p [c]"
  by (simp add: writeChar_def)

lemma writeInt_eq [writer]: "writeInt p n = write_bytes p (be16 n)"
  by (simp add: writeInt_def be16_def writer)

lemma writeCString_eq [writer]: "writeCString p str = write_bytes p (be16 (length str) @ str)"
  by (simp add: writeCString_def writer)

lemma writeMQTTString_eq: "mstr_ok s xs \<Longrightarrow> writeMQTTString p s = write_bytes p (be16 (length xs) @ xs)"
  by (auto simp: writeMQTTString_def mstr_ok_def mstr_bytes_def writer deref_block_def
      dest: rd_block_length split: option.splits if_splits prod.splits)

lemma MQTTstrlen_eq: "mstr_ok s xs \<Longrightarrow> MQTTstrlen s = length xs"
  by (auto simp: MQTTstrlen_def mstr_ok_def mstr_bytes_def deref_block_def
      dest: rd_block_length split: option.splits if_splits prod.splits)

lemma mstr_ok_cstr [simp]: "mstr_ok (cstr xs) ys \<longleftrightarrow> ys = xs"
  by (auto simp: mstr_ok_def mstr_bytes_def cstr_def MQTTString_initializer_def)

lemma cstr_simps [simp]: "cstring (cstr xs) = Some xs" "lenstring_len (cstr xs) = 0" "lenstring_data (cstr xs) = None"
  by (simp_all add: cstr_def MQTTString_initializer_def)

lemma MQTTPacket_equals_eq: "mstr_ok s xs \<Longrightarrow> MQTTPacket_equals s ys = Some (xs = ys)"
  by (auto simp: MQTTPacket_equals_def mstr_ok_def mstr_bytes_def deref_block_def
      dest: rd_block_length split: option.splits if_splits prod.splits)

lemma readInt_be16 [reader]: "seg buf i (be16 n) \<Longrightarrow> n < 65536 \<Longrightarrow> readInt buf i = Some (n, i + 2)"
  by (simp add: readInt_def be16_def seg_Cons)

lemma readChar_seg [reader]: "seg buf i (c # xs) \<Longrightarrow> readChar buf i = Some (c, i + 1)"
  by (simp add: readChar_def seg_Cons)

lemma readMQTTLenString_seg [reader]:
  assumes "seg buf i (be16 (length xs) @ xs)" "length xs < 65536" "i + 2 + length xs \<le> enddata"
  shows "readMQTTLenString buf i enddata s =
    Some (True, s\<lparr>lenstring_len := length xs, lenstring_data := Some (buf, i + 2), cstring := None\<rparr>,
      i + 2 + length xs)"
proof -
  have "readInt buf i = Some (length xs, i + 2)"
    using readInt_be16 [OF seg_append1 [OF assms(1)] assms(2)] by simp
  then show ?thesis using assms by (simp add: readMQTTLenString_def)
qed

lemma mstr_ok_lenstring:
  "seg buf i xs \<Longrightarrow> mstr_ok (s\<lparr>lenstring_len := length xs, lenstring_data := Some (buf, i), cstring := None\<rparr>) xs"
  by (simp add: mstr_ok_def mstr_bytes_def deref_block_def rd_block_seg)

lemma readInt_Some: "readInt buf i = Some (n, j) \<Longrightarrow> n < 65536 \<and> j = i + 2 \<and> j \<le> length buf"
proof -
  assume "readInt buf i = Some (n, j)"
  then obtain hi lo where "n = 256 * unat (hi :: u8) + unat (lo :: u8)" "j = i + 2" "i + 1 < length buf"
    by (auto simp: readInt_def bind_eq_Some_conv rd_def split: if_splits)
  then show ?thesis using unat_u8_less [of hi] unat_u8_less [of lo] by simp
qed

lemma readMQTTLenString_bounds:
  "readMQTTLenString buf i enddata s = Some (True, s', j) \<Longrightarrow>
     j \<le> enddata \<and> j = i + 2 + lenstring_len s' \<and> lenstring_len s' < 65536 \<and>
     lenstring_data s' = Some (buf, i + 2) \<and> cstring s' = None"
  by (auto simp: readMQTTLenString_def bind_eq_Some_conv Let_def dest!: readInt_Some split: if_splits)

section \<open>Reading a packet from a source\<close>

text \<open>
  \<open>getfn n s\<close> is one call of the source for up to \<open>n\<close> bytes: its return value, the bytes it stored
  and the source afterwards. Stored bytes go into the caller's buffer, within its bounds.
\<close>

type_synonym 's getfn = "nat \<Rightarrow> 's \<Rightarrow> (int \<times> bytes) \<times> 's"

definition getchar1 :: "'s getfn \<Rightarrow> 's \<Rightarrow> ((int \<times> u8) \<times> 's) option" where
  "getchar1 getfn s =
     (let ((rc, bs), s) = getfn 1 s in Some ((rc, case bs of [] \<Rightarrow> 0 | c # _ \<Rightarrow> c), s))"

definition MQTTPacket_read :: "'s getfn \<Rightarrow> bytes \<Rightarrow> nat \<Rightarrow> 's \<Rightarrow> (int \<times> bytes \<times> 's) option" where
  "MQTTPacket_read getfn buf buflen s =
     (let ((rc, bs), s) = getfn 1 s in
      do {
        (buf, _) \<leftarrow> write_bytes (buf, 0) bs;
        if rc \<noteq> 1 then Some (-1, buf, s)
        else do {
          (_, rem_len, s) \<leftarrow> MQTTPacket_decode (getchar1 getfn) s;
          (buf, len) \<leftarrow> MQTTPacket_encode (buf, 1) rem_len;
          if rem_len + len > buflen then Some (-1, buf, s)
          else if rem_len = 0 then do { h \<leftarrow> rd buf 0; Some (uint (hdr_type h), buf, s) }
          else
            (let ((rc, bs), s) = getfn rem_len s in
             do {
               (buf, _) \<leftarrow> write_bytes (buf, len) bs;
               if rc \<noteq> int rem_len then Some (-1, buf, s)
               else do { h \<leftarrow> rd buf 0; Some (uint (hdr_type h), buf, s) }
             })
        }
      })"

text \<open>
  The resumable reader keeps its progress in the transport. Result 0 asks to be called again; the
  three phases are the cases of the switch, each falling through to the next.
\<close>

record 's MQTTTransport =
  sck :: 's
  trp_multiplier :: nat
  trp_rem_len :: nat
  trp_len :: nat
  trp_state :: nat

function decodenb_loop :: "'s getfn \<Rightarrow> 's MQTTTransport \<Rightarrow> int \<times> 's MQTTTransport" where
  "decodenb_loop getfn trp =
     (if trp_len trp \<ge> 4 then (-1, trp)
      else
        (let ((frc, bs), s) = getfn 1 (sck trp); trp = trp\<lparr>sck := s\<rparr> in
         if frc = -1 then (-1, trp)
         else if frc = 0 then (0, trp)
         else
           (let c = (case bs of [] \<Rightarrow> 0 | c # _ \<Rightarrow> c);
                trp = trp\<lparr>trp_len := Suc (trp_len trp),
                          trp_rem_len := trp_rem_len trp + unat (c AND 127) * trp_multiplier trp,
                          trp_multiplier := trp_multiplier trp * 128\<rparr> in
            if c AND 128 \<noteq> 0 then decodenb_loop getfn trp else (int (trp_len trp), trp))))"
  by pat_completeness auto
termination
  by (relation "measure (\<lambda>(_, trp). 4 - trp_len trp)") auto

declare decodenb_loop.simps [simp del]

definition MQTTPacket_decodenb :: "'s getfn \<Rightarrow> 's MQTTTransport \<Rightarrow> int \<times> 's MQTTTransport" where
  "MQTTPacket_decodenb getfn trp =
     decodenb_loop getfn (if trp_len trp = 0 then trp\<lparr>trp_multiplier := 1, trp_rem_len := 0\<rparr> else trp)"

definition readnb_exit :: "int \<Rightarrow> bytes \<Rightarrow> 's MQTTTransport \<Rightarrow> (int \<times> bytes \<times> 's MQTTTransport) option" where
  "readnb_exit rc buf trp = Some (rc, buf, trp\<lparr>trp_state := 0\<rparr>)"

definition readnb_case2 :: "'s getfn \<Rightarrow> bytes \<Rightarrow> 's MQTTTransport \<Rightarrow> (int \<times> bytes \<times> 's MQTTTransport) option" where
  "readnb_case2 getfn buf trp =
     (if trp_rem_len trp \<noteq> 0
      then
        (let ((frc, bs), s) = getfn (trp_rem_len trp) (sck trp); trp = trp\<lparr>sck := s\<rparr> in
         do {
           (buf, _) \<leftarrow> write_bytes (buf, trp_len trp) bs;
           if frc = -1 then readnb_exit (-1) buf trp
           else if frc = 0 then Some (0, buf, trp)
           else
             (let trp = trp\<lparr>trp_rem_len := trp_rem_len trp - nat frc, trp_len := trp_len trp + nat frc\<rparr> in
              if trp_rem_len trp \<noteq> 0 then Some (0, buf, trp)
              else do { h \<leftarrow> rd buf 0; readnb_exit (uint (hdr_type h)) buf trp })
         })
      else do { h \<leftarrow> rd buf 0; readnb_exit (uint (hdr_type h)) buf trp })"

definition readnb_case1 :: "'s getfn \<Rightarrow> bytes \<Rightarrow> nat \<Rightarrow> 's MQTTTransport \<Rightarrow> (int \<times> bytes \<times> 's MQTTTransport) option" where
  "readnb_case1 getfn buf buflen trp =
     (let (frc, trp) = MQTTPacket_decodenb getfn trp in
      if frc = -1 then readnb_exit (-1) buf trp
      else if frc = 0 then Some (0, buf, trp)
      else do {
        (buf, n) \<leftarrow> MQTTPacket_encode (buf, 1) (trp_rem_len trp);
        let trp = trp\<lparr>trp_len := n\<rparr>;
        if trp_rem_len trp + trp_len trp > buflen then readnb_exit (-1) buf trp
        else readnb_case2 getfn buf (trp\<lparr>trp_state := Suc (trp_state trp)\<rparr>)
      })"

definition readnb_case0 :: "'s getfn \<Rightarrow> bytes \<Rightarrow> nat \<Rightarrow> 's MQTTTransport \<Rightarrow> (int \<times> bytes \<times> 's MQTTTransport) option" where
  "readnb_case0 getfn buf buflen trp =
     (let ((frc, bs), s) = getfn 1 (sck trp); trp = trp\<lparr>sck := s\<rparr> in
      do {
        (buf, _) \<leftarrow> write_bytes (buf, 0) bs;
        if frc = -1 then readnb_exit (-1) buf trp
        else if frc = 0 then Some (0, buf, trp)
        else readnb_case1 getfn buf buflen (trp\<lparr>trp_len := 0, trp_state := Suc (trp_state trp)\<rparr>)
      })"

definition MQTTPacket_readnb :: "'s getfn \<Rightarrow> bytes \<Rightarrow> nat \<Rightarrow> 's MQTTTransport \<Rightarrow> (int \<times> bytes \<times> 's MQTTTransport) option" where
  "MQTTPacket_readnb getfn buf buflen trp =
     (if trp_state trp = 1 then readnb_case1 getfn buf buflen trp
      else if trp_state trp = 2 then readnb_case2 getfn buf trp
      else if trp_state trp = 0 then readnb_case0 getfn buf buflen trp
      else readnb_case0 getfn buf buflen (trp\<lparr>trp_state := 0\<rparr>))"

end
