(* ===== verification/Packet_Publish.thy ===== *)
theory Packet_Publish
  imports Packet_Codec
begin

text \<open>
  PUBLISH packets and the four-byte acknowledgements:
  \<^verbatim>\<open>mqtt/MQTTSerializePublish.c\<close> and \<^verbatim>\<open>mqtt/MQTTDeserializePublish.c\<close>. A serializer returns its
  C return value and the buffer; a deserializer takes the previous contents of its output
  parameters, since it leaves some of them alone on a failing path. \<open>publish_packet\<close> and
  \<open>ack_packet\<close> are the reference encodings; the serializers are shown to write exactly those.
\<close>

definition emit :: "bytes \<Rightarrow> bytes \<Rightarrow> (int \<times> bytes) option" where
  "emit buf xs = do { (buf, n) \<leftarrow> write_bytes (buf, 0) xs; Some (int n, buf) }"

definition BUFFER_TOO_SHORT :: int where "BUFFER_TOO_SHORT = -2"

lemma emit_bind:
  "do { (buf, n) \<leftarrow> write_bytes (buf, 0) xs; Some (int n, buf) } = emit buf xs"
  by (simp add: emit_def)

lemma emit_Some: "emit buf xs = Some (rc, b) \<longleftrightarrow>
    length xs \<le> length buf \<and> rc = int (length xs) \<and> b = xs @ drop (length xs) buf"
  by (auto simp: emit_def write_bytes_pad)

lemma emit_fits: "length xs \<le> length buf \<Longrightarrow> emit buf xs = Some (int (length xs), xs @ drop (length xs) buf)"
  by (simp add: emit_Some)

lemma emit_None: "emit buf xs = None \<longleftrightarrow> length buf < length xs"
  by (auto simp: emit_def write_bytes_pad)

section \<open>Serializing\<close>

definition MQTTSerialize_publishLength :: "nat \<Rightarrow> MQTTString \<Rightarrow> nat \<Rightarrow> nat" where
  "MQTTSerialize_publishLength qos topicName payloadlen =
     (let len = 2 + MQTTstrlen topicName + payloadlen in if qos > 0 then len + 2 else len)"

definition MQTTSerialize_publish ::
  "bytes \<Rightarrow> nat \<Rightarrow> u8 \<Rightarrow> nat \<Rightarrow> u8 \<Rightarrow> u16 \<Rightarrow> MQTTString \<Rightarrow> cptr option \<Rightarrow> nat \<Rightarrow> (int \<times> bytes) option" where
  "MQTTSerialize_publish buf buflen dup qos retained packetid topicName payload payloadlen =
     (let rem_len = MQTTSerialize_publishLength qos topicName payloadlen in
      if MQTTPacket_len rem_len > buflen then Some (BUFFER_TOO_SHORT, buf)
      else do {
        ptr \<leftarrow> writeChar (buf, 0) (mk_header (msg_code PUBLISH) dup qos retained);
        ptr \<leftarrow> MQTTPacket_encode ptr rem_len;
        ptr \<leftarrow> writeMQTTString ptr topicName;
        ptr \<leftarrow> (if qos > 0 then writeInt ptr (unat packetid) else Some ptr);
        xs \<leftarrow> deref_block payload payloadlen;
        (buf, n) \<leftarrow> write_bytes ptr xs;
        Some (int n, buf)
      })"

definition MQTTSerialize_ack :: "bytes \<Rightarrow> nat \<Rightarrow> msgTypes \<Rightarrow> u8 \<Rightarrow> u16 \<Rightarrow> (int \<times> bytes) option" where
  "MQTTSerialize_ack buf buflen packettype dup packetid =
     (if buflen < 4 then Some (BUFFER_TOO_SHORT, buf)
      else do {
        ptr \<leftarrow> writeChar (buf, 0)
          (mk_header (msg_code packettype) dup (if packettype = PUBREL then 1 else 0) 0);
        ptr \<leftarrow> MQTTPacket_encode ptr 2;
        (buf, n) \<leftarrow> writeInt ptr (unat packetid);
        Some (int n, buf)
      })"

definition MQTTSerialize_puback :: "bytes \<Rightarrow> nat \<Rightarrow> u16 \<Rightarrow> (int \<times> bytes) option" where
  "MQTTSerialize_puback buf buflen packetid = MQTTSerialize_ack buf buflen PUBACK 0 packetid"

definition MQTTSerialize_pubrel :: "bytes \<Rightarrow> nat \<Rightarrow> u8 \<Rightarrow> u16 \<Rightarrow> (int \<times> bytes) option" where
  "MQTTSerialize_pubrel buf buflen dup packetid = MQTTSerialize_ack buf buflen PUBREL dup packetid"

definition MQTTSerialize_pubcomp :: "bytes \<Rightarrow> nat \<Rightarrow> u16 \<Rightarrow> (int \<times> bytes) option" where
  "MQTTSerialize_pubcomp buf buflen packetid = MQTTSerialize_ack buf buflen PUBCOMP 0 packetid"

section \<open>Deserializing\<close>

record publish_out =
  po_dup :: u8
  po_qos :: nat
  po_retained :: u8
  po_packetid :: u16
  po_topic :: MQTTString
  po_payload :: "cptr option"
  po_payloadlen :: int

definition MQTTDeserialize_publish ::
  "publish_out \<Rightarrow> bytes \<Rightarrow> nat \<Rightarrow> (int \<times> publish_out) option" where
  "MQTTDeserialize_publish out buf buflen =
     do {
       (h, curdata) \<leftarrow> readChar buf 0;
       if hdr_type h \<noteq> msg_code PUBLISH then Some (0, out)
       else do {
         let out = out\<lparr>po_dup := hdr_dup h, po_qos := hdr_qos h, po_retained := hdr_retain h\<rparr>;
         (rc, mylen) \<leftarrow> MQTTPacket_decodeBuf buf curdata;
         let curdata = curdata + rc;
         let enddata = curdata + mylen;
         (ok, topic, curdata) \<leftarrow> readMQTTLenString buf curdata enddata (po_topic out);
         let out = out\<lparr>po_topic := topic\<rparr>;
         if \<not> ok \<or> int enddata - int curdata < 0 then Some (int rc, out)
         else do {
           (out, curdata) \<leftarrow>
             (if po_qos out > 0
              then do { (pid, cur) \<leftarrow> readInt buf curdata; Some (out\<lparr>po_packetid := of_nat pid\<rparr>, cur) }
              else Some (out, curdata));
           Some (1, out\<lparr>po_payloadlen := int enddata - int curdata, po_payload := Some (buf, curdata)\<rparr>)
         }
       }
     }"

record ack_out =
  ao_packettype :: u8
  ao_dup :: u8
  ao_packetid :: u16

definition MQTTDeserialize_ack :: "ack_out \<Rightarrow> bytes \<Rightarrow> nat \<Rightarrow> (int \<times> ack_out) option" where
  "MQTTDeserialize_ack out buf buflen =
     do {
       (h, curdata) \<leftarrow> readChar buf 0;
       let out = out\<lparr>ao_dup := hdr_dup h, ao_packettype := hdr_type h\<rparr>;
       (rc, mylen) \<leftarrow> MQTTPacket_decodeBuf buf curdata;
       let curdata = curdata + rc;
       let enddata = curdata + mylen;
       if int enddata - int curdata < 2 then Some (int rc, out)
       else do {
         (pid, curdata) \<leftarrow> readInt buf curdata;
         Some (1, out\<lparr>ao_packetid := of_nat pid\<rparr>)
       }
     }"

section \<open>Reference encodings\<close>

definition publish_rem :: "nat \<Rightarrow> bytes \<Rightarrow> bytes \<Rightarrow> nat" where
  "publish_rem qos topic payload = 2 + length topic + (if qos > 0 then 2 else 0) + length payload"

definition publish_body :: "nat \<Rightarrow> u16 \<Rightarrow> bytes \<Rightarrow> bytes \<Rightarrow> bytes" where
  "publish_body qos pid topic payload =
     (be16 (length topic) @ topic) @ (if qos > 0 then be16 (unat pid) else []) @ payload"

definition publish_packet :: "u8 \<Rightarrow> nat \<Rightarrow> u8 \<Rightarrow> u16 \<Rightarrow> bytes \<Rightarrow> bytes \<Rightarrow> bytes" where
  "publish_packet dup qos retained pid topic payload =
     mk_header (msg_code PUBLISH) dup qos retained # enc_len (publish_rem qos topic payload) @
     publish_body qos pid topic payload"

definition ack_packet :: "msgTypes \<Rightarrow> u8 \<Rightarrow> u16 \<Rightarrow> bytes" where
  "ack_packet typ dup pid =
     mk_header (msg_code typ) dup (if typ = PUBREL then 1 else 0) 0 # enc_len 2 @ be16 (unat pid)"

lemma length_publish_body: "length (publish_body qos pid topic payload) = publish_rem qos topic payload"
  by (simp add: publish_body_def publish_rem_def)

lemma length_publish_packet:
  "length (publish_packet dup qos retained pid topic payload) =
     1 + length (enc_len (publish_rem qos topic payload)) + publish_rem qos topic payload"
  by (simp add: publish_packet_def length_publish_body)

lemma length_ack_packet [simp]: "length (ack_packet typ dup pid) = 4"
  by (simp add: ack_packet_def length_enc_len_128)

lemma serialize_publish_eq:
  assumes "mstr_ok topicName ts" "deref_block payload n = Some ps"
  shows "MQTTSerialize_publish buf buflen dup qos retained pid topicName payload n =
    (if MQTTPacket_len (publish_rem qos ts ps) > buflen then Some (BUFFER_TOO_SHORT, buf)
     else emit buf (publish_packet dup qos retained pid ts ps))"
proof -
  have len: "length ps = n"
    using assms(2) by (auto simp: deref_block_def dest: rd_block_length split: option.splits if_splits)
  then have "MQTTSerialize_publishLength qos topicName n = publish_rem qos ts ps"
    by (simp add: MQTTSerialize_publishLength_def publish_rem_def MQTTstrlen_eq [OF assms(1)])
  then show ?thesis
    by (simp add: MQTTSerialize_publish_def writer writeMQTTString_eq [OF assms(1)] assms(2)
        emit_bind publish_packet_def publish_body_def)
qed

lemma serialize_ack_eq:
  "MQTTSerialize_ack buf buflen typ dup pid =
    (if buflen < 4 then Some (BUFFER_TOO_SHORT, buf) else emit buf (ack_packet typ dup pid))"
  by (simp add: MQTTSerialize_ack_def writer emit_bind ack_packet_def)

lemma length_publish_packet_le:
  "publish_rem qos ts ps < 268435456 \<Longrightarrow>
   length (publish_packet dup qos retained pid ts ps) \<le> MQTTPacket_len (publish_rem qos ts ps)"
  using MQTTPacket_len_upper by (simp add: length_publish_packet)

text \<open>\<^bold>\<open>Property C15 (publish_writes_packet).\<close> When the length check of \<open>MQTTSerialize_publish\<close>
  passes and the buffer has the announced size, the function writes exactly the bytes of the PUBLISH
  packet at the start of the buffer, leaves every later byte alone, returns the packet's length and
  never touches memory outside the buffer.\<close>

theorem publish_writes_packet:
  assumes "mstr_ok topicName ts" "deref_block payload n = Some ps"
    and "buflen \<le> length buf" "MQTTPacket_len (publish_rem qos ts ps) \<le> buflen"
    and "publish_rem qos ts ps < 268435456"
  shows "MQTTSerialize_publish buf buflen dup qos retained pid topicName payload n =
    (let pk = publish_packet dup qos retained pid ts ps
     in Some (int (length pk), pk @ drop (length pk) buf))"
  using length_publish_packet_le [of qos ts ps dup retained pid] assms
  by (simp add: serialize_publish_eq emit_fits Let_def)

theorem publish_writes_packet_witness:
  "MQTTSerialize_publish (replicate 16 0) 16 0 1 0 7 (cstr [97, 47, 98]) (Some ([104, 105], 0)) 2 =
     Some (11, [50, 9, 0, 3, 97, 47, 98, 0, 7, 104, 105, 0, 0, 0, 0, 0])"
  by (rule trans [OF publish_writes_packet [of "cstr [97, 47, 98]" "[97, 47, 98]"
          "Some ([104, 105], 0)" 2 "[104, 105]" 16 "replicate 16 0" 1 0 0 7]])
    code_simp+

section \<open>Decoding what was encoded\<close>

text \<open>
  The tail \<open>post\<close> stands for whatever the receive buffer holds behind the packet.
\<close>

lemma seg_publish_packet:
  assumes "buf = publish_packet dup qos retained pid ts ps @ post"
  defines "i \<equiv> Suc (length (enc_len (publish_rem qos ts ps)))"
  shows "seg buf 0 [mk_header (msg_code PUBLISH) dup qos retained]"
    and "seg buf (Suc 0) (enc_len (publish_rem qos ts ps))"
    and "seg buf i (be16 (length ts) @ ts)"
    and "qos > 0 \<Longrightarrow> seg buf (i + (2 + length ts)) (be16 (unat pid))"
    and "seg buf (i + (2 + length ts) + (if qos > 0 then 2 else 0)) ps"
proof -
  have "seg buf 0 (publish_packet dup qos retained pid ts ps)"
    using assms(1) by (simp add: seg_self)
  then show "seg buf 0 [mk_header (msg_code PUBLISH) dup qos retained]"
    and "seg buf (Suc 0) (enc_len (publish_rem qos ts ps))"
    and "seg buf i (be16 (length ts) @ ts)"
    and "qos > 0 \<Longrightarrow> seg buf (i + (2 + length ts)) (be16 (unat pid))"
    and "seg buf (i + (2 + length ts) + (if qos > 0 then 2 else 0)) ps"
    by (auto simp: publish_packet_def publish_body_def i_def seg_append seg_Cons add.assoc Suc_le_eq
        dest: rd_less split: if_splits)
qed

lemma deref_seg: "seg b i xs \<Longrightarrow> deref_block (Some (b, i)) (length xs) = Some xs"
  by (simp add: deref_block_def rd_block_seg)

text \<open>Where topic and payload stand in the packet, and what the decoder makes of it.\<close>

definition topic_at :: "nat \<Rightarrow> bytes \<Rightarrow> bytes \<Rightarrow> nat" where
  "topic_at qos ts ps = Suc (length (enc_len (publish_rem qos ts ps))) + 2"

definition payload_at :: "nat \<Rightarrow> bytes \<Rightarrow> bytes \<Rightarrow> nat" where
  "payload_at qos ts ps = topic_at qos ts ps + length ts + (if qos > 0 then 2 else 0)"

lemma decode_publish_packet:
  assumes "length ts < 65536" "qos < 4" "publish_rem qos ts ps < 268435456"
    and buf_def: "buf = publish_packet dup qos retained pid ts ps @ post"
  shows "MQTTDeserialize_publish out buf buflen = Some (1,
      \<lparr>po_dup = take_bit 1 dup, po_qos = qos, po_retained = take_bit 1 retained,
       po_packetid = (if qos > 0 then pid else po_packetid out),
       po_topic = \<lparr>cstring = None, lenstring_len = length ts, lenstring_data = Some (buf, topic_at qos ts ps)\<rparr>,
       po_payload = Some (buf, payload_at qos ts ps), po_payloadlen = int (length ps)\<rparr>)"
    and "seg buf (topic_at qos ts ps) ts" and "seg buf (payload_at qos ts ps) ps"
    and "length buf = payload_at qos ts ps + length ps + length post"
    and "drop (payload_at qos ts ps) buf = ps @ post"
proof -
  let ?i = "Suc (length (enc_len (publish_rem qos ts ps)))"
  note segs = seg_publish_packet [where dup = dup and qos = qos and retained = retained and pid = pid
      and ts = ts and ps = ps and post = post, OF buf_def]
  note r = readChar_seg [OF segs(1)] decodeBuf_enc [OF segs(2) assms(3)]
    readMQTTLenString_seg [OF segs(3) assms(1)]
  have en: "?i + 2 + length ts \<le> ?i + publish_rem qos ts ps" by (simp add: publish_rem_def)
  have pidr: "readInt buf (?i + (2 + length ts)) = Some (unat pid, ?i + (2 + length ts) + 2)" if "qos > 0"
    using readInt_be16 [OF segs(4) [OF that]] unsigned_less [of pid, where ?'a = nat] by simp
  show "seg buf (topic_at qos ts ps) ts" using segs(3) by (simp add: seg_append topic_at_def)
  show p: "seg buf (payload_at qos ts ps) ps" using segs(5) by (simp add: payload_at_def topic_at_def ac_simps)
  show l: "length buf = payload_at qos ts ps + length ps + length post"
    by (simp add: buf_def length_publish_packet payload_at_def topic_at_def publish_rem_def)
  show "drop (payload_at qos ts ps) buf = ps @ post"
    by (simp add: buf_def publish_packet_def publish_body_def payload_at_def topic_at_def)
  show "MQTTDeserialize_publish out buf buflen = Some (1,
      \<lparr>po_dup = take_bit 1 dup, po_qos = qos, po_retained = take_bit 1 retained,
       po_packetid = (if qos > 0 then pid else po_packetid out),
       po_topic = \<lparr>cstring = None, lenstring_len = length ts, lenstring_data = Some (buf, topic_at qos ts ps)\<rparr>,
       po_payload = Some (buf, payload_at qos ts ps), po_payloadlen = int (length ps)\<rparr>)"
  proof (cases "qos > 0")
    case True
    with r(1,2) r(3) [OF en] pidr [OF True] assms(2) show ?thesis
      by (simp add: MQTTDeserialize_publish_def publish_rem_def Let_def topic_at_def payload_at_def)
  next
    case False
    with r(1,2) r(3) [OF en] assms(2) show ?thesis
      by (simp add: MQTTDeserialize_publish_def publish_rem_def Let_def topic_at_def payload_at_def)
  qed
qed

text \<open>\<^bold>\<open>Property C14 (publish_roundtrip).\<close> Decoding a PUBLISH packet that the library
  encoded succeeds and gives back its flags, its quality of service, its packet identifier (left
  alone at quality 0), its topic and its payload; the topic and the payload point into the buffer.\<close>

theorem publish_roundtrip:
  assumes "length ts < 65536" "qos < 4" "publish_rem qos ts ps < 268435456"
  shows "\<exists>r. MQTTDeserialize_publish out (publish_packet dup qos retained pid ts ps @ post) buflen = Some (1, r) \<and>
    po_dup r = take_bit 1 dup \<and> po_qos r = qos \<and> po_retained r = take_bit 1 retained \<and>
    po_packetid r = (if qos > 0 then pid else po_packetid out) \<and>
    mstr_bytes (po_topic r) = Some ts \<and>
    po_payloadlen r = int (length ps) \<and> deref_block (po_payload r) (length ps) = Some ps"
proof -
  note d = decode_publish_packet [OF assms refl, where dup = dup and retained = retained and pid = pid and post = post]
  show ?thesis
    unfolding d(1) using deref_seg [OF d(2)] deref_seg [OF d(3)] by (simp add: mstr_bytes_def)
qed

theorem publish_roundtrip_witness:
  "\<exists>r. MQTTDeserialize_publish \<lparr>po_dup = 0, po_qos = 0, po_retained = 0, po_packetid = 0,
        po_topic = MQTTString_initializer, po_payload = None, po_payloadlen = 0\<rparr>
      (publish_packet 1 2 0 513 [97, 47, 98] [104, 105] @ [0]) 12 = Some (1, r) \<and>
    po_dup r = take_bit 1 1 \<and> po_qos r = 2 \<and> po_retained r = take_bit 1 0 \<and>
    po_packetid r = (if (2::nat) > 0 then 513 else 0) \<and> mstr_bytes (po_topic r) = Some [97, 47, 98] \<and>
    po_payloadlen r = int (length [104 :: u8, 105]) \<and>
    deref_block (po_payload r) (length [104 :: u8, 105]) = Some [104, 105]"
  by (rule publish_roundtrip [of "[97, 47, 98]" 2 "[104, 105]" "\<lparr>po_dup = 0, po_qos = 0, po_retained = 0,
        po_packetid = 0, po_topic = MQTTString_initializer, po_payload = None, po_payloadlen = 0\<rparr>" 1 0 513 "[0]" 12,
        simplified publish_out.simps]) code_simp+

lemma seg_ack_packet:
  "seg (ack_packet typ dup pid @ post) 0 [mk_header (msg_code typ) dup (if typ = PUBREL then 1 else 0) 0]"
  "seg (ack_packet typ dup pid @ post) (Suc 0) (enc_len 2)"
  "seg (ack_packet typ dup pid @ post) 2 (be16 (unat pid))"
  using seg_self [of "ack_packet typ dup pid" post] length_enc_len_128 [of 2]
  by (auto simp: ack_packet_def seg_append seg_Cons numeral_2_eq_2)

lemma decode_ack_packet:
  "MQTTDeserialize_ack out (ack_packet typ dup pid @ post) n =
     Some (1, \<lparr>ao_packettype = msg_code typ, ao_dup = take_bit 1 dup, ao_packetid = pid\<rparr>)"
proof -
  have "readInt (ack_packet typ dup pid @ post) 2 = Some (unat pid, 4)"
    using readInt_be16 [OF seg_ack_packet(3)] unsigned_less [of pid, where ?'a = nat] by simp
  then show ?thesis
    using readChar_seg [OF seg_ack_packet(1)] decodeBuf_enc [OF seg_ack_packet(2)]
      length_enc_len_128 [of 2]
    by (simp add: MQTTDeserialize_ack_def numeral_2_eq_2)
qed

text \<open>\<open>MQTTSerialize_ack\<close> writes four bytes, refuses a
  buffer of fewer, and \<open>MQTTDeserialize_ack\<close> reads type, duplicate flag and packet identifier back
  from them.\<close>

theorem ack_roundtrip:
  "MQTTSerialize_ack (a # b # c # d # post) buflen typ dup pid =
     (if buflen < 4 then Some (BUFFER_TOO_SHORT, a # b # c # d # post)
      else Some (4, ack_packet typ dup pid @ post)) \<and>
   MQTTDeserialize_ack out (ack_packet typ dup pid @ post) n =
     Some (1, \<lparr>ao_packettype = msg_code typ, ao_dup = take_bit 1 dup, ao_packetid = pid\<rparr>)"
  by (simp add: serialize_ack_eq emit_fits numeral_eq_Suc decode_ack_packet)

section \<open>Short packets\<close>

text \<open>
  On the failing paths \<open>rc\<close> still holds the value \<open>MQTTPacket_decodeBuf\<close> returned, the number of
  length bytes. For a short packet that is one, the value that means success.
\<close>

lemma seg_short_packet:
  assumes "length body < 128"
  shows "seg (h # enc_len (length body) @ body @ post) 0 [h]"
    and "seg (h # enc_len (length body) @ body @ post) (Suc 0) (enc_len (length body))"
    and "seg (h # enc_len (length body) @ body @ post) 2 body"
  using seg_self [of "h # enc_len (length body) @ body" post] length_enc_len_128 [OF assms]
  by (auto simp: seg_append seg_Cons numeral_2_eq_2)

lemma decodeBuf_short:
  "length body < 128 \<Longrightarrow>
   MQTTPacket_decodeBuf (h # enc_len (length body) @ body @ post) (Suc 0) = Some (1, length body)"
  using decodeBuf_enc [OF seg_short_packet(2)] length_enc_len_128 [of "length body"] by simp

text \<open>An acknowledgement whose remaining length is
  below two is reported as decoded (return value 1), with the packet identifier left as it was.\<close>

theorem short_ack_reported_ok:
  assumes "length body < 2"
  shows "MQTTDeserialize_ack out (h # enc_len (length body) @ body @ post) n =
    Some (1, out\<lparr>ao_packettype := hdr_type h, ao_dup := hdr_dup h\<rparr>)"
  using readChar_seg [OF seg_short_packet(1) [of body]] decodeBuf_short [of body] assms
  by (simp add: MQTTDeserialize_ack_def)

theorem short_ack_reported_ok_witness:
  "MQTTDeserialize_ack \<lparr>ao_packettype = 0, ao_dup = 0, ao_packetid = 9\<rparr> [0x40, 0] 2 =
     Some (1, \<lparr>ao_packettype = 4, ao_dup = 0, ao_packetid = 9\<rparr>)"
  by (rule trans [OF _ trans [OF short_ack_reported_ok [of "[]" "\<lparr>ao_packettype = 0, ao_dup = 0, ao_packetid = 9\<rparr>"
          "0x40" "[]" 2]]]) code_simp+



end
