(* ===== verification/Packet_Connect.thy ===== *)
theory Packet_Connect
  imports Packet_Publish
begin

unbundle bit_operations_syntax

text \<open>
  CONNECT, CONNACK and the packets without content: \<^verbatim>\<open>mqtt/MQTTConnectClient.c\<close>,
  \<^verbatim>\<open>mqtt/MQTTConnectServer.c\<close>, \<^verbatim>\<open>mqtt/MQTTConnect.h\<close>. The eyecatcher and version fields of the option
  structures are constants nothing reads, so the records leave them out. \<open>connect_packet\<close> is the
  reference encoding; the client's serializer writes it and the server's deserializer reads it.
\<close>

section \<open>Flags and options\<close>

datatype connack_return_codes = MQTT_CONNECTION_ACCEPTED | MQTT_UNNACCEPTABLE_PROTOCOL
  | MQTT_CLIENTID_REJECTED | MQTT_SERVER_UNAVAILABLE | MQTT_BAD_USERNAME_OR_PASSWORD | MQTT_NOT_AUTHORIZED

fun connack_code :: "connack_return_codes \<Rightarrow> int" where
  "connack_code MQTT_CONNECTION_ACCEPTED = 0"
| "connack_code MQTT_UNNACCEPTABLE_PROTOCOL = 1"
| "connack_code MQTT_CLIENTID_REJECTED = 2"
| "connack_code MQTT_SERVER_UNAVAILABLE = 3"
| "connack_code MQTT_BAD_USERNAME_OR_PASSWORD = 4"
| "connack_code MQTT_NOT_AUTHORIZED = 5"

definition mk_connect_flags :: "u8 \<Rightarrow> u8 \<Rightarrow> nat \<Rightarrow> u8 \<Rightarrow> u8 \<Rightarrow> u8 \<Rightarrow> u8" where
  "mk_connect_flags cleansession will willQoS willRetain password username =
     push_bit 1 (take_bit 1 cleansession) OR push_bit 2 (take_bit 1 will) OR
     push_bit 3 (take_bit 2 (of_nat willQoS)) OR push_bit 5 (take_bit 1 willRetain) OR
     push_bit 6 (take_bit 1 password) OR push_bit 7 (take_bit 1 username)"

definition cf_bit :: "nat \<Rightarrow> u8 \<Rightarrow> u8" where
  "cf_bit n all = take_bit 1 (drop_bit n all)"

definition cf_willQoS :: "u8 \<Rightarrow> nat" where
  "cf_willQoS all = take_bit 2 (unat (drop_bit 3 all))"

lemma bit_mk_connect_flags:
  "bit (mk_connect_flags c w q r p u) n \<longleftrightarrow>
     (if n = 1 then bit c 0 else if n = 2 then bit w 0 else if n = 3 then bit q 0
      else if n = 4 then bit q 1 else if n = 5 then bit r 0 else if n = 6 then bit p 0
      else n = 7 \<and> bit u 0)"
  unfolding mk_connect_flags_def
  by (simp only: bit_or_iff bit_push_bit_iff bit_take_bit_iff possible_bit_word bit_of_nat_iff_bit)
    (auto simp: bit_of_nat_iff numeral_eq_Suc less_Suc_eq)

lemma cf_bit_mk [simp]:
  "cf_bit (Suc 0) (mk_connect_flags c w q r p u) = take_bit 1 c"
  "cf_bit 2 (mk_connect_flags c w q r p u) = take_bit 1 w"
  "cf_bit 5 (mk_connect_flags c w q r p u) = take_bit 1 r"
  "cf_bit 6 (mk_connect_flags c w q r p u) = take_bit 1 p"
  "cf_bit 7 (mk_connect_flags c w q r p u) = take_bit 1 u"
  unfolding cf_bit_def
  by (rule bit_word_eqI; simp only: bit_take_bit_iff bit_drop_bit_eq bit_mk_connect_flags o_apply; auto)+

lemma cf_willQoS_mk [simp]: "cf_willQoS (mk_connect_flags c w q r p u) = q mod 4"
proof -
  have "cf_willQoS (mk_connect_flags c w q r p u) = take_bit 2 q"
    unfolding cf_willQoS_def
    by (rule bit_eqI; simp only: bit_take_bit_iff bit_drop_bit_eq bit_mk_connect_flags bit_unsigned_iff o_apply)
      (auto simp: less_Suc_eq numeral_2_eq_2)
  then show ?thesis by (simp add: take_bit_eq_mod)
qed

record MQTTPacket_willOptions =
  will_topicName :: MQTTString
  will_message :: MQTTString
  will_retained :: u8
  will_qos :: nat

record MQTTPacket_connectData =
  MQTTVersion :: u8
  clientID :: MQTTString
  keepAliveInterval :: u16
  cleansession :: u8
  willFlag :: u8
  will :: MQTTPacket_willOptions
  username :: MQTTString
  password :: MQTTString

definition MQTTPacket_willOptions_initializer :: MQTTPacket_willOptions where
  "MQTTPacket_willOptions_initializer =
     \<lparr>will_topicName = MQTTString_initializer, will_message = MQTTString_initializer,
      will_retained = 0, will_qos = 0\<rparr>"

definition MQTTPacket_connectData_initializer :: MQTTPacket_connectData where
  "MQTTPacket_connectData_initializer =
     \<lparr>MQTTVersion = 4, clientID = MQTTString_initializer, keepAliveInterval = 60, cleansession = 1,
      willFlag = 0, will = MQTTPacket_willOptions_initializer,
      username = MQTTString_initializer, password = MQTTString_initializer\<rparr>"

definition mstr_given :: "MQTTString \<Rightarrow> bool" where
  "mstr_given s \<longleftrightarrow> cstring s \<noteq> None \<or> lenstring_data s \<noteq> None"

section \<open>The client side\<close>

definition MQTTSerialize_connectLength :: "MQTTPacket_connectData \<Rightarrow> nat" where
  "MQTTSerialize_connectLength options =
     (let len = (if MQTTVersion options = 3 then 12 else if MQTTVersion options = 4 then 10 else 0);
          len = len + MQTTstrlen (clientID options) + 2;
          len = (if willFlag options \<noteq> 0
                 then len + MQTTstrlen (will_topicName (will options)) + 2 +
                   MQTTstrlen (will_message (will options)) + 2
                 else len);
          len = (if mstr_given (username options) then len + MQTTstrlen (username options) + 2 else len);
          len = (if mstr_given (password options) then len + MQTTstrlen (password options) + 2 else len) in
      len)"

definition bytes_MQTT :: bytes where "bytes_MQTT = [77, 81, 84, 84]"
definition bytes_MQIsdp :: bytes where "bytes_MQIsdp = [77, 81, 73, 115, 100, 112]"

definition connect_flags :: "MQTTPacket_connectData \<Rightarrow> u8" where
  "connect_flags options =
     (let w = (if willFlag options \<noteq> 0 then 1 else 0) in
      mk_connect_flags (cleansession options) w
        (if w \<noteq> 0 then will_qos (will options) else 0)
        (if w \<noteq> 0 then will_retained (will options) else 0)
        (if mstr_given (password options) then 1 else 0)
        (if mstr_given (username options) then 1 else 0))"

definition MQTTSerialize_connect :: "bytes \<Rightarrow> nat \<Rightarrow> MQTTPacket_connectData \<Rightarrow> (int \<times> bytes) option" where
  "MQTTSerialize_connect buf buflen options =
     (let len = MQTTSerialize_connectLength options in
      if MQTTPacket_len len > buflen then Some (BUFFER_TOO_SHORT, buf)
      else do {
        ptr \<leftarrow> writeChar (buf, 0) (mk_header (msg_code CONNECT) 0 0 0);
        ptr \<leftarrow> MQTTPacket_encode ptr len;
        ptr \<leftarrow> (if MQTTVersion options = 4
                then do { ptr \<leftarrow> writeCString ptr bytes_MQTT; writeChar ptr 4 }
                else do { ptr \<leftarrow> writeCString ptr bytes_MQIsdp; writeChar ptr 3 });
        ptr \<leftarrow> writeChar ptr (connect_flags options);
        ptr \<leftarrow> writeInt ptr (unat (keepAliveInterval options));
        ptr \<leftarrow> writeMQTTString ptr (clientID options);
        ptr \<leftarrow> (if willFlag options \<noteq> 0
                then do { ptr \<leftarrow> writeMQTTString ptr (will_topicName (will options));
                          writeMQTTString ptr (will_message (will options)) }
                else Some ptr);
        ptr \<leftarrow> (if mstr_given (username options) then writeMQTTString ptr (username options) else Some ptr);
        ptr \<leftarrow> (if mstr_given (password options) then writeMQTTString ptr (password options) else Some ptr);
        Some (int (snd ptr), fst ptr)
      })"

record connack_out =
  co_sessionPresent :: u8
  co_connack_rc :: u8

definition MQTTDeserialize_connack :: "connack_out \<Rightarrow> bytes \<Rightarrow> nat \<Rightarrow> (int \<times> connack_out) option" where
  "MQTTDeserialize_connack out buf buflen =
     do {
       (h, curdata) \<leftarrow> readChar buf 0;
       if hdr_type h \<noteq> msg_code CONNACK then Some (0, out)
       else do {
         (rc, mylen) \<leftarrow> MQTTPacket_decodeBuf buf curdata;
         let curdata = curdata + rc;
         let enddata = curdata + mylen;
         if int enddata - int curdata < 2 then Some (int rc, out)
         else do {
           (flags, curdata) \<leftarrow> readChar buf curdata;
           (c, curdata) \<leftarrow> readChar buf curdata;
           Some (1, \<lparr>co_sessionPresent = take_bit 1 flags, co_connack_rc = c\<rparr>)
         }
       }
     }"

definition MQTTSerialize_zero :: "bytes \<Rightarrow> nat \<Rightarrow> msgTypes \<Rightarrow> (int \<times> bytes) option" where
  "MQTTSerialize_zero buf buflen packettype =
     (if buflen < 2 then Some (BUFFER_TOO_SHORT, buf)
      else do {
        ptr \<leftarrow> writeChar (buf, 0) (mk_header (msg_code packettype) 0 0 0);
        (buf, n) \<leftarrow> MQTTPacket_encode ptr 0;
        Some (int n, buf)
      })"

definition MQTTSerialize_disconnect :: "bytes \<Rightarrow> nat \<Rightarrow> (int \<times> bytes) option" where
  "MQTTSerialize_disconnect buf buflen = MQTTSerialize_zero buf buflen DISCONNECT"

definition MQTTSerialize_pingreq :: "bytes \<Rightarrow> nat \<Rightarrow> (int \<times> bytes) option" where
  "MQTTSerialize_pingreq buf buflen = MQTTSerialize_zero buf buflen PINGREQ"

section \<open>The server side\<close>

definition MQTTPacket_checkVersion :: "MQTTString \<Rightarrow> int \<Rightarrow> bool option" where
  "MQTTPacket_checkVersion protocol version =
     (if version = 3
      then do { xs \<leftarrow> deref_block (lenstring_data protocol) (min 6 (lenstring_len protocol));
                Some (xs = take (min 6 (lenstring_len protocol)) bytes_MQIsdp) }
      else if version = 4
      then do { xs \<leftarrow> deref_block (lenstring_data protocol) (min 4 (lenstring_len protocol));
                Some (xs = take (min 4 (lenstring_len protocol)) bytes_MQTT) }
      else Some False)"

text \<open>The will fields, read when the flag is set; the first component is false on \<open>goto exit\<close>.\<close>

definition connect_read_will ::
  "MQTTPacket_connectData \<Rightarrow> u8 \<Rightarrow> bytes \<Rightarrow> nat \<Rightarrow> nat \<Rightarrow> (bool \<times> MQTTPacket_connectData \<times> nat) option" where
  "connect_read_will data flags buf curdata enddata =
     (if cf_bit 2 flags \<noteq> 0
      then do {
        let w = (will data)\<lparr>will_qos := cf_willQoS flags, will_retained := cf_bit 5 flags\<rparr>;
        (ok, t, curdata) \<leftarrow> readMQTTLenString buf curdata enddata (will_topicName w);
        let w = w\<lparr>will_topicName := t\<rparr>;
        if \<not> ok then Some (False, data\<lparr>will := w\<rparr>, curdata)
        else do {
          (ok, m, curdata) \<leftarrow> readMQTTLenString buf curdata enddata (will_message w);
          Some (ok, data\<lparr>will := w\<lparr>will_message := m\<rparr>\<rparr>, curdata)
        }
      }
      else Some (True, data, curdata))"

definition connect_read_credentials ::
  "MQTTPacket_connectData \<Rightarrow> u8 \<Rightarrow> bytes \<Rightarrow> nat \<Rightarrow> nat \<Rightarrow> (bool \<times> MQTTPacket_connectData) option" where
  "connect_read_credentials data flags buf curdata enddata =
     (if cf_bit 7 flags \<noteq> 0
      then
        if int enddata - int curdata < 3 then Some (False, data)
        else do {
          (ok, u, curdata) \<leftarrow> readMQTTLenString buf curdata enddata (username data);
          let data = data\<lparr>username := u\<rparr>;
          if \<not> ok then Some (False, data)
          else if cf_bit 6 flags \<noteq> 0
          then
            if int enddata - int curdata < 3 then Some (False, data)
            else do {
              (ok, p, curdata) \<leftarrow> readMQTTLenString buf curdata enddata (password data);
              Some (ok, data\<lparr>password := p\<rparr>)
            }
          else Some (True, data)
        }
      else Some (cf_bit 6 flags = 0, data))"

definition MQTTDeserialize_connect ::
  "bool \<Rightarrow> MQTTPacket_connectData \<Rightarrow> bytes \<Rightarrow> nat \<Rightarrow> (int \<times> MQTTPacket_connectData) option" where
  "MQTTDeserialize_connect sgnd data buf len =
     (let enddata = len in
      do {
        (h, curdata) \<leftarrow> readChar buf 0;
        if hdr_type h \<noteq> msg_code CONNECT then Some (0, data)
        else do {
          (k, mylen) \<leftarrow> MQTTPacket_decodeBuf buf curdata;
          let curdata = curdata + k;
          (ok, Protocol, curdata) \<leftarrow> readMQTTLenString buf curdata enddata MQTTString_initializer;
          if \<not> ok \<or> int enddata - int curdata < 0 then Some (0, data)
          else do {
            (version, curdata) \<leftarrow> readChar buf curdata;
            known \<leftarrow> MQTTPacket_checkVersion Protocol (char_val sgnd version);
            if \<not> known then Some (0, data)
            else do {
              (flags, curdata) \<leftarrow> readChar buf curdata;
              let data = data\<lparr>cleansession := cf_bit 1 flags\<rparr>;
              (ka, curdata) \<leftarrow> readInt buf curdata;
              let data = data\<lparr>keepAliveInterval := of_nat ka\<rparr>;
              (ok, cid, curdata) \<leftarrow> readMQTTLenString buf curdata enddata (clientID data);
              let data = data\<lparr>clientID := cid\<rparr>;
              if \<not> ok then Some (0, data)
              else do {
                let data = data\<lparr>willFlag := cf_bit 2 flags\<rparr>;
                (ok, data, curdata) \<leftarrow> connect_read_will data flags buf curdata enddata;
                if \<not> ok then Some (0, data)
                else do {
                  (ok, data) \<leftarrow> connect_read_credentials data flags buf curdata enddata;
                  Some (if ok then 1 else 0, data)
                }
              }
            }
          }
        }
      })"

definition MQTTSerialize_connack :: "bytes \<Rightarrow> nat \<Rightarrow> u8 \<Rightarrow> u8 \<Rightarrow> (int \<times> bytes) option" where
  "MQTTSerialize_connack buf buflen connack_rc sessionPresent =
     (if buflen < 2 then Some (BUFFER_TOO_SHORT, buf)
      else do {
        ptr \<leftarrow> writeChar (buf, 0) (mk_header (msg_code CONNACK) 0 0 0);
        ptr \<leftarrow> MQTTPacket_encode ptr 2;
        ptr \<leftarrow> writeChar ptr (take_bit 1 sessionPresent);
        (buf, n) \<leftarrow> writeChar ptr connack_rc;
        Some (int n, buf)
      })"

section \<open>Reference encodings\<close>

definition lp_str :: "bytes \<Rightarrow> bytes" where
  "lp_str xs = be16 (length xs) @ xs"

lemma length_lp_str [simp]: "length (lp_str xs) = 2 + length xs"
  by (simp add: lp_str_def)

record connect_strs =
  cs_client :: bytes
  cs_topic :: bytes
  cs_message :: bytes
  cs_user :: bytes
  cs_pass :: bytes

definition opts_ok :: "MQTTPacket_connectData \<Rightarrow> connect_strs \<Rightarrow> bool" where
  "opts_ok options ss \<longleftrightarrow>
     (MQTTVersion options = 3 \<or> MQTTVersion options = 4) \<and>
     mstr_ok (clientID options) (cs_client ss) \<and>
     (willFlag options \<noteq> 0 \<longrightarrow> mstr_ok (will_topicName (will options)) (cs_topic ss) \<and>
        mstr_ok (will_message (will options)) (cs_message ss)) \<and>
     (mstr_given (username options) \<longrightarrow> mstr_ok (username options) (cs_user ss)) \<and>
     (mstr_given (password options) \<longrightarrow> mstr_ok (password options) (cs_pass ss))"

definition strs_small :: "connect_strs \<Rightarrow> bool" where
  "strs_small ss \<longleftrightarrow> length (cs_client ss) < 65536 \<and> length (cs_topic ss) < 65536 \<and>
     length (cs_message ss) < 65536 \<and> length (cs_user ss) < 65536 \<and> length (cs_pass ss) < 65536"

definition connect_name :: "u8 \<Rightarrow> bytes" where
  "connect_name version = (if version = 4 then lp_str bytes_MQTT @ [4] else lp_str bytes_MQIsdp @ [3])"

definition connect_tail :: "MQTTPacket_connectData \<Rightarrow> connect_strs \<Rightarrow> bytes" where
  "connect_tail options ss =
     (if mstr_given (username options) then lp_str (cs_user ss) else []) @
     (if mstr_given (password options) then lp_str (cs_pass ss) else [])"

definition connect_will :: "MQTTPacket_connectData \<Rightarrow> connect_strs \<Rightarrow> bytes" where
  "connect_will options ss =
     (if willFlag options \<noteq> 0 then lp_str (cs_topic ss) @ lp_str (cs_message ss) else [])"

definition connect_body :: "MQTTPacket_connectData \<Rightarrow> connect_strs \<Rightarrow> bytes" where
  "connect_body options ss =
     connect_name (MQTTVersion options) @ [connect_flags options] @
     be16 (unat (keepAliveInterval options)) @ lp_str (cs_client ss) @
     connect_will options ss @ connect_tail options ss"

definition connect_packet :: "MQTTPacket_connectData \<Rightarrow> connect_strs \<Rightarrow> bytes" where
  "connect_packet options ss =
     mk_header (msg_code CONNECT) 0 0 0 # enc_len (length (connect_body options ss)) @ connect_body options ss"

definition zero_packet :: "msgTypes \<Rightarrow> bytes" where
  "zero_packet typ = mk_header (msg_code typ) 0 0 0 # enc_len 0"

definition connack_packet :: "u8 \<Rightarrow> u8 \<Rightarrow> bytes" where
  "connack_packet rc sp = mk_header (msg_code CONNACK) 0 0 0 # enc_len 2 @ [take_bit 1 sp, rc]"

lemma connectLength_eq: "opts_ok options ss \<Longrightarrow> MQTTSerialize_connectLength options = length (connect_body options ss)"
  by (auto simp: opts_ok_def MQTTSerialize_connectLength_def connect_body_def connect_name_def connect_will_def
      connect_tail_def bytes_MQTT_def bytes_MQIsdp_def MQTTstrlen_eq Let_def)

lemma writeMQTTString_lp: "mstr_ok s xs \<Longrightarrow> writeMQTTString p s = write_bytes p (lp_str xs)"
  by (simp add: writeMQTTString_eq lp_str_def)

lemma writeCString_lp: "writeCString p xs = write_bytes p (lp_str xs)"
  by (simp add: writeCString_eq lp_str_def)

lemma write_opt_bind [writer]:
  "Option.bind (write_bytes p xs) (\<lambda>q. Option.bind (if c then write_bytes q ys else Some q) g) =
     Option.bind (write_bytes p (xs @ (if c then ys else []))) g"
  by (simp add: writer)

lemma serialize_connect_eq:
  assumes "opts_ok options ss"
  shows "MQTTSerialize_connect buf buflen options =
    (if MQTTPacket_len (length (connect_body options ss)) > buflen then Some (BUFFER_TOO_SHORT, buf)
     else emit buf (connect_packet options ss))"
proof -
  have ite: "(if c then write_bytes p (xs :: bytes) else write_bytes p ys) = write_bytes p (if c then xs else ys)"
    for c p xs ys by simp
  have w: "writeMQTTString p (clientID options) = write_bytes p (lp_str (cs_client ss))"
    "willFlag options \<noteq> 0 \<Longrightarrow> writeMQTTString p (will_topicName (will options)) = write_bytes p (lp_str (cs_topic ss))"
    "willFlag options \<noteq> 0 \<Longrightarrow> writeMQTTString p (will_message (will options)) = write_bytes p (lp_str (cs_message ss))"
    "mstr_given (username options) \<Longrightarrow> writeMQTTString p (username options) = write_bytes p (lp_str (cs_user ss))"
    "mstr_given (password options) \<Longrightarrow> writeMQTTString p (password options) = write_bytes p (lp_str (cs_pass ss))" for p
    using assms by (simp_all add: opts_ok_def writeMQTTString_lp)
  show ?thesis
    by (simp add: MQTTSerialize_connect_def connectLength_eq [OF assms] writeCString_lp writeChar_eq writeInt_eq
        MQTTPacket_encode_eq w write_bytes_append write_bytes_bind write_opt_bind ite emit_def
        connect_packet_def connect_body_def connect_name_def connect_will_def connect_tail_def
        case_prod_unfold Let_def cong: if_cong)
qed

lemma serialize_zero_eq:
  "MQTTSerialize_zero buf buflen typ =
    (if buflen < 2 then Some (BUFFER_TOO_SHORT, buf) else emit buf (zero_packet typ))"
  by (simp add: MQTTSerialize_zero_def writer emit_bind zero_packet_def)

lemma length_zero_packet [simp]: "length (zero_packet typ) = 2"
  by (simp add: zero_packet_def length_enc_len_128)

lemma serialize_connack_eq:
  "MQTTSerialize_connack buf buflen rc sp =
    (if buflen < 2 then Some (BUFFER_TOO_SHORT, buf) else emit buf (connack_packet rc sp))"
  by (simp add: MQTTSerialize_connack_def writer emit_bind connack_packet_def)

lemma length_connack_packet [simp]: "length (connack_packet rc sp) = 4"
  by (simp add: connack_packet_def length_enc_len_128)

lemma length_connect_body_less:
  assumes "strs_small ss"
  shows "length (connect_body options ss) < 268435456"
  using assms
  by (auto simp: strs_small_def connect_body_def connect_name_def connect_will_def connect_tail_def
      bytes_MQTT_def bytes_MQIsdp_def)

lemma length_connect_packet_le:
  "strs_small ss \<Longrightarrow> length (connect_packet options ss) \<le> MQTTPacket_len (length (connect_body options ss))"
  using MQTTPacket_len_upper [OF length_connect_body_less] by (simp add: connect_packet_def)


text \<open>A CONNECT with a will and credentials, as the instance for the theorems on CONNECT.\<close>

definition sample_options :: MQTTPacket_connectData where
  "sample_options = MQTTPacket_connectData_initializer
     \<lparr>clientID := cstr [99], willFlag := 1, username := cstr [117], password := cstr [112],
      will := \<lparr>will_topicName = cstr [116], will_message = cstr [109], will_retained = 1, will_qos = 2\<rparr>\<rparr>"

definition sample_strs :: connect_strs where
  "sample_strs = \<lparr>cs_client = [99], cs_topic = [116], cs_message = [109], cs_user = [117], cs_pass = [112]\<rparr>"


section \<open>Decoding what was encoded\<close>

lemma readMQTTLenString_lp:
  assumes "seg buf i (lp_str xs)" "length xs < 65536"
  shows "\<exists>t. readMQTTLenString buf i (length buf) s = Some (True, t, i + (2 + length xs)) \<and> mstr_bytes t = Some xs"
proof -
  have "seg buf (i + 2) xs" "i + 2 + length xs \<le> length buf"
    using assms(1) by (simp_all add: lp_str_def seg_append) (simp add: seg_def)
  with readMQTTLenString_seg [OF assms(1) [unfolded lp_str_def] assms(2)] show ?thesis
    by (simp add: mstr_ok_lenstring [unfolded mstr_ok_def] add.assoc)
qed

lemma cf_connect_flags [simp]:
  "cf_bit (Suc 0) (connect_flags options) = take_bit 1 (cleansession options)"
  "cf_bit 2 (connect_flags options) = (if willFlag options \<noteq> 0 then 1 else 0)"
  "cf_bit 6 (connect_flags options) = (if mstr_given (password options) then 1 else 0)"
  "cf_bit 7 (connect_flags options) = (if mstr_given (username options) then 1 else 0)"
  by (simp_all add: connect_flags_def Let_def)

lemma read_will:
  assumes "seg buf i (connect_will options ss)" "strs_small ss" "will_qos (will options) < 4"
  shows "\<exists>w. connect_read_will data (connect_flags options) buf i (length buf) =
      Some (True, data\<lparr>will := w\<rparr>, i + length (connect_will options ss)) \<and>
    (willFlag options \<noteq> 0 \<longrightarrow> will_qos w = will_qos (will options) \<and>
       will_retained w = take_bit 1 (will_retained (will options)) \<and>
       mstr_bytes (will_topicName w) = Some (cs_topic ss) \<and> mstr_bytes (will_message w) = Some (cs_message ss))"
proof (cases "willFlag options = 0")
  case True
  then show ?thesis
    by (intro exI [of _ "will data"]) (simp add: connect_read_will_def connect_will_def)
next
  case False
  let ?w = "(will data)\<lparr>will_qos := will_qos (will options), will_retained := take_bit 1 (will_retained (will options))\<rparr>"
  from False have fl: "cf_willQoS (connect_flags options) = will_qos (will options)"
    "cf_bit 5 (connect_flags options) = take_bit 1 (will_retained (will options))"
    using assms(3) by (simp_all add: connect_flags_def Let_def)
  from False assms(1) have segs: "seg buf i (lp_str (cs_topic ss))"
    "seg buf (i + (2 + length (cs_topic ss))) (lp_str (cs_message ss))"
    by (simp_all add: connect_will_def seg_append)
  from assms(2) have small: "length (cs_topic ss) < 65536" "length (cs_message ss) < 65536"
    by (simp_all add: strs_small_def)
  obtain t where t: "readMQTTLenString buf i (length buf) (will_topicName ?w) =
      Some (True, t, i + (2 + length (cs_topic ss)))" "mstr_bytes t = Some (cs_topic ss)"
    using readMQTTLenString_lp [OF segs(1) small(1)] by blast
  obtain m where m: "readMQTTLenString buf (i + (2 + length (cs_topic ss))) (length buf) (will_message ?w) =
      Some (True, m, i + (2 + length (cs_topic ss)) + (2 + length (cs_message ss)))"
      "mstr_bytes m = Some (cs_message ss)"
    using readMQTTLenString_lp [OF segs(2) small(2)] by blast
  from False fl t m show ?thesis
    by (intro exI [of _ "?w\<lparr>will_topicName := t, will_message := m\<rparr>"])
      (simp add: connect_read_will_def connect_will_def add.assoc)
qed

lemma read_credentials:
  assumes "seg buf i (connect_tail options ss)" "length buf = i + length (connect_tail options ss)" "strs_small ss"
    and "mstr_given (password options) \<longrightarrow> mstr_given (username options) \<and> cs_pass ss \<noteq> []"
    and "mstr_given (username options) \<longrightarrow> cs_user ss \<noteq> [] \<or> mstr_given (password options)"
  shows "\<exists>u p. connect_read_credentials data (connect_flags options) buf i (length buf) =
      Some (True, data\<lparr>username := u, password := p\<rparr>) \<and>
    (mstr_given (username options) \<longrightarrow> mstr_bytes u = Some (cs_user ss)) \<and>
    (mstr_given (password options) \<longrightarrow> mstr_bytes p = Some (cs_pass ss))"
proof (cases "mstr_given (username options)")
  case False
  with assms(4) show ?thesis
    by (intro exI [of _ "username data"] exI [of _ "password data"]) (simp add: connect_read_credentials_def)
next
  case True
  then have su: "seg buf i (lp_str (cs_user ss))" using assms(1) by (simp add: connect_tail_def seg_append)
  from assms(3) have small: "length (cs_user ss) < 65536" "length (cs_pass ss) < 65536"
    by (simp_all add: strs_small_def)
  obtain u where u: "readMQTTLenString buf i (length buf) (username data) =
      Some (True, u, i + (2 + length (cs_user ss)))" "mstr_bytes u = Some (cs_user ss)"
    using readMQTTLenString_lp [OF su small(1)] by blast
  show ?thesis
  proof (cases "mstr_given (password options)")
    case False
    then have "cs_user ss \<noteq> []" using assms(5) True by simp
    then have "2 < length (connect_tail options ss)" using True False by (simp add: connect_tail_def)
    with u True False assms(2) show ?thesis
      by (intro exI [of _ u] exI [of _ "password data"]) (simp add: connect_read_credentials_def)
  next
    case pw: True
    have sp: "seg buf (i + (2 + length (cs_user ss))) (lp_str (cs_pass ss))"
      using assms(1) True pw by (simp add: connect_tail_def seg_append)
    obtain p where p: "readMQTTLenString buf (i + (2 + length (cs_user ss))) (length buf) (password data) =
        Some (True, p, i + (2 + length (cs_user ss)) + (2 + length (cs_pass ss)))"
        "mstr_bytes p = Some (cs_pass ss)"
      using readMQTTLenString_lp [OF sp small(2)] by blast
    have "cs_pass ss \<noteq> []" using assms(4) pw by simp
    then have "2 + length (cs_user ss) + 2 < length (connect_tail options ss)"
      using True pw by (simp add: connect_tail_def)
    with u p True pw assms(2) show ?thesis
      by (intro exI [of _ u] exI [of _ p]) (simp add: connect_read_credentials_def)
  qed
qed

lemma bytes_names: "length bytes_MQTT = 4" "length bytes_MQIsdp = 6"
  by (simp_all add: bytes_MQTT_def bytes_MQIsdp_def)

lemma read_name:
  assumes "seg buf i (connect_name v)" "v = 3 \<or> v = 4"
  shows "\<exists>P j. readMQTTLenString buf i (length buf) s = Some (True, P, j) \<and>
    readChar buf j = Some (v, Suc j) \<and> j < length buf \<and>
    MQTTPacket_checkVersion P (char_val sgnd v) = Some True \<and> Suc j = i + length (connect_name v)"
proof -
  define nm where "nm = (if v = 4 then bytes_MQTT else bytes_MQIsdp)"
  have cn: "connect_name v = lp_str nm @ [v]" using assms(2) by (auto simp: connect_name_def nm_def)
  have len: "length nm = (if v = 4 then 4 else 6)" by (simp add: nm_def bytes_names)
  from assms(1) cn have s1: "seg buf i (lp_str nm)" and s2: "seg buf (i + (2 + length nm)) [v]"
    by (simp_all add: seg_append)
  then have s3: "seg buf (i + 2) nm" and en: "i + 2 + length nm \<le> length buf"
    by (simp_all add: lp_str_def seg_append) (simp add: seg_def)
  let ?P = "s\<lparr>lenstring_len := length nm, lenstring_data := Some (buf, i + 2), cstring := None\<rparr>"
  have r: "readMQTTLenString buf i (length buf) s = Some (True, ?P, i + 2 + length nm)"
    using readMQTTLenString_seg [OF s1 [unfolded lp_str_def] _ en] len by simp
  have cv: "MQTTPacket_checkVersion ?P (char_val sgnd v) = Some True"
  proof (cases "v = 4")
    case True
    with rd_block_seg [OF s3] show ?thesis
      by (simp add: MQTTPacket_checkVersion_def deref_block_def nm_def bytes_names char_val_def)
  next
    case False
    with assms(2) have "v = 3" by simp
    with rd_block_seg [OF s3] show ?thesis
      by (simp add: MQTTPacket_checkVersion_def deref_block_def nm_def bytes_names char_val_def)
  qed
  have c: "readChar buf (i + 2 + length nm) = Some (v, Suc (i + 2 + length nm))"
    using readChar_seg [OF s2] by (simp add: add.assoc)
  have "i + 2 + length nm < length buf"
    using c by (auto simp: readChar_def bind_eq_Some_conv rd_def split: if_splits)
  moreover have "Suc (i + 2 + length nm) = i + length (connect_name v)" by (simp add: cn)
  ultimately show ?thesis using r c cv by blast
qed

lemma connect_fields:
  assumes "seg b 0 (h # e @ n @ f # k @ c @ w @ t)" "length k = 2"
  shows "seg b 0 [h]" "seg b 1 e" "seg b (1 + length e) n" "seg b (1 + length e + length n) [f]"
    "seg b (1 + length e + length n + 1) k" "seg b (1 + length e + length n + 3) c"
    "seg b (1 + length e + length n + 3 + length c) w"
    "seg b (1 + length e + length n + 3 + length c + length w) t"
proof -
  have "seg b 0 ([h] @ e @ n @ [f] @ k @ c @ w @ t)" using assms(1) by simp
  then have *: "seg b 0 [h] \<and> seg b 1 e \<and> seg b (1 + length e) n \<and> seg b (1 + length e + length n) [f] \<and>
    seg b (1 + length e + length n + 1) k \<and> seg b (1 + length e + length n + 1 + 2) c \<and>
    seg b (1 + length e + length n + 1 + 2 + length c) w \<and>
    seg b (1 + length e + length n + 1 + 2 + length c + length w) t"
    unfolding seg_append [of b] assms(2) by simp
  then show "seg b 0 [h]" "seg b 1 e" "seg b (1 + length e) n" "seg b (1 + length e + length n) [f]"
    "seg b (1 + length e + length n + 1) k" by blast+
  have n3: "x + 1 + 2 = x + 3" for x :: nat by simp
  from * show "seg b (1 + length e + length n + 3) c"
    "seg b (1 + length e + length n + 3 + length c) w"
    "seg b (1 + length e + length n + 3 + length c + length w) t"
    unfolding n3 by blast+
qed



lemma seg_connack_packet:
  "seg (connack_packet rc sp @ post) 0 [mk_header (msg_code CONNACK) 0 0 0]"
  "seg (connack_packet rc sp @ post) (Suc 0) (enc_len 2)"
  "seg (connack_packet rc sp @ post) 2 [take_bit 1 sp]"
  "seg (connack_packet rc sp @ post) 3 [rc]"
  using seg_self [of "connack_packet rc sp" post] length_enc_len_128 [of 2]
  by (auto simp: connack_packet_def seg_append seg_Cons numeral_2_eq_2 numeral_3_eq_3 Suc_le_eq dest: rd_less)

text \<open>Decoding a CONNACK packet gives back the session-present flag and the server's return code.\<close>

lemma decode_connack_packet:
  "MQTTDeserialize_connack out (connack_packet rc sp @ post) n =
     Some (1, \<lparr>co_sessionPresent = take_bit 1 sp, co_connack_rc = rc\<rparr>)"
proof -
  have "sp mod 2 mod 2 = sp mod 2"
    using take_bit_take_bit [of 1 1 sp] by (simp add: take_bit_eq_mod)
  moreover have "enc_len 2 = [2]" by (simp add: enc_len.simps)
  ultimately show ?thesis
    using readChar_seg [OF seg_connack_packet(1)] decodeBuf_enc [OF seg_connack_packet(2)]
      readChar_seg [OF seg_connack_packet(3)] readChar_seg [OF seg_connack_packet(4)]
    by (simp add: MQTTDeserialize_connack_def numeral_2_eq_2 numeral_3_eq_3)
qed

text \<open>A CONNACK whose remaining length is below
  two is reported as decoded (return value 1) with the caller's session flag and return code left as
  they were: a caller that initialised the code to zero reads it as an accepted connection.\<close>

theorem short_connack_accepted:
  assumes "length body < 2" "hdr_type h = msg_code CONNACK"
  shows "MQTTDeserialize_connack out (h # enc_len (length body) @ body @ post) n = Some (1, out)"
  using readChar_seg [OF seg_short_packet(1) [of body]] decodeBuf_short [of body] assms
  by (simp add: MQTTDeserialize_connack_def)

theorem short_connack_accepted_witness:
  "MQTTDeserialize_connack \<lparr>co_sessionPresent = 0, co_connack_rc = 0\<rparr> [0x20, 0] 2 =
     Some (1, \<lparr>co_sessionPresent = 0, co_connack_rc = 0\<rparr>)"
  by (rule trans [OF _ short_connack_accepted [of "[]" "0x20" _ "[]" 2]]) code_simp+

text \<open>\<open>MQTTSerialize_connack\<close> checks for
  two bytes and writes four: with a buffer of two or three bytes it writes outside it.\<close>

theorem connack_overruns_short_buffer:
  "MQTTSerialize_connack buf (length buf) rc sp = None \<longleftrightarrow> 2 \<le> length buf \<and> length buf < 4"
  by (auto simp: serialize_connack_eq emit_None)

text \<open>The protocol check compares only as
  many bytes as the received name has, so it accepts every prefix and every extension of the name
  that belongs to the version, the empty name included.\<close>

theorem checkVersion_accepts_prefixes:
  assumes "deref_block (lenstring_data s) (lenstring_len s) = Some xs"
  shows "MQTTPacket_checkVersion s v = Some
    (v = 3 \<and> take 6 xs = take (length xs) bytes_MQIsdp \<or> v = 4 \<and> take 4 xs = take (length xs) bytes_MQTT)"
proof -
  have len: "lenstring_len s = length xs"
    using assms by (auto simp: deref_block_def dest: rd_block_length split: option.splits if_splits)
  have part: "deref_block (lenstring_data s) (min k (length xs)) = Some (take k xs)" for k
  proof (cases "lenstring_data s")
    case None
    with assms len show ?thesis by (simp add: deref_block_def split: if_splits)
  next
    case (Some p)
    with assms have "rd_block (fst p) (snd p) (length xs) = Some xs"
      by (simp add: deref_block_def len case_prod_unfold)
    from rd_block_take [OF this, of "min k (length xs)"] Some show ?thesis
      by (simp add: deref_block_def case_prod_unfold min_def)
  qed
  have tk: "take (min k (length xs)) (ys :: bytes) = take (length xs) ys" if "length ys = k" for k ys
    using that by (cases "k \<le> length xs") (simp_all add: min_def)
  show ?thesis
    by (simp add: MQTTPacket_checkVersion_def len part tk bytes_names)
qed

theorem checkVersion_accepts_prefixes_witness:
  "MQTTPacket_checkVersion \<lparr>cstring = None, lenstring_len = 2, lenstring_data = Some ([77, 81], 0)\<rparr> 4 = Some True"
  by (rule trans [OF checkVersion_accepts_prefixes [of _ "[77, 81]"]]) code_simp+

end
