(* ===== verification/Packet_Subscribe.thy ===== *)
theory Packet_Subscribe
  imports Packet_Connect
begin

text \<open>
  SUBSCRIBE, SUBACK, UNSUBSCRIBE and UNSUBACK: \<^verbatim>\<open>mqtt/MQTTSubscribeClient.c\<close>,
  \<^verbatim>\<open>mqtt/MQTTSubscribeServer.c\<close>, \<^verbatim>\<open>mqtt/MQTTUnsubscribeClient.c\<close> and
  \<^verbatim>\<open>mqtt/MQTTUnsubscribeServer.c\<close>. The caller's arrays are lists whose length is the size of the C
  array; a store beyond it makes the result \<^const>\<open>None\<close>.
\<close>

section \<open>The client side\<close>

fun subscribe_len_loop :: "nat \<Rightarrow> MQTTString list \<Rightarrow> nat \<Rightarrow> nat \<Rightarrow> nat \<Rightarrow> nat option" where
  "subscribe_len_loop extra fs i 0 len = Some len"
| "subscribe_len_loop extra fs i (Suc k) len =
     do { s \<leftarrow> arr fs i; subscribe_len_loop extra fs (Suc i) k (len + (2 + MQTTstrlen s + extra)) }"

definition MQTTSerialize_subscribeLength :: "nat \<Rightarrow> MQTTString list \<Rightarrow> nat option" where
  "MQTTSerialize_subscribeLength count topicFilters = subscribe_len_loop 1 topicFilters 0 count 2"

definition MQTTSerialize_unsubscribeLength :: "nat \<Rightarrow> MQTTString list \<Rightarrow> nat option" where
  "MQTTSerialize_unsubscribeLength count topicFilters = subscribe_len_loop 0 topicFilters 0 count 2"

fun subscribe_write_loop :: "MQTTString list \<Rightarrow> int list \<Rightarrow> nat \<Rightarrow> nat \<Rightarrow> wcur \<Rightarrow> wcur option" where
  "subscribe_write_loop fs qs i 0 ptr = Some ptr"
| "subscribe_write_loop fs qs i (Suc k) ptr =
     do {
       s \<leftarrow> arr fs i;
       ptr \<leftarrow> writeMQTTString ptr s;
       q \<leftarrow> arr qs i;
       ptr \<leftarrow> writeChar ptr (of_int q);
       subscribe_write_loop fs qs (Suc i) k ptr
     }"

definition MQTTSerialize_subscribe ::
  "bytes \<Rightarrow> nat \<Rightarrow> u8 \<Rightarrow> u16 \<Rightarrow> nat \<Rightarrow> MQTTString list \<Rightarrow> int list \<Rightarrow> (int \<times> bytes) option" where
  "MQTTSerialize_subscribe buf buflen dup packetid count topicFilters requestedQoSs =
     do {
       rem_len \<leftarrow> MQTTSerialize_subscribeLength count topicFilters;
       if MQTTPacket_len rem_len > buflen then Some (BUFFER_TOO_SHORT, buf)
       else do {
         ptr \<leftarrow> writeChar (buf, 0) (mk_header (msg_code SUBSCRIBE) dup 1 0);
         ptr \<leftarrow> MQTTPacket_encode ptr rem_len;
         ptr \<leftarrow> writeInt ptr (unat packetid);
         (buf, n) \<leftarrow> subscribe_write_loop topicFilters requestedQoSs 0 count ptr;
         Some (int n, buf)
       }
     }"

fun unsubscribe_write_loop :: "MQTTString list \<Rightarrow> nat \<Rightarrow> nat \<Rightarrow> wcur \<Rightarrow> wcur option" where
  "unsubscribe_write_loop fs i 0 ptr = Some ptr"
| "unsubscribe_write_loop fs i (Suc k) ptr =
     do { s \<leftarrow> arr fs i; ptr \<leftarrow> writeMQTTString ptr s; unsubscribe_write_loop fs (Suc i) k ptr }"

definition MQTTSerialize_unsubscribe ::
  "bytes \<Rightarrow> nat \<Rightarrow> u8 \<Rightarrow> u16 \<Rightarrow> nat \<Rightarrow> MQTTString list \<Rightarrow> (int \<times> bytes) option" where
  "MQTTSerialize_unsubscribe buf buflen dup packetid count topicFilters =
     do {
       rem_len \<leftarrow> MQTTSerialize_unsubscribeLength count topicFilters;
       if MQTTPacket_len rem_len > buflen then Some (BUFFER_TOO_SHORT, buf)
       else do {
         ptr \<leftarrow> writeChar (buf, 0) (mk_header (msg_code UNSUBSCRIBE) dup 1 0);
         ptr \<leftarrow> MQTTPacket_encode ptr rem_len;
         ptr \<leftarrow> writeInt ptr (unat packetid);
         (buf, n) \<leftarrow> unsubscribe_write_loop topicFilters 0 count ptr;
         Some (int n, buf)
       }
     }"

record suback_out =
  sa_packetid :: u16
  sa_count :: nat
  sa_granted :: "int list"

text \<open>A return code is read through \<open>char\<close>, whose signedness is the parameter \<open>sgnd\<close>.\<close>

function suback_loop ::
  "bool \<Rightarrow> nat \<Rightarrow> suback_out \<Rightarrow> bytes \<Rightarrow> nat \<Rightarrow> nat \<Rightarrow> (int \<times> suback_out) option" where
  "suback_loop sgnd maxcount out buf curdata enddata =
     (if curdata < enddata
      then
        if sa_count out > maxcount then Some (-1, out)
        else do {
          c \<leftarrow> rd buf curdata;
          g \<leftarrow> arr_set (sa_granted out) (sa_count out) (char_val sgnd c);
          suback_loop sgnd maxcount (out\<lparr>sa_granted := g, sa_count := Suc (sa_count out)\<rparr>) buf
            (Suc curdata) enddata
        }
      else Some (1, out))"
  by pat_completeness auto
termination
  by (relation "measure (\<lambda>(_, _, _, _, curdata, enddata). enddata - curdata)") auto

declare suback_loop.simps [simp del]

definition MQTTDeserialize_suback ::
  "bool \<Rightarrow> nat \<Rightarrow> suback_out \<Rightarrow> bytes \<Rightarrow> nat \<Rightarrow> (int \<times> suback_out) option" where
  "MQTTDeserialize_suback sgnd maxcount out buf buflen =
     do {
       (h, curdata) \<leftarrow> readChar buf 0;
       if hdr_type h \<noteq> msg_code SUBACK then Some (0, out)
       else do {
         (rc, mylen) \<leftarrow> MQTTPacket_decodeBuf buf curdata;
         let curdata = curdata + rc;
         let enddata = curdata + mylen;
         if int enddata - int curdata < 2 then Some (int rc, out)
         else do {
           (pid, curdata) \<leftarrow> readInt buf curdata;
           suback_loop sgnd maxcount (out\<lparr>sa_packetid := of_nat pid, sa_count := 0\<rparr>) buf curdata enddata
         }
       }
     }"

definition MQTTDeserialize_unsuback :: "u16 \<Rightarrow> bytes \<Rightarrow> nat \<Rightarrow> (int \<times> u16) option" where
  "MQTTDeserialize_unsuback packetid buf buflen =
     do {
       (rc, out) \<leftarrow> MQTTDeserialize_ack \<lparr>ao_packettype = 0, ao_dup = 0, ao_packetid = packetid\<rparr> buf buflen;
       Some (if ao_packettype out = msg_code UNSUBACK then 1 else rc, ao_packetid out)
     }"

section \<open>The server side\<close>

record subscribe_out =
  so_dup :: u8
  so_packetid :: u16
  so_count :: nat
  so_filters :: "MQTTString list"
  so_qos :: "int list"

function subscribe_read_loop ::
  "bool \<Rightarrow> subscribe_out \<Rightarrow> nat \<Rightarrow> bytes \<Rightarrow> nat \<Rightarrow> nat \<Rightarrow> (int \<times> subscribe_out) option" where
  "subscribe_read_loop sgnd out rc buf curdata enddata =
     (if curdata < enddata
      then do {
        s \<leftarrow> arr (so_filters out) (so_count out);
        (ok, s, cur) \<leftarrow> readMQTTLenString buf curdata enddata s;
        fs \<leftarrow> arr_set (so_filters out) (so_count out) s;
        let out = out\<lparr>so_filters := fs\<rparr>;
        if \<not> ok then Some (int rc, out)
        else if cur \<ge> enddata then Some (int rc, out)
        else do {
          c \<leftarrow> rd buf cur;
          qs \<leftarrow> arr_set (so_qos out) (so_count out) (char_val sgnd c);
          subscribe_read_loop sgnd (out\<lparr>so_qos := qs, so_count := Suc (so_count out)\<rparr>) rc buf (Suc cur) enddata
        }
      }
      else Some (1, out))"
  by pat_completeness auto
termination
  by (relation "measure (\<lambda>(_, _, _, _, curdata, enddata). enddata - curdata)")
    (auto dest: readMQTTLenString_bounds)

declare subscribe_read_loop.simps [simp del]

definition MQTTDeserialize_subscribe ::
  "bool \<Rightarrow> nat \<Rightarrow> subscribe_out \<Rightarrow> bytes \<Rightarrow> nat \<Rightarrow> (int \<times> subscribe_out) option" where
  "MQTTDeserialize_subscribe sgnd maxcount out buf buflen =
     do {
       (h, curdata) \<leftarrow> readChar buf 0;
       if hdr_type h \<noteq> msg_code SUBSCRIBE then Some (-1, out)
       else do {
         let out = out\<lparr>so_dup := hdr_dup h\<rparr>;
         (rc, mylen) \<leftarrow> MQTTPacket_decodeBuf buf curdata;
         let curdata = curdata + rc;
         let enddata = curdata + mylen;
         (pid, curdata) \<leftarrow> readInt buf curdata;
         subscribe_read_loop sgnd (out\<lparr>so_packetid := of_nat pid, so_count := 0\<rparr>) rc buf curdata enddata
       }
     }"

fun suback_write_loop :: "int list \<Rightarrow> nat \<Rightarrow> nat \<Rightarrow> wcur \<Rightarrow> wcur option" where
  "suback_write_loop gs i 0 ptr = Some ptr"
| "suback_write_loop gs i (Suc k) ptr =
     do { g \<leftarrow> arr gs i; ptr \<leftarrow> writeChar ptr (of_int g); suback_write_loop gs (Suc i) k ptr }"

definition MQTTSerialize_suback :: "bytes \<Rightarrow> nat \<Rightarrow> u16 \<Rightarrow> nat \<Rightarrow> int list \<Rightarrow> (int \<times> bytes) option" where
  "MQTTSerialize_suback buf buflen packetid count grantedQoSs =
     (if buflen < 2 + count then Some (BUFFER_TOO_SHORT, buf)
      else do {
        ptr \<leftarrow> writeChar (buf, 0) (mk_header (msg_code SUBACK) 0 0 0);
        ptr \<leftarrow> MQTTPacket_encode ptr (2 + count);
        ptr \<leftarrow> writeInt ptr (unat packetid);
        (buf, n) \<leftarrow> suback_write_loop grantedQoSs 0 count ptr;
        Some (int n, buf)
      })"

record unsubscribe_out =
  uo_dup :: u8
  uo_packetid :: u16
  uo_count :: nat
  uo_filters :: "MQTTString list"

function unsubscribe_read_loop ::
  "unsubscribe_out \<Rightarrow> nat \<Rightarrow> bytes \<Rightarrow> nat \<Rightarrow> nat \<Rightarrow> (int \<times> unsubscribe_out) option" where
  "unsubscribe_read_loop out rc buf curdata enddata =
     (if curdata < enddata
      then do {
        s \<leftarrow> arr (uo_filters out) (uo_count out);
        (ok, s, cur) \<leftarrow> readMQTTLenString buf curdata enddata s;
        fs \<leftarrow> arr_set (uo_filters out) (uo_count out) s;
        let out = out\<lparr>uo_filters := fs\<rparr>;
        if \<not> ok then Some (int rc, out)
        else unsubscribe_read_loop (out\<lparr>uo_count := Suc (uo_count out)\<rparr>) rc buf cur enddata
      }
      else Some (1, out))"
  by pat_completeness auto
termination
  by (relation "measure (\<lambda>(_, _, _, curdata, enddata). enddata - curdata)")
    (auto dest: readMQTTLenString_bounds)

declare unsubscribe_read_loop.simps [simp del]

definition MQTTDeserialize_unsubscribe ::
  "nat \<Rightarrow> unsubscribe_out \<Rightarrow> bytes \<Rightarrow> nat \<Rightarrow> (int \<times> unsubscribe_out) option" where
  "MQTTDeserialize_unsubscribe maxcount out buf len =
     do {
       (h, curdata) \<leftarrow> readChar buf 0;
       if hdr_type h \<noteq> msg_code UNSUBSCRIBE then Some (0, out)
       else do {
         let out = out\<lparr>uo_dup := hdr_dup h\<rparr>;
         (rc, mylen) \<leftarrow> MQTTPacket_decodeBuf buf curdata;
         let curdata = curdata + rc;
         let enddata = curdata + mylen;
         (pid, curdata) \<leftarrow> readInt buf curdata;
         unsubscribe_read_loop (out\<lparr>uo_packetid := of_nat pid, uo_count := 0\<rparr>) rc buf curdata enddata
       }
     }"

definition MQTTSerialize_unsuback :: "bytes \<Rightarrow> nat \<Rightarrow> u16 \<Rightarrow> (int \<times> bytes) option" where
  "MQTTSerialize_unsuback buf buflen packetid =
     (if buflen < 2 then Some (BUFFER_TOO_SHORT, buf)
      else do {
        ptr \<leftarrow> writeChar (buf, 0) (mk_header (msg_code UNSUBACK) 0 0 0);
        ptr \<leftarrow> MQTTPacket_encode ptr 2;
        (buf, n) \<leftarrow> writeInt ptr (unat packetid);
        Some (int n, buf)
      })"

section \<open>Reference encodings\<close>

definition sub_entry :: "bytes \<Rightarrow> int \<Rightarrow> bytes" where
  "sub_entry t q = lp_str t @ [of_int q]"

definition subscribe_body :: "u16 \<Rightarrow> (bytes \<times> int) list \<Rightarrow> bytes" where
  "subscribe_body pid es = be16 (unat pid) @ concat (map (\<lambda>(t, q). sub_entry t q) es)"

definition subscribe_packet :: "u8 \<Rightarrow> u16 \<Rightarrow> (bytes \<times> int) list \<Rightarrow> bytes" where
  "subscribe_packet dup pid es =
     mk_header (msg_code SUBSCRIBE) dup 1 0 # enc_len (length (subscribe_body pid es)) @ subscribe_body pid es"

definition unsubscribe_body :: "u16 \<Rightarrow> bytes list \<Rightarrow> bytes" where
  "unsubscribe_body pid ts = be16 (unat pid) @ concat (map lp_str ts)"

definition unsubscribe_packet :: "u8 \<Rightarrow> u16 \<Rightarrow> bytes list \<Rightarrow> bytes" where
  "unsubscribe_packet dup pid ts =
     mk_header (msg_code UNSUBSCRIBE) dup 1 0 # enc_len (length (unsubscribe_body pid ts)) @ unsubscribe_body pid ts"

definition suback_packet :: "u16 \<Rightarrow> bytes \<Rightarrow> bytes" where
  "suback_packet pid cs =
     mk_header (msg_code SUBACK) 0 0 0 # enc_len (2 + length cs) @ be16 (unat pid) @ cs"

lemma subscribe_len_loop_eq:
  "list_all2 mstr_ok (take k (drop i fs)) ts \<Longrightarrow> i + k \<le> length fs \<Longrightarrow>
   subscribe_len_loop extra fs i k len = Some (len + sum_list (map (\<lambda>t. 2 + length t + extra) ts))"
proof (induction k arbitrary: i ts len)
  case (Suc k)
  then have "take (Suc k) (drop i fs) = fs ! i # take k (drop (Suc i) fs)"
    by (simp add: take_Suc_conv_app_nth Cons_nth_drop_Suc [symmetric])
  with Suc.prems obtain t ts' where "ts = t # ts'" "mstr_ok (fs ! i) t"
      "list_all2 mstr_ok (take k (drop (Suc i) fs)) ts'"
    by (auto simp: list_all2_Cons1)
  with Suc show ?case by (simp add: MQTTstrlen_eq)
qed simp

lemma filters_step:
  assumes "list_all2 mstr_ok (take (Suc k) (drop i fs)) ts" "i + Suc k \<le> length fs"
  obtains t ts' where "ts = t # ts'" "mstr_ok (fs ! i) t" "list_all2 mstr_ok (take k (drop (Suc i) fs)) ts'"
proof -
  have "take (Suc k) (drop i fs) = fs ! i # take k (drop (Suc i) fs)"
    using assms(2) by (simp add: take_Suc_conv_app_nth Cons_nth_drop_Suc [symmetric])
  with assms(1) that show thesis by (auto simp: list_all2_Cons1)
qed

lemma subscribe_write_loop_eq:
  "list_all2 mstr_ok (take k (drop i fs)) ts \<Longrightarrow> i + k \<le> length fs \<Longrightarrow> i + k \<le> length qs \<Longrightarrow>
   Option.bind (write_bytes p pre) (subscribe_write_loop fs qs i k) =
     write_bytes p (pre @ concat (map (\<lambda>(t, q). sub_entry t q) (zip ts (drop i qs))))"
proof (induction k arbitrary: i ts pre)
  case 0
  have "subscribe_write_loop fs qs i 0 = Some" by (rule ext) simp
  with 0 show ?case by simp
next
  case (Suc k)
  obtain t ts' where ts: "ts = t # ts'" "mstr_ok (fs ! i) t" "list_all2 mstr_ok (take k (drop (Suc i) fs)) ts'"
    using filters_step [OF Suc.prems(1,2)] by blast
  have q: "drop i qs = qs ! i # drop (Suc i) qs"
    using Suc.prems by (simp add: Cons_nth_drop_Suc [symmetric])
  have step: "subscribe_write_loop fs qs i (Suc k) =
      (\<lambda>ptr. Option.bind (write_bytes ptr (sub_entry t (qs ! i))) (subscribe_write_loop fs qs (Suc i) k))"
    using Suc.prems ts(2) by (intro ext) (simp add: writeMQTTString_lp writer sub_entry_def)
  show ?case
    using Suc.IH [OF ts(3), of "pre @ sub_entry t (qs ! i)"] Suc.prems
    by (simp only: step write_bytes_bind) (simp add: ts(1) q)
qed

lemma unsubscribe_write_loop_eq:
  "list_all2 mstr_ok (take k (drop i fs)) ts \<Longrightarrow> i + k \<le> length fs \<Longrightarrow>
   Option.bind (write_bytes p pre) (unsubscribe_write_loop fs i k) = write_bytes p (pre @ concat (map lp_str ts))"
proof (induction k arbitrary: i ts pre)
  case 0
  have "unsubscribe_write_loop fs i 0 = Some" by (rule ext) simp
  with 0 show ?case by simp
next
  case (Suc k)
  obtain t ts' where ts: "ts = t # ts'" "mstr_ok (fs ! i) t" "list_all2 mstr_ok (take k (drop (Suc i) fs)) ts'"
    using filters_step [OF Suc.prems(1,2)] by blast
  have step: "unsubscribe_write_loop fs i (Suc k) =
      (\<lambda>ptr. Option.bind (write_bytes ptr (lp_str t)) (unsubscribe_write_loop fs (Suc i) k))"
    using Suc.prems ts(2) by (intro ext) (simp add: writeMQTTString_lp)
  show ?case
    using Suc.IH [OF ts(3), of "pre @ lp_str t"] Suc.prems
    by (simp only: step write_bytes_bind) (simp add: ts(1))
qed

lemma suback_write_loop_eq:
  "i + k \<le> length gs \<Longrightarrow>
   Option.bind (write_bytes p pre) (suback_write_loop gs i k) =
     write_bytes p (pre @ map of_int (take k (drop i gs)))"
proof (induction k arbitrary: i pre)
  case 0
  have "suback_write_loop gs i 0 = Some" by (rule ext) simp
  then show ?case by simp
next
  case (Suc k)
  have step: "suback_write_loop gs i (Suc k) =
      (\<lambda>ptr. Option.bind (write_bytes ptr [of_int (gs ! i)]) (suback_write_loop gs (Suc i) k))"
    using Suc.prems by (intro ext) (simp add: writeChar_eq)
  have "take (Suc k) (drop i gs) = gs ! i # take k (drop (Suc i) gs)"
    using Suc.prems by (simp add: take_Suc_conv_app_nth Cons_nth_drop_Suc [symmetric])
  then show ?case
    using Suc.IH [of "Suc i" "pre @ [of_int (gs ! i)]"] Suc.prems
    by (simp only: step write_bytes_bind) simp
qed

lemma length_subscribe_body:
  "length ts = length qs \<Longrightarrow>
   length (subscribe_body pid (zip ts qs)) = 2 + sum_list (map (\<lambda>t. 2 + length t + 1) ts)"
  by (induction ts qs rule: list_induct2) (simp_all add: subscribe_body_def sub_entry_def)

lemma length_unsubscribe_body:
  "length (unsubscribe_body pid ts) = 2 + sum_list (map (\<lambda>t. 2 + length t + 0) ts)"
  by (induction ts) (simp_all add: unsubscribe_body_def)

lemma serialize_subscribe_eq:
  assumes "list_all2 mstr_ok fs ts" "length qs = length fs"
  shows "MQTTSerialize_subscribe buf buflen dup pid (length fs) fs qs =
    (if MQTTPacket_len (length (subscribe_body pid (zip ts qs))) > buflen then Some (BUFFER_TOO_SHORT, buf)
     else emit buf (subscribe_packet dup pid (zip ts qs)))"
proof -
  have len: "length ts = length qs" using list_all2_lengthD [OF assms(1)] assms(2) by simp
  have "MQTTSerialize_subscribeLength (length fs) fs = Some (length (subscribe_body pid (zip ts qs)))"
    unfolding MQTTSerialize_subscribeLength_def length_subscribe_body [OF len]
    using subscribe_len_loop_eq [of "length fs" 0 fs ts 1 2] assms(1) by simp
  moreover have "Option.bind (write_bytes p pre) (subscribe_write_loop fs qs 0 (length fs)) =
      write_bytes p (pre @ concat (map (\<lambda>(t, q). sub_entry t q) (zip ts qs)))" for p pre
    using subscribe_write_loop_eq [of "length fs" 0 fs ts qs p pre] assms by simp
  note loop = write_loop_bind [OF this]
  ultimately show ?thesis
    by (simp add: MQTTSerialize_subscribe_def writer loop emit_bind subscribe_packet_def subscribe_body_def)
qed

lemma serialize_unsubscribe_eq:
  assumes "list_all2 mstr_ok fs ts"
  shows "MQTTSerialize_unsubscribe buf buflen dup pid (length fs) fs =
    (if MQTTPacket_len (length (unsubscribe_body pid ts)) > buflen then Some (BUFFER_TOO_SHORT, buf)
     else emit buf (unsubscribe_packet dup pid ts))"
proof -
  have "MQTTSerialize_unsubscribeLength (length fs) fs = Some (length (unsubscribe_body pid ts))"
    unfolding MQTTSerialize_unsubscribeLength_def length_unsubscribe_body
    using subscribe_len_loop_eq [of "length fs" 0 fs ts 0 2] assms(1) by simp
  moreover have "Option.bind (write_bytes p pre) (unsubscribe_write_loop fs 0 (length fs)) =
      write_bytes p (pre @ concat (map lp_str ts))" for p pre
    using unsubscribe_write_loop_eq [of "length fs" 0 fs ts p pre] assms by simp
  note loop = write_loop_bind [OF this]
  ultimately show ?thesis
    by (simp add: MQTTSerialize_unsubscribe_def writer loop emit_bind unsubscribe_packet_def unsubscribe_body_def)
qed

lemma serialize_suback_eq:
  "MQTTSerialize_suback buf buflen pid (length gs) gs =
    (if buflen < 2 + length gs then Some (BUFFER_TOO_SHORT, buf)
     else emit buf (suback_packet pid (map of_int gs)))"
proof -
  have "Option.bind (write_bytes p pre) (suback_write_loop gs 0 (length gs)) =
      write_bytes p (pre @ map of_int gs)" for p pre
    using suback_write_loop_eq [of 0 "length gs" gs p pre] by simp
  note loop = write_loop_bind [OF this]
  show ?thesis
    by (simp add: MQTTSerialize_suback_def writer loop emit_bind suback_packet_def)
qed

lemma serialize_unsuback_eq:
  "MQTTSerialize_unsuback buf buflen pid =
    (if buflen < 2 then Some (BUFFER_TOO_SHORT, buf) else emit buf (ack_packet UNSUBACK 0 pid))"
  by (simp add: MQTTSerialize_unsuback_def writer emit_bind ack_packet_def)

section \<open>Decoding what was encoded\<close>

lemma upd_window: "i < length xs \<Longrightarrow> take (Suc i) (xs[i := x]) = take i xs @ [x]"
  by (simp add: take_Suc_conv_app_nth)

text \<open>An array after the loop stored the values \<open>ys\<close> from index \<open>i\<close> on.\<close>

definition arr_fill :: "'a list \<Rightarrow> nat \<Rightarrow> 'a list \<Rightarrow> 'a list" where
  "arr_fill xs i ys = take i xs @ ys @ drop (i + length ys) xs"

lemma arr_fill_Nil [simp]: "arr_fill xs i [] = xs"
  by (simp add: arr_fill_def)

lemma arr_fill_step: "i < length xs \<Longrightarrow> arr_fill (xs[i := y]) (Suc i) ys = arr_fill xs i (y # ys)"
  by (simp add: arr_fill_def upd_window)

lemma suback_loop_fill:
  "seg buf i cs \<Longrightarrow> sa_count out + length cs \<le> length (sa_granted out) \<Longrightarrow> sa_count out + length cs \<le> Suc maxcount \<Longrightarrow>
   suback_loop sgnd maxcount out buf i (i + length cs) =
     Some (1, out\<lparr>sa_granted := arr_fill (sa_granted out) (sa_count out) (map (char_val sgnd) cs),
                   sa_count := sa_count out + length cs\<rparr>)"
proof (induction cs arbitrary: i out)
  case Nil
  then show ?case by (subst suback_loop.simps) simp
next
  case (Cons c cs)
  let ?out = "out\<lparr>sa_granted := (sa_granted out)[sa_count out := char_val sgnd c], sa_count := Suc (sa_count out)\<rparr>"
  from Cons.prems(1) have r: "rd buf i = Some c" and s: "seg buf (Suc i) cs" by (simp_all add: seg_Cons)
  have "suback_loop sgnd maxcount out buf i (i + length (c # cs)) =
      suback_loop sgnd maxcount ?out buf (Suc i) (Suc i + length cs)"
    using Cons.prems(2,3) r by (subst suback_loop.simps) simp
  with Cons.IH [OF s, of ?out] Cons.prems(2,3) show ?case
    by (simp add: arr_fill_step)
qed

lemma suback_loop_full:
  "seg buf i cs \<Longrightarrow> maxcount = length (sa_granted out) \<Longrightarrow> sa_count out \<le> maxcount \<Longrightarrow>
   maxcount < sa_count out + length cs \<Longrightarrow>
   suback_loop sgnd maxcount out buf i (i + length cs) = None"
proof (induction cs arbitrary: i out)
  case Nil
  then show ?case by simp
next
  case (Cons c cs)
  from Cons.prems(1) have r: "rd buf i = Some c" and s: "seg buf (Suc i) cs" by (simp_all add: seg_Cons)
  show ?case
  proof (cases "sa_count out = length (sa_granted out)")
    case True
    with r Cons.prems show ?thesis by (subst suback_loop.simps) (simp add: arr_set_def)
  next
    case False
    let ?out = "out\<lparr>sa_granted := (sa_granted out)[sa_count out := char_val sgnd c], sa_count := Suc (sa_count out)\<rparr>"
    have "suback_loop sgnd maxcount out buf i (i + length (c # cs)) =
        suback_loop sgnd maxcount ?out buf (Suc i) (Suc i + length cs)"
      using Cons.prems(2,3) False r by (subst suback_loop.simps) simp
    with Cons.IH [OF s, of ?out] Cons.prems False show ?thesis by simp
  qed
qed

lemma seg_body_packet:
  assumes "n = length (be16 (unat pid) @ body)"
  shows "seg (h # enc_len n @ be16 (unat pid) @ body @ post) 0 [h]"
    and "seg (h # enc_len n @ be16 (unat pid) @ body @ post) 1 (enc_len n)"
    and "seg (h # enc_len n @ be16 (unat pid) @ body @ post) (1 + length (enc_len n)) (be16 (unat pid))"
    and "seg (h # enc_len n @ be16 (unat pid) @ body @ post) (1 + length (enc_len n) + 2) body"
proof -
  let ?b = "h # enc_len n @ be16 (unat pid) @ body @ post"
  have "seg ?b 0 ([h] @ enc_len n @ be16 (unat pid) @ body)"
    using seg_self [of "[h] @ enc_len n @ be16 (unat pid) @ body" post] by simp
  then have "seg ?b 0 [h] \<and> seg ?b 1 (enc_len n) \<and> seg ?b (1 + length (enc_len n)) (be16 (unat pid)) \<and>
    seg ?b (1 + length (enc_len n) + 2) body"
    unfolding seg_append [of ?b] by simp
  then show "seg ?b 0 [h]" "seg ?b 1 (enc_len n)" "seg ?b (1 + length (enc_len n)) (be16 (unat pid))"
    "seg ?b (1 + length (enc_len n) + 2) body" by blast+
qed

lemma readInt_pid: "seg buf i (be16 (unat (pid :: u16))) \<Longrightarrow> readInt buf i = Some (unat pid, i + 2)"
  using readInt_be16 unsigned_less [of pid, where ?'a = nat] by simp

text \<open>\<open>MQTTDeserialize_suback\<close> on a SUBACK packet is its loop over the return codes.\<close>

lemma decode_suback_packet:
  assumes "2 + length cs < 268435456"
  defines "i \<equiv> 1 + length (enc_len (2 + length cs)) + 2"
  shows "MQTTDeserialize_suback sgnd maxcount out (suback_packet pid cs @ post) n =
      suback_loop sgnd maxcount (out\<lparr>sa_packetid := pid, sa_count := 0\<rparr>) (suback_packet pid cs @ post) i (i + length cs)"
    and "seg (suback_packet pid cs @ post) i cs"
proof -
  let ?h = "mk_header (msg_code SUBACK) 0 0 0"
  have b: "suback_packet pid cs @ post = ?h # enc_len (2 + length cs) @ be16 (unat pid) @ cs @ post"
    by (simp add: suback_packet_def)
  note segs = seg_body_packet [of "2 + length cs" pid cs ?h post, simplified length_append length_be16, OF refl]
  show "seg (suback_packet pid cs @ post) i cs" unfolding b i_def by (rule segs(4))
  show "MQTTDeserialize_suback sgnd maxcount out (suback_packet pid cs @ post) n =
      suback_loop sgnd maxcount (out\<lparr>sa_packetid := pid, sa_count := 0\<rparr>) (suback_packet pid cs @ post) i (i + length cs)"
    using readChar_seg [OF segs(1)] decodeBuf_enc [OF segs(2) assms(1)] readInt_pid [OF segs(3)]
    unfolding b by (simp add: MQTTDeserialize_suback_def i_def)
qed

text \<open>\<^bold>\<open>Property C33 (suback_decode).\<close> With an array of \<open>maxcount\<close> entries,
  \<open>MQTTDeserialize_suback\<close> returns all return codes of a SUBACK packet that has at most
  \<open>maxcount\<close> of them, and writes beyond the array for every packet that has more.\<close>

theorem suback_decode:
  assumes "2 + length cs < 268435456"
  shows "MQTTDeserialize_suback sgnd (length g) \<lparr>sa_packetid = p0, sa_count = c0, sa_granted = g\<rparr>
      (suback_packet pid cs @ post) n =
    (if length cs \<le> length g
     then Some (1, \<lparr>sa_packetid = pid, sa_count = length cs,
                    sa_granted = map (char_val sgnd) cs @ drop (length cs) g\<rparr>)
     else None)"
proof -
  let ?o = "\<lparr>sa_packetid = pid, sa_count = 0, sa_granted = g\<rparr>"
  show ?thesis
    using suback_loop_fill [OF decode_suback_packet(2) [OF assms], of ?o "length g"]
      suback_loop_full [OF decode_suback_packet(2) [OF assms], of "length g" ?o]
    by (simp add: decode_suback_packet(1) [OF assms] arr_fill_def)
qed

theorem suback_decode_witness:
  "MQTTDeserialize_suback True 1 \<lparr>sa_packetid = 0, sa_count = 0, sa_granted = [0]\<rparr>
     (suback_packet 7 [1] @ []) 5 = Some (1, \<lparr>sa_packetid = 7, sa_count = 1, sa_granted = [1]\<rparr>) \<and>
   MQTTDeserialize_suback True 1 \<lparr>sa_packetid = 0, sa_count = 0, sa_granted = [0]\<rparr>
     (suback_packet 7 [1, 1] @ []) 6 = None"
  using suback_decode [of "[1]" True "[0]" 0 0 7 "[]" 5] suback_decode [of "[1, 1]" True "[0]" 0 0 7 "[]" 6]
  by (simp add: char_val_def)

text \<open>\<open>MQTTDeserialize_unsuback\<close> reports success
  for an acknowledgement of every type, not only for UNSUBACK.\<close>

theorem unsuback_type_unchecked:
  "MQTTDeserialize_unsuback p0 (ack_packet typ dup pid @ post) n = Some (1, pid)"
  unfolding MQTTDeserialize_unsuback_def
  by (simp add: decode_ack_packet)

lemma sub_entry_read:
  assumes "seg buf i (lp_str t)" "length t < 65536" "i + (2 + length t) \<le> enddata"
  shows "\<exists>s'. readMQTTLenString buf i enddata s = Some (True, s', i + (2 + length t)) \<and> mstr_bytes s' = Some t"
proof -
  from assms(1) have s: "seg buf i (be16 (length t) @ t)" "seg buf (i + 2) t"
    by (simp_all add: seg_append lp_str_def)
  show ?thesis
    using readMQTTLenString_seg [OF s(1) assms(2), of enddata s] assms(3) mstr_ok_lenstring [OF s(2)]
    by (simp add: add.assoc mstr_ok_def)
qed

lemma subscribe_read_fill:
  "seg buf i (concat (map (\<lambda>(t, q). sub_entry t q) es)) \<Longrightarrow>
   enddata = i + length (concat (map (\<lambda>(t, q). sub_entry t q) es)) \<Longrightarrow>
   list_all (\<lambda>e. length (fst e) < 65536) es \<Longrightarrow>
   so_count out + length es \<le> length (so_filters out) \<Longrightarrow> so_count out + length es \<le> length (so_qos out) \<Longrightarrow>
   \<exists>ss. map mstr_bytes ss = map (Some \<circ> fst) es \<and>
     subscribe_read_loop sgnd out rc buf i enddata =
       Some (1, out\<lparr>so_filters := arr_fill (so_filters out) (so_count out) ss,
                     so_qos := arr_fill (so_qos out) (so_count out) (map (char_val sgnd \<circ> of_int \<circ> snd) es),
                     so_count := so_count out + length es\<rparr>)"
proof (induction es arbitrary: i out)
  case Nil
  then show ?case by (subst subscribe_read_loop.simps) simp
next
  case (Cons e es)
  obtain t q where e: "e = (t, q)" by (cases e)
  let ?rest = "concat (map (\<lambda>(t, q). sub_entry t q) es)"
  let ?k = "so_count out"
  have "seg buf i (lp_str t @ [of_int q] @ ?rest)" using Cons.prems(1) e by (simp add: sub_entry_def)
  then have "seg buf i (lp_str t) \<and> seg buf (i + (2 + length t)) [of_int q] \<and>
      seg buf (i + (2 + length t) + 1) ?rest"
    unfolding seg_append [of buf] by simp
  then have segs: "seg buf i (lp_str t)" "seg buf (i + (2 + length t)) [of_int q]"
      "seg buf (Suc (i + (2 + length t))) ?rest"
    by simp_all
  have small: "length t < 65536" using Cons.prems(3) e by simp
  have en: "enddata = Suc (i + (2 + length t)) + length ?rest"
    using Cons.prems(2) e by (simp add: sub_entry_def)
  then have le: "i + (2 + length t) < enddata" by simp
  obtain s' where s': "readMQTTLenString buf i enddata (so_filters out ! ?k) = Some (True, s', i + (2 + length t))"
      "mstr_bytes s' = Some t"
    using sub_entry_read [OF segs(1) small] le by (meson less_imp_le)
  let ?out = "out\<lparr>so_filters := (so_filters out)[?k := s'],
                so_qos := (so_qos out)[?k := char_val sgnd (of_int q)], so_count := Suc ?k\<rparr>"
  have "rd buf (i + (2 + length t)) = Some (of_int q)" using segs(2) by (simp add: seg_Cons)
  then have "subscribe_read_loop sgnd out rc buf i enddata =
      subscribe_read_loop sgnd ?out rc buf (Suc (i + (2 + length t))) enddata"
    using Cons.prems(4,5) s'(1) le by (subst subscribe_read_loop.simps) simp
  moreover obtain ss where "map mstr_bytes ss = map (Some \<circ> fst) es"
    "subscribe_read_loop sgnd ?out rc buf (Suc (i + (2 + length t))) enddata =
       Some (1, ?out\<lparr>so_filters := arr_fill (so_filters ?out) (so_count ?out) ss,
                     so_qos := arr_fill (so_qos ?out) (so_count ?out) (map (char_val sgnd \<circ> of_int \<circ> snd) es),
                     so_count := so_count ?out + length es\<rparr>)"
    using Cons.IH [OF segs(3) en, of ?out] Cons.prems(3,4,5) by (auto simp: o_def)
  ultimately show ?case
    using Cons.prems(4,5) e s'(2) by (intro exI [of _ "s' # ss"]) (simp add: arr_fill_step o_def)
qed



text \<open>The SUBACK and UNSUBACK serializers
  check for two bytes too few: in the two buffer sizes below the packet's length they write outside
  the buffer.\<close>

theorem suback_overruns_short_buffer:
  assumes "length gs < 126"
  shows "(MQTTSerialize_suback buf (length buf) pid (length gs) gs = None \<longleftrightarrow>
      2 + length gs \<le> length buf \<and> length buf < 4 + length gs) \<and>
    (MQTTSerialize_unsuback buf (length buf) pid = None \<longleftrightarrow> 2 \<le> length buf \<and> length buf < 4)"
  using length_enc_len_128 [of "2 + length gs"] assms
  by (auto simp: serialize_suback_eq serialize_unsuback_eq emit_None suback_packet_def)

theorem suback_overruns_short_buffer_witness:
  "MQTTSerialize_suback [0, 0, 0, 0] 4 7 1 [1] = None"
  using suback_overruns_short_buffer [of "[1]" "[0, 0, 0, 0]" 7] by (simp add: numeral_eq_Suc)

end
