(* ===== verification/Mqtt_List.thy ===== *)
theory Mqtt_List
  imports Prelude
begin

text \<open>
  The intrusive circular doubly linked list of \<^verbatim>\<open>common/mqtt_list.c\<close> and
  \<^verbatim>\<open>common/mqtt_list.h\<close>, at the level of its pointers. A heap maps the address of a node to its two
  links; an address without a node is memory that must not be touched. \<open>dll h l xs\<close> says that the
  nodes \<open>xs\<close> hang, in order, on the list head \<open>l\<close>; every operation is shown to refine the operation
  on \<open>xs\<close>, so that the client modules may work with plain lists. The two loops the client uses
  (\<open>LIST_FOR_EACH\<close> and \<open>LIST_FOR_EACH_SAFE\<close> with a body that may unlink and free its node) are
  shown to be recursion over \<open>xs\<close>.
\<close>

type_synonym addr = nat

record mqtt_list_node =
  nd_next :: addr
  nd_prev :: addr

type_synonym list_heap = "addr \<Rightarrow> mqtt_list_node option"

section \<open>Operations\<close>

definition nxt :: "list_heap \<Rightarrow> addr \<Rightarrow> addr option" where
  "nxt h a = map_option nd_next (h a)"

definition prv :: "list_heap \<Rightarrow> addr \<Rightarrow> addr option" where
  "prv h a = map_option nd_prev (h a)"

definition set_nxt :: "list_heap \<Rightarrow> addr \<Rightarrow> addr \<Rightarrow> list_heap option" where
  "set_nxt h a v = map_option (\<lambda>n. h(a \<mapsto> n\<lparr>nd_next := v\<rparr>)) (h a)"

definition set_prv :: "list_heap \<Rightarrow> addr \<Rightarrow> addr \<Rightarrow> list_heap option" where
  "set_prv h a v = map_option (\<lambda>n. h(a \<mapsto> n\<lparr>nd_prev := v\<rparr>)) (h a)"

definition mqtt_list_add_between :: "list_heap \<Rightarrow> addr \<Rightarrow> addr \<Rightarrow> addr \<Rightarrow> list_heap option" where
  "mqtt_list_add_between h node prev nx =
     do {
       h \<leftarrow> set_prv h nx node;
       h \<leftarrow> set_nxt h node nx;
       h \<leftarrow> set_prv h node prev;
       set_nxt h prev node
     }"

definition mqtt_list_del_between :: "list_heap \<Rightarrow> addr \<Rightarrow> addr \<Rightarrow> list_heap option" where
  "mqtt_list_del_between h prev nx = do { h \<leftarrow> set_prv h nx prev; set_nxt h prev nx }"

definition mqtt_list_del_entry :: "list_heap \<Rightarrow> addr \<Rightarrow> list_heap option" where
  "mqtt_list_del_entry h entry =
     do { p \<leftarrow> prv h entry; n \<leftarrow> nxt h entry; mqtt_list_del_between h p n }"

definition mqtt_list_init :: "list_heap \<Rightarrow> addr \<Rightarrow> list_heap option" where
  "mqtt_list_init h l = do { h \<leftarrow> set_nxt h l l; set_prv h l l }"

definition mqtt_list_add :: "list_heap \<Rightarrow> addr \<Rightarrow> addr \<Rightarrow> list_heap option" where
  "mqtt_list_add h node l = do { n \<leftarrow> nxt h l; mqtt_list_add_between h node l n }"

definition mqtt_list_add_tail :: "list_heap \<Rightarrow> addr \<Rightarrow> addr \<Rightarrow> list_heap option" where
  "mqtt_list_add_tail h node l = do { p \<leftarrow> prv h l; mqtt_list_add_between h node p l }"

definition mqtt_list_del :: "list_heap \<Rightarrow> addr \<Rightarrow> list_heap option" where
  "mqtt_list_del h entry = do { p \<leftarrow> prv h entry; n \<leftarrow> nxt h entry; mqtt_list_del_between h p n }"

definition mqtt_list_del_init :: "list_heap \<Rightarrow> addr \<Rightarrow> list_heap option" where
  "mqtt_list_del_init h entry = do { h \<leftarrow> mqtt_list_del_entry h entry; mqtt_list_init h entry }"

definition mqtt_list_move :: "list_heap \<Rightarrow> addr \<Rightarrow> addr \<Rightarrow> list_heap option" where
  "mqtt_list_move h node l = do { h \<leftarrow> mqtt_list_del_entry h node; mqtt_list_add h node l }"

definition mqtt_list_move_tail :: "list_heap \<Rightarrow> addr \<Rightarrow> addr \<Rightarrow> list_heap option" where
  "mqtt_list_move_tail h node l = do { h \<leftarrow> mqtt_list_del_entry h node; mqtt_list_add_tail h node l }"

definition mqtt_list_is_empty :: "list_heap \<Rightarrow> addr \<Rightarrow> bool option" where
  "mqtt_list_is_empty h l = do { n \<leftarrow> nxt h l; Some (n = l) }"

definition list_first_or_null :: "list_heap \<Rightarrow> addr \<Rightarrow> addr option option" where
  "list_first_or_null h l =
     do { e \<leftarrow> mqtt_list_is_empty h l; if e then Some None else do { n \<leftarrow> nxt h l; Some (Some n) } }"

text \<open>
  The loops. On a heap that is not a list they need not end, so they are partial functions whose
  \<^const>\<open>None\<close> also covers not returning.
\<close>

partial_function (option) list_for_each ::
  "(addr \<Rightarrow> 's \<Rightarrow> 's option) \<Rightarrow> list_heap \<Rightarrow> addr \<Rightarrow> addr \<Rightarrow> 's \<Rightarrow> 's option" where
  "list_for_each body h l cur s =
     (if cur = l then Some s
      else do { s \<leftarrow> body cur s; n \<leftarrow> nxt h cur; list_for_each body h l n s })"

declare list_for_each.simps [code]

partial_function (option) list_for_each_safe ::
  "(addr \<Rightarrow> 's \<times> list_heap \<Rightarrow> ('s \<times> list_heap) option) \<Rightarrow> addr \<Rightarrow> addr \<Rightarrow> addr \<Rightarrow> 's \<times> list_heap \<Rightarrow>
   ('s \<times> list_heap) option" where
  "list_for_each_safe body l cur nx sh =
     (if cur = l then Some sh
      else do {
        sh \<leftarrow> body cur sh;
        n \<leftarrow> nxt (snd sh) nx;
        list_for_each_safe body l nx n sh
      })"

declare list_for_each_safe.simps [code]

definition LIST_FOR_EACH :: "(addr \<Rightarrow> 's \<Rightarrow> 's option) \<Rightarrow> list_heap \<Rightarrow> addr \<Rightarrow> 's \<Rightarrow> 's option" where
  "LIST_FOR_EACH body h l s = do { n \<leftarrow> nxt h l; list_for_each body h l n s }"

definition LIST_FOR_EACH_SAFE ::
  "(addr \<Rightarrow> 's \<times> list_heap \<Rightarrow> ('s \<times> list_heap) option) \<Rightarrow> addr \<Rightarrow> 's \<times> list_heap \<Rightarrow> ('s \<times> list_heap) option" where
  "LIST_FOR_EACH_SAFE body l sh =
     do { c \<leftarrow> nxt (snd sh) l; n \<leftarrow> nxt (snd sh) c; list_for_each_safe body l c n sh }"

section \<open>Lists in the heap\<close>

fun dseg :: "list_heap \<Rightarrow> addr \<Rightarrow> addr list \<Rightarrow> addr \<Rightarrow> bool" where
  "dseg h a [] b \<longleftrightarrow> nxt h a = Some b \<and> prv h b = Some a"
| "dseg h a (x # xs) b \<longleftrightarrow> nxt h a = Some x \<and> prv h x = Some a \<and> dseg h x xs b"

definition dll :: "list_heap \<Rightarrow> addr \<Rightarrow> addr list \<Rightarrow> bool" where
  "dll h l xs \<longleftrightarrow> distinct (l # xs) \<and> dseg h l xs l"

lemma dseg_append: "dseg h a (xs @ y # ys) b \<longleftrightarrow> dseg h a xs y \<and> dseg h y ys b"
  by (induction xs arbitrary: a) auto

lemma dseg_first: "dseg h a xs b \<Longrightarrow> nxt h a = Some (hd (xs @ [b]))"
  by (cases xs) auto

lemma dseg_last: "dseg h a xs b \<Longrightarrow> prv h b = Some (last (a # xs))"
  by (induction xs arbitrary: a) auto

lemma nxt_upd [simp]:
  "nxt (h(a \<mapsto> n)) b = (if a = b then Some (nd_next n) else nxt h b)"
  "prv (h(a \<mapsto> n)) b = (if a = b then Some (nd_prev n) else prv h b)"
  by (simp_all add: nxt_def prv_def)

text \<open>The links a segment consists of: the forward links of \<open>a # xs\<close> and the backward links of \<open>xs @ [b]\<close>.\<close>

lemma dseg_cong:
  "\<forall>c\<in>set (a # xs). nxt h' c = nxt h c \<Longrightarrow> \<forall>c\<in>set (xs @ [b]). prv h' c = prv h c \<Longrightarrow>
   dseg h' a xs b = dseg h a xs b"
  by (induction xs arbitrary: a) auto

lemma dseg_alloc: "dseg h a xs b \<Longrightarrow> c \<in> set (a # xs @ [b]) \<Longrightarrow> h c \<noteq> None"
  by (induction xs arbitrary: a) (auto simp: nxt_def prv_def)

lemma set_nxt_eq: "h a \<noteq> None \<Longrightarrow> \<exists>h'. set_nxt h a v = Some h' \<and>
    (\<forall>b. nxt h' b = (if b = a then Some v else nxt h b)) \<and> (\<forall>b. prv h' b = prv h b) \<and>
    (\<forall>b. b \<noteq> a \<longrightarrow> h' b = h b) \<and> dom h' = dom h"
  by (auto simp: set_nxt_def nxt_def prv_def)

lemma set_prv_eq: "h a \<noteq> None \<Longrightarrow> \<exists>h'. set_prv h a v = Some h' \<and>
    (\<forall>b. prv h' b = (if b = a then Some v else prv h b)) \<and> (\<forall>b. nxt h' b = nxt h b) \<and>
    (\<forall>b. b \<noteq> a \<longrightarrow> h' b = h b) \<and> dom h' = dom h"
  by (auto simp: set_prv_def nxt_def prv_def)

lemma add_between_eq:
  assumes "h node \<noteq> None" "h p \<noteq> None" "h n \<noteq> None"
  shows "\<exists>h'. mqtt_list_add_between h node p n = Some h' \<and>
    (\<forall>b. nxt h' b = (if b = p then Some node else if b = node then Some n else nxt h b)) \<and>
    (\<forall>b. prv h' b = (if b = node then Some p else if b = n then Some node else prv h b)) \<and>
    (\<forall>b. b \<notin> {node, p, n} \<longrightarrow> h' b = h b) \<and> dom h' = dom h"
proof -
  from set_prv_eq [of h n node, OF assms(3)] obtain h1 where h1: "set_prv h n node = Some h1"
    "\<forall>b. prv h1 b = (if b = n then Some node else prv h b)" "\<forall>b. nxt h1 b = nxt h b"
    "\<forall>b. b \<noteq> n \<longrightarrow> h1 b = h b" "dom h1 = dom h" by blast
  from h1(5) assms have "h1 node \<noteq> None" by blast
  from set_nxt_eq [of h1 node n, OF this] obtain h2 where h2: "set_nxt h1 node n = Some h2"
    "\<forall>b. nxt h2 b = (if b = node then Some n else nxt h1 b)" "\<forall>b. prv h2 b = prv h1 b"
    "\<forall>b. b \<noteq> node \<longrightarrow> h2 b = h1 b" "dom h2 = dom h1" by blast
  from h1(5) h2(5) assms have "h2 node \<noteq> None" by blast
  from set_prv_eq [of h2 node p, OF this] obtain h3 where h3: "set_prv h2 node p = Some h3"
    "\<forall>b. prv h3 b = (if b = node then Some p else prv h2 b)" "\<forall>b. nxt h3 b = nxt h2 b"
    "\<forall>b. b \<noteq> node \<longrightarrow> h3 b = h2 b" "dom h3 = dom h2" by blast
  from h1(5) h2(5) h3(5) assms have "h3 p \<noteq> None" by blast
  from set_nxt_eq [of h3 p node, OF this] obtain h4 where h4: "set_nxt h3 p node = Some h4"
    "\<forall>b. nxt h4 b = (if b = p then Some node else nxt h3 b)" "\<forall>b. prv h4 b = prv h3 b"
    "\<forall>b. b \<noteq> p \<longrightarrow> h4 b = h3 b" "dom h4 = dom h3" by blast
  show ?thesis
    using h1 h2 h3 h4 by (simp add: mqtt_list_add_between_def)
qed

lemma del_between_eq:
  assumes "h p \<noteq> None" "h n \<noteq> None"
  shows "\<exists>h'. mqtt_list_del_between h p n = Some h' \<and>
    (\<forall>b. nxt h' b = (if b = p then Some n else nxt h b)) \<and>
    (\<forall>b. prv h' b = (if b = n then Some p else prv h b)) \<and>
    (\<forall>b. b \<notin> {p, n} \<longrightarrow> h' b = h b) \<and> dom h' = dom h"
proof -
  from set_prv_eq [of h n p, OF assms(2)] obtain h1 where h1: "set_prv h n p = Some h1"
    "\<forall>b. prv h1 b = (if b = n then Some p else prv h b)" "\<forall>b. nxt h1 b = nxt h b"
    "\<forall>b. b \<noteq> n \<longrightarrow> h1 b = h b" "dom h1 = dom h" by blast
  from h1(5) assms have "h1 p \<noteq> None" by blast
  from set_nxt_eq [of h1 p n, OF this] obtain h2 where h2: "set_nxt h1 p n = Some h2"
    "\<forall>b. nxt h2 b = (if b = p then Some n else nxt h1 b)" "\<forall>b. prv h2 b = prv h1 b"
    "\<forall>b. b \<noteq> p \<longrightarrow> h2 b = h1 b" "dom h2 = dom h1" by blast
  show ?thesis using h1 h2 by (simp add: mqtt_list_del_between_def)
qed

text \<open>Linking \<open>n\<close> between the two neighbours inside a list, and unlinking it.\<close>

lemma dll_split:
  "dll h l (xs @ ys) \<Longrightarrow>
     (ys = [] \<longrightarrow> nxt h (last (l # xs)) = Some l \<and> prv h l = Some (last (l # xs)))"
  unfolding dll_def using dseg_last by (cases xs rule: rev_cases) (auto simp: dseg_append)

lemma dll_alloc: "dll h l xs \<Longrightarrow> a \<in> set (l # xs) \<Longrightarrow> h a \<noteq> None"
  unfolding dll_def using dseg_alloc by fastforce

lemma dll_init:
  assumes "h l \<noteq> None"
  shows "\<exists>h'. mqtt_list_init h l = Some h' \<and> dll h' l [] \<and> (\<forall>a. a \<noteq> l \<longrightarrow> h' a = h a)"
proof -
  from assms obtain n where "h l = Some n" by blast
  then show ?thesis
    by (simp add: mqtt_list_init_def set_nxt_def set_prv_def dll_def)
qed

lemma dll_add_tail:
  assumes "dll h l xs" "h n \<noteq> None" "n \<notin> set (l # xs)"
  shows "\<exists>h'. mqtt_list_add_tail h n l = Some h' \<and> dll h' l (xs @ [n]) \<and> (\<forall>a. a \<notin> set (n # l # xs) \<longrightarrow> h' a = h a)"
proof -
  let ?p = "last (l # xs)"
  have p: "prv h l = Some ?p" using assms(1) dseg_last unfolding dll_def by blast
  have al: "h ?p \<noteq> None" "h l \<noteq> None"
    using dll_alloc [OF assms(1), of ?p] dll_alloc [OF assms(1), of l] last_in_set [of "l # xs"] by auto
  from add_between_eq [OF assms(2) al] obtain h' where h': "mqtt_list_add_between h n ?p l = Some h'"
    "\<forall>b. nxt h' b = (if b = ?p then Some n else if b = n then Some l else nxt h b)"
    "\<forall>b. prv h' b = (if b = n then Some ?p else if b = l then Some n else prv h b)"
    "\<forall>b. b \<notin> {n, ?p, l} \<longrightarrow> h' b = h b" by blast
  have "dseg h' l (xs @ [n]) l"
  proof (cases xs rule: rev_cases)
    case Nil
    with h' assms(3) show ?thesis by auto
  next
    case (snoc zs z)
    with assms(1) have d: "dseg h l zs z" "distinct (l # zs @ [z])"
      by (auto simp: dll_def dseg_append)
    have "dseg h' l zs z = dseg h l zs z"
      using snoc h' assms(3) d(2) by (intro dseg_cong) auto
    moreover have "dseg h' z [n] l" using h' snoc assms(3) d(2) by auto
    ultimately show ?thesis using d(1) snoc by (simp add: dseg_append)
  qed
  moreover have "\<forall>a. a \<notin> set (n # l # xs) \<longrightarrow> h' a = h a"
    using h'(4) last_in_set [of "l # xs"] by auto
  ultimately show ?thesis
    using h'(1) p assms(1,3) by (auto simp: mqtt_list_add_tail_def dll_def)
qed

lemma dll_add:
  assumes "dll h l xs" "h n \<noteq> None" "n \<notin> set (l # xs)"
  shows "\<exists>h'. mqtt_list_add h n l = Some h' \<and> dll h' l (n # xs) \<and> (\<forall>a. a \<notin> set (n # l # xs) \<longrightarrow> h' a = h a)"
proof -
  let ?q = "hd (xs @ [l])"
  have q: "nxt h l = Some ?q" using assms(1) dseg_first unfolding dll_def by blast
  have qin: "?q \<in> set (l # xs)" by (cases xs) auto
  have al: "h l \<noteq> None" "h ?q \<noteq> None" using dll_alloc [OF assms(1)] qin by auto
  from add_between_eq [OF assms(2) al] obtain h' where h': "mqtt_list_add_between h n l ?q = Some h'"
    "\<forall>b. nxt h' b = (if b = l then Some n else if b = n then Some ?q else nxt h b)"
    "\<forall>b. prv h' b = (if b = n then Some l else if b = ?q then Some n else prv h b)"
    "\<forall>b. b \<notin> {n, l, ?q} \<longrightarrow> h' b = h b" by blast
  have "dseg h' n xs l"
  proof (cases xs)
    case Nil
    with h' assms(3) show ?thesis by auto
  next
    case (Cons z zs)
    with assms(1) have d: "dseg h z zs l" "distinct (l # z # zs)" by (auto simp: dll_def)
    have "dseg h' z zs l = dseg h z zs l"
      using Cons h' assms(3) d(2) by (intro dseg_cong) auto
    with d h' Cons assms(3) show ?thesis by auto
  qed
  moreover have "nxt h' l = Some n" "prv h' n = Some l" using h' by auto
  moreover have "\<forall>a. a \<notin> set (n # l # xs) \<longrightarrow> h' a = h a" using h'(4) qin by auto
  ultimately show ?thesis
    using h'(1) q assms(1,3) by (auto simp: mqtt_list_add_def dll_def)
qed

lemma dll_del:
  assumes "dll h l (xs @ n # ys)"
  shows "\<exists>h'. mqtt_list_del h n = Some h' \<and> dll h' l (xs @ ys) \<and>
    h' n = h n \<and> (\<forall>a. a \<notin> set (l # xs @ ys) \<longrightarrow> h' a = h a)"
proof -
  let ?p = "last (l # xs)" and ?q = "hd (ys @ [l])"
  from assms have d: "dseg h l xs n" "dseg h n ys l" "distinct (l # xs @ n # ys)"
    by (auto simp: dll_def dseg_append)
  have p: "prv h n = Some ?p" and q: "nxt h n = Some ?q"
    using dseg_last [OF d(1)] dseg_first [OF d(2)] by auto
  have pin: "?p \<in> set (l # xs)" using last_in_set [of "l # xs"] by simp
  have qin: "?q \<in> set (l # ys)" by (cases ys) auto
  have "h ?p \<noteq> None" using dll_alloc [OF assms, of ?p] pin by auto
  moreover have "h ?q \<noteq> None" using dll_alloc [OF assms, of ?q] qin by auto
  ultimately obtain h' where h': "mqtt_list_del_between h ?p ?q = Some h'"
    "\<forall>b. nxt h' b = (if b = ?p then Some ?q else nxt h b)"
    "\<forall>b. prv h' b = (if b = ?q then Some ?p else prv h b)"
    "\<forall>b. b \<notin> {?p, ?q} \<longrightarrow> h' b = h b"
    using del_between_eq by blast
  have left: "dseg h' l xs ?q"
  proof (cases xs rule: rev_cases)
    case Nil
    with h' show ?thesis by auto
  next
    case (snoc zs z)
    with d have dz: "dseg h l zs z" "distinct (l # zs @ [z] @ n # ys)" by (auto simp: dseg_append)
    have "dseg h' l zs z = dseg h l zs z"
      using snoc h' dz(2) qin by (intro dseg_cong) (auto split: if_splits)
    then show ?thesis using dz(1) h' snoc by (simp add: dseg_append)
  qed
  have "dseg h' l (xs @ ys) l"
  proof (cases ys)
    case Nil
    with left show ?thesis by simp
  next
    case (Cons z zs)
    with d have dz: "dseg h z zs l" "distinct (l # xs @ n # z # zs)" by auto
    have "set (l # xs) \<inter> set (z # zs) = {}" "z \<notin> set (zs @ [l])" using dz(2) by auto
    with pin have np: "?p \<notin> set (z # zs)" and nq: "?q \<notin> set (zs @ [l])"
      unfolding Cons by (blast, simp)
    have "dseg h' z zs l = dseg h z zs l"
      by (rule dseg_cong) (use np nq in \<open>auto simp only: h'(2,3) split: if_split\<close>)
    with left dz(1) Cons show ?thesis by (simp add: dseg_append)
  qed
  moreover have "n \<noteq> ?p" "n \<noteq> ?q" using d(3) pin qin by auto
  moreover have "h' a = h a" if "a \<notin> set (l # xs @ ys)" for a
  proof -
    from that have "a \<notin> set (l # xs)" "a \<notin> set (l # ys)" by simp_all
    with pin qin have "a \<notin> {?p, ?q}" by blast
    with h'(4) show ?thesis by blast
  qed
  moreover have "mqtt_list_del h n = Some h'"
    by (simp only: mqtt_list_del_def p q bind.bind_lunit h'(1))
  moreover have "distinct (l # xs @ ys)" using d(3) by auto
  ultimately show ?thesis
    using h'(4) unfolding dll_def by blast
qed

section \<open>The list contract\<close>

text \<open>
  What the client relies on: a relation between memory and lists, and the three operations it
  calls. Everything the client does with its lists follows from these laws.
\<close>

locale intrusive_list =
  fixes rep :: "'h \<Rightarrow> addr \<Rightarrow> addr list \<Rightarrow> bool"
    and free_node :: "'h \<Rightarrow> addr \<Rightarrow> bool"
    and add_tail :: "'h \<Rightarrow> addr \<Rightarrow> addr \<Rightarrow> 'h option"
    and del :: "'h \<Rightarrow> addr \<Rightarrow> 'h option"
    and is_empty :: "'h \<Rightarrow> addr \<Rightarrow> bool option"
  assumes rep_distinct: "rep h l xs \<Longrightarrow> distinct (l # xs)"
    and rep_add_tail: "rep h l xs \<Longrightarrow> free_node h n \<Longrightarrow> n \<notin> set (l # xs) \<Longrightarrow>
      \<exists>h'. add_tail h n l = Some h' \<and> rep h' l (xs @ [n]) \<and>
        (\<forall>m. m \<notin> set (n # l # xs) \<longrightarrow> free_node h m \<longrightarrow> free_node h' m)"
    and rep_del: "rep h l (xs @ n # ys) \<Longrightarrow>
      \<exists>h'. del h n = Some h' \<and> rep h' l (xs @ ys) \<and> free_node h' n"
    and rep_is_empty: "rep h l xs \<Longrightarrow> is_empty h l = Some (xs = [])"
begin

text \<open>Appending several fresh nodes one by one, as the client does over its lifetime.\<close>

fun add_all :: "'h \<Rightarrow> addr list \<Rightarrow> addr \<Rightarrow> 'h option" where
  "add_all h [] l = Some h"
| "add_all h (n # ns) l = Option.bind (add_tail h n l) (\<lambda>h. add_all h ns l)"

lemma add_all_rep:
  "rep h l xs \<Longrightarrow> distinct ns \<Longrightarrow> \<forall>n\<in>set ns. free_node h n \<and> n \<notin> set (l # xs) \<Longrightarrow>
   \<exists>h'. add_all h ns l = Some h' \<and> rep h' l (xs @ ns)"
proof (induction ns arbitrary: h xs)
  case (Cons n ns)
  then obtain h1 where h1: "add_tail h n l = Some h1" "rep h1 l (xs @ [n])"
    "\<forall>m. m \<notin> set (n # l # xs) \<longrightarrow> free_node h m \<longrightarrow> free_node h1 m"
    using rep_add_tail [of h l xs n] by auto
  have "\<exists>h'. add_all h1 ns l = Some h' \<and> rep h' l ((xs @ [n]) @ ns)"
    using Cons.prems h1(2,3) by (intro Cons.IH) auto
  with h1(1) show ?case by simp
qed simp

lemma del_remove1: "rep h l xs \<Longrightarrow> n \<in> set xs \<Longrightarrow> \<exists>h'. del h n = Some h' \<and> rep h' l (remove1 n xs)"
proof -
  assume r: "rep h l xs" and "n \<in> set xs"
  then obtain ys zs where xs: "xs = ys @ n # zs" "n \<notin> set ys" by (meson split_list_first)
  with rep_del [of h l ys n zs] r show ?thesis by (auto simp: remove1_append)
qed

text \<open>A node that was removed can be appended again; it comes last.\<close>

lemma del_add_tail:
  assumes "rep h l xs" "n \<in> set xs"
  shows "\<exists>h1 h2. del h n = Some h1 \<and> add_tail h1 n l = Some h2 \<and> rep h2 l (remove1 n xs @ [n])"
proof -
  from assms(2) obtain ys zs where xs: "xs = ys @ n # zs" "n \<notin> set ys" by (meson split_list_first)
  with assms(1) rep_del [of h l ys n zs] obtain h1 where h1: "del h n = Some h1" "rep h1 l (ys @ zs)" "free_node h1 n"
    by auto
  have "n \<notin> set (l # ys @ zs)" using rep_distinct [OF assms(1)] xs by auto
  from rep_add_tail [OF h1(2,3) this] obtain h2 where "add_tail h1 n l = Some h2" "rep h2 l ((ys @ zs) @ [n])"
    by auto
  with h1(1) xs show ?thesis by (auto simp: remove1_append)
qed

end

lemma dll_is_empty: "dll h l xs \<Longrightarrow> mqtt_list_is_empty h l = Some (xs = [])"
  by (cases xs) (auto simp: mqtt_list_is_empty_def dll_def)

interpretation dl: intrusive_list dll "\<lambda>h n. h n \<noteq> None" mqtt_list_add_tail mqtt_list_del mqtt_list_is_empty
proof unfold_locales
  show "distinct (l # xs)" if "dll h l xs" for h l xs using that by (simp add: dll_def)
  show "\<exists>h'. mqtt_list_add_tail h n l = Some h' \<and> dll h' l (xs @ [n]) \<and>
      (\<forall>m. m \<notin> set (n # l # xs) \<longrightarrow> h m \<noteq> None \<longrightarrow> h' m \<noteq> None)"
    if "dll h l xs" "h n \<noteq> None" "n \<notin> set (l # xs)" for h l xs n
    using dll_add_tail [OF that] by metis
  show "\<exists>h'. mqtt_list_del h n = Some h' \<and> dll h' l (xs @ ys) \<and> h' n \<noteq> None"
    if "dll h l (xs @ n # ys)" for h l xs n ys
    using dll_del [OF that] dll_alloc [OF that, of n] by auto
  show "mqtt_list_is_empty h l = Some (xs = [])" if "dll h l xs" for h l xs
    using that by (rule dll_is_empty)
qed

text \<open>\<^bold>\<open>Property C29 (list_ops_refine).\<close> The pointer operations implement the list
  operations: \<open>mqtt_list_add_tail\<close> appends a node that is not in the list, \<open>mqtt_list_add\<close> puts it
  first, \<open>mqtt_list_del\<close> removes a node of the list, \<open>mqtt_list_move_tail\<close> makes it last and
  \<open>mqtt_list_is_empty\<close> tells whether the list has nodes; none of them touches memory outside it.\<close>

theorem list_ops_refine:
  assumes "dll h l xs"
  shows "mqtt_list_is_empty h l = Some (xs = []) \<and>
    (h n \<noteq> None \<and> n \<notin> set (l # xs) \<longrightarrow>
       (\<exists>h'. mqtt_list_add_tail h n l = Some h' \<and> dll h' l (xs @ [n])) \<and>
       (\<exists>h'. mqtt_list_add h n l = Some h' \<and> dll h' l (n # xs))) \<and>
    (n \<in> set xs \<longrightarrow>
       (\<exists>h'. mqtt_list_del h n = Some h' \<and> dll h' l (remove1 n xs)) \<and>
       (\<exists>h'. mqtt_list_move_tail h n l = Some h' \<and> dll h' l (remove1 n xs @ [n])))"
proof (intro conjI impI)
  show "mqtt_list_is_empty h l = Some (xs = [])" by (rule dl.rep_is_empty [OF assms])
next
  assume n: "h n \<noteq> None \<and> n \<notin> set (l # xs)"
  show "\<exists>h'. mqtt_list_add_tail h n l = Some h' \<and> dll h' l (xs @ [n])"
    using dll_add_tail [OF assms] n by blast
  show "\<exists>h'. mqtt_list_add h n l = Some h' \<and> dll h' l (n # xs)"
    using dll_add [OF assms] n by blast
next
  assume n: "n \<in> set xs"
  show "\<exists>h'. mqtt_list_del h n = Some h' \<and> dll h' l (remove1 n xs)" by (rule dl.del_remove1 [OF assms n])
  have "mqtt_list_del_entry h n = mqtt_list_del h n"
    by (simp add: mqtt_list_del_entry_def mqtt_list_del_def)
  then show "\<exists>h'. mqtt_list_move_tail h n l = Some h' \<and> dll h' l (remove1 n xs @ [n])"
    using dl.del_add_tail [OF assms n] by (auto simp: mqtt_list_move_tail_def)
qed

definition sample_heap :: list_heap where
  "sample_heap = [1 \<mapsto> \<lparr>nd_next = 2, nd_prev = 3\<rparr>, 2 \<mapsto> \<lparr>nd_next = 3, nd_prev = 1\<rparr>,
     3 \<mapsto> \<lparr>nd_next = 1, nd_prev = 2\<rparr>, 4 \<mapsto> \<lparr>nd_next = 4, nd_prev = 4\<rparr>]"

lemma sample_heap_dll: "dll sample_heap 1 [2, 3]"
  by (simp add: dll_def sample_heap_def nxt_def prv_def)

theorem list_ops_refine_witness:
  "(\<exists>h'. mqtt_list_add_tail sample_heap 4 1 = Some h' \<and> dll h' 1 [2, 3, 4]) \<and>
   (\<exists>h'. mqtt_list_del sample_heap 2 = Some h' \<and> dll h' 1 [3])"
  using list_ops_refine [OF sample_heap_dll, of 4] list_ops_refine [OF sample_heap_dll, of 2]
  by (simp add: sample_heap_def)

section \<open>The loops\<close>

lemma list_for_each_dseg:
  "dseg h a xs l \<Longrightarrow> l \<notin> set xs \<Longrightarrow>
   list_for_each body h l (hd (xs @ [l])) s = fold (\<lambda>x s. Option.bind s (body x)) xs (Some s)"
proof (induction xs arbitrary: a s)
  case Nil
  then show ?case by (simp add: list_for_each.simps)
next
  case (Cons x xs)
  then have d: "dseg h x xs l" "l \<notin> set xs" by auto
  have n: "nxt h x = Some (hd (xs @ [l]))" using dseg_first [OF d(1)] .
  have none: "fold (\<lambda>x s. Option.bind s (body x)) xs None = None" by (induction xs) auto
  show ?case
    using Cons.prems Cons.IH [OF d] n none
    by (subst list_for_each.simps) (cases "body x s", auto)
qed

text \<open>
  \<open>LIST_FOR_EACH_SAFE\<close> with a body that decides from the node and a state, and unlinks and frees the
  node when it must go: \<open>each_safe\<close> is the same loop on the list.
\<close>

primrec each_safe :: "(addr \<Rightarrow> 's \<Rightarrow> (bool \<times> 's) option) \<Rightarrow> addr list \<Rightarrow> 's \<Rightarrow> ('s \<times> addr list) option" where
  "each_safe f [] s = Some (s, [])"
| "each_safe f (x # xs) s =
     do { (keep, s) \<leftarrow> f x s; (s, ys) \<leftarrow> each_safe f xs s; Some (s, if keep then x # ys else ys) }"

definition unlink_body :: "(addr \<Rightarrow> 's \<Rightarrow> (bool \<times> 's) option) \<Rightarrow> addr \<Rightarrow> 's \<times> list_heap \<Rightarrow> ('s \<times> list_heap) option" where
  "unlink_body f cur sh =
     do {
       (keep, s) \<leftarrow> f cur (fst sh);
       if keep then Some (s, snd sh)
       else do { h \<leftarrow> mqtt_list_del (snd sh) cur; Some (s, h(cur := None)) }
     }"

lemma dll_free:
  assumes "dll h l (xs @ n # ys)"
  shows "\<exists>h'. mqtt_list_del h n = Some h' \<and> dll (h'(n := None)) l (xs @ ys)"
proof -
  from dll_del [OF assms] obtain h' where h': "mqtt_list_del h n = Some h'" "dll h' l (xs @ ys)" by blast
  have "n \<notin> set (l # xs @ ys)" using assms by (auto simp: dll_def)
  then have "dseg (h'(n := None)) l (xs @ ys) l = dseg h' l (xs @ ys) l"
    by (intro dseg_cong) (auto simp: nxt_def prv_def)
  with h' show ?thesis by (auto simp: dll_def)
qed

lemma dll_next: "dll h l (pre @ xs) \<Longrightarrow> \<exists>n. nxt h (hd (xs @ [l])) = Some n \<and> (xs \<noteq> [] \<longrightarrow> n = hd (tl xs @ [l]))"
proof (cases xs)
  case Nil
  assume "dll h l (pre @ xs)"
  then have "nxt h l = Some (hd ((pre @ xs) @ [l]))" using dseg_first unfolding dll_def by blast
  with Nil show ?thesis by simp
next
  case (Cons y ys)
  assume "dll h l (pre @ xs)"
  with Cons have "dseg h y ys l" by (simp add: dll_def dseg_append)
  from dseg_first [OF this] Cons show ?thesis by simp
qed

lemma for_each_safe_dll:
  "dll h l (pre @ xs) \<Longrightarrow> (xs \<noteq> [] \<longrightarrow> nx = hd (tl xs @ [l])) \<Longrightarrow>
   (each_safe f xs s = None \<longrightarrow> list_for_each_safe (unlink_body f) l (hd (xs @ [l])) nx (s, h) = None) \<and>
   (\<forall>s' ys. each_safe f xs s = Some (s', ys) \<longrightarrow>
      (\<exists>h'. list_for_each_safe (unlink_body f) l (hd (xs @ [l])) nx (s, h) = Some (s', h') \<and> dll h' l (pre @ ys)))"
proof (induction xs arbitrary: pre nx s h)
  case Nil
  then show ?case by (simp add: list_for_each_safe.simps)
next
  case (Cons x xs)
  from Cons.prems(1) have xl: "x \<noteq> l" by (auto simp: dll_def)
  from Cons.prems(2) have nx: "nx = hd (xs @ [l])" by simp
  show ?case
  proof (cases "f x s")
    case None
    with xl show ?thesis by (simp add: list_for_each_safe.simps [of _ l x] unlink_body_def)
  next
    case (Some r)
    then obtain keep s1 where r: "f x s = Some (keep, s1)" by (cases r) auto
    show ?thesis
    proof (cases keep)
      case True
      have d: "dll h l ((pre @ [x]) @ xs)" using Cons.prems(1) by simp
      from dll_next [OF d] obtain n where n: "nxt h nx = Some n" "xs \<noteq> [] \<longrightarrow> n = hd (tl xs @ [l])"
        using nx by auto
      have "list_for_each_safe (unlink_body f) l (hd ((x # xs) @ [l])) nx (s, h) =
          list_for_each_safe (unlink_body f) l (hd (xs @ [l])) n (s1, h)"
        using xl r True n(1) nx by (subst list_for_each_safe.simps) (simp add: unlink_body_def)
      with Cons.IH [OF d n(2), of s1] r True show ?thesis by (cases "each_safe f xs s1") auto
    next
      case False
      from dll_free [OF Cons.prems(1)] obtain h' where
        del: "mqtt_list_del h x = Some h'" and dl: "dll (h'(x := None)) l (pre @ xs)" by blast
      define h1 where "h1 = h'(x := None)"
      note h' = del dl [folded h1_def]
      from dll_next [OF h'(2)] obtain n where n: "nxt h1 nx = Some n" "xs \<noteq> [] \<longrightarrow> n = hd (tl xs @ [l])"
        using nx by auto
      have "list_for_each_safe (unlink_body f) l (hd ((x # xs) @ [l])) nx (s, h) =
          list_for_each_safe (unlink_body f) l (hd (xs @ [l])) n (s1, h1)"
        using xl r False n(1) nx h'(1)
        by (subst list_for_each_safe.simps) (simp add: unlink_body_def h1_def [symmetric])
      with Cons.IH [OF h'(2) n(2), of s1] r False show ?thesis by (cases "each_safe f xs s1") auto
    qed
  qed
qed

text \<open>\<^bold>\<open>Property C30 (for_each_safe_refines).\<close> On a well-formed list the safe loop ends, also
  when its body unlinks and frees the node it is at: it visits the nodes in order, and the nodes it
  kept remain as a well-formed list in their old order.\<close>

theorem for_each_safe_refines:
  assumes "dll h l xs" "each_safe f xs s = Some (s', ys)"
  shows "\<exists>h'. LIST_FOR_EACH_SAFE (unlink_body f) l (s, h) = Some (s', h') \<and> dll h' l ys"
proof -
  have d: "dll h l ([] @ xs)" using assms(1) by simp
  have first: "nxt h l = Some (hd (xs @ [l]))" using assms(1) dseg_first unfolding dll_def by blast
  from dll_next [OF d] obtain n where n: "nxt h (hd (xs @ [l])) = Some n" "xs \<noteq> [] \<longrightarrow> n = hd (tl xs @ [l])"
    by blast
  from for_each_safe_dll [OF d n(2), of f s] assms(2) first n(1) show ?thesis
    by (auto simp: LIST_FOR_EACH_SAFE_def)
qed

theorem for_each_safe_refines_witness:
  "\<exists>h'. LIST_FOR_EACH_SAFE (unlink_body (\<lambda>a s. Some (a \<noteq> 2, s + a))) 1 (0, sample_heap) = Some (5, h') \<and> dll h' 1 [3]"
  by (rule for_each_safe_refines [OF sample_heap_dll]) simp

end
