(* ===== verification/Client_State.thy ===== *)
theory Client_State
  imports Platform_Net Packet_Subscribe Mqtt_List
begin

text \<open>
  The client object of \<^verbatim>\<open>mqttclient/mqttclient.h\<close> with its configuration
  (\<^verbatim>\<open>common/mqtt_defconfig.h\<close>), creation and setters (\<^verbatim>\<open>mqttclient/mqttclient.c\<close>).

  The client extends the world record, so one value holds the client and its environment. Two
  linked lists hang on a client. The list of message handlers holds addresses, because a handler is
  also reachable from acknowledgement records: \<open>handlers\<close> maps an address to the live object, and a freed
  address is one the map does not have. An acknowledgement record has one owner, the other list, so
  that list holds the records themselves. \<^verbatim>\<open>Mqtt_List\<close> justifies using plain lists for both.
  Memory fresh from the allocator is taken to be zero; \<open>junk16\<close> is the value an uninitialised 16-bit
  local happens to have. \<open>mqtt_thread\<close> tells whether the pointer to the thread object is set, \<open>thread_live\<close> whether
  the object is allocated. \<open>mqtt_write_lock\<close> is the mutex of the write buffer; the global lock protects
  single assignments, which are atomic here.
\<close>

section \<open>Types\<close>

definition QOS0 :: nat where "QOS0 = 0"
definition QOS1 :: nat where "QOS1 = 1"
definition QOS2 :: nat where "QOS2 = 2"
definition SUBFAIL :: nat where "SUBFAIL = 0x80"

lemmas mqtt_qos = QOS0_def QOS1_def QOS2_def SUBFAIL_def

datatype client_state = CLIENT_STATE_INVALID | CLIENT_STATE_INITIALIZED | CLIENT_STATE_CONNECTED
  | CLIENT_STATE_DISCONNECTED | CLIENT_STATE_CLEAN_SESSION

text \<open>Callbacks: the library's default handler, or one of the user's, by number.\<close>

datatype message_handler = Default_msg_handler | User_handler nat

record mqtt_connack_data =
  cd_rc :: u8
  cd_session_present :: u8

record mqtt_message =
  msg_qos :: nat
  msg_retained :: u8
  msg_dup :: u8
  msg_id :: u16
  msg_payloadlen :: nat
  msg_payload :: "cptr option"

record message_data =
  md_topic_name :: bytes
  md_message :: mqtt_message

record message_handlers =
  mh_qos :: nat
  mh_topic_filter :: "bytes option"
  mh_handler :: message_handler

record ack_handlers =
  ah_timer :: platform_timer
  ah_type :: msgTypes
  ah_packet_id :: u16
  ah_handler :: "addr option"
  ah_payload_len :: u16
  ah_payload :: bytes

record mqtt_will_options =
  wo_qos :: nat
  wo_retained :: u8
  wo_topic :: "bytes option"
  wo_message :: "bytes option"

text \<open>What a callback was given: the handler, the C string of the topic, the message, and the payload bytes.\<close>

record delivery =
  dl_handler :: message_handler
  dl_topic :: bytes
  dl_qos :: nat
  dl_id :: u16
  dl_payload :: "bytes option"

record mqtt_client = world +
  mqtt_client_id :: "bytes option"
  mqtt_user_name :: "bytes option"
  mqtt_password :: "bytes option"
  mqtt_host :: "bytes option"
  mqtt_port :: "bytes option"
  mqtt_ca :: "bytes option"
  mqtt_reconnect_data :: "nat option"
  mqtt_read_buf :: "bytes option"
  mqtt_write_buf :: "bytes option"
  mqtt_keep_alive_interval :: u16
  mqtt_packet_id :: u16
  mqtt_will_flag :: "1 word"
  mqtt_clean_session_flag :: "1 word"
  mqtt_ping_outstanding :: "2 word"
  mqtt_version :: "4 word"
  mqtt_ack_handler_number :: "24 word"
  mqtt_cmd_timeout :: u32
  mqtt_read_buf_size :: u32
  mqtt_write_buf_size :: u32
  mqtt_reconnect_try_duration :: u32
  mqtt_will_options :: "mqtt_will_options option"
  mqtt_client_state :: client_state
  mqtt_write_lock :: bool
  mqtt_msg_handler_list :: "addr list"
  mqtt_ack_handler_list :: "ack_handlers list"
  mqtt_network :: "network option"
  mqtt_thread :: bool
  mqtt_last_sent :: platform_timer
  mqtt_last_received :: platform_timer
  mqtt_reconnect_handler :: "nat option"
  mqtt_interceptor_handler :: "message_handler option"
  handlers :: "addr \<Rightarrow> message_handlers option"
  next_addr :: addr
  delivered :: "delivery list"
  thread_live :: bool

section \<open>Configuration\<close>

definition MQTT_MAX_PACKET_ID :: u16 where "MQTT_MAX_PACKET_ID = 0xFFFF - 1"
definition MQTT_TOPIC_LEN_MAX :: nat where "MQTT_TOPIC_LEN_MAX = 64"
definition MQTT_ACK_HANDLER_NUM_MAX :: nat where "MQTT_ACK_HANDLER_NUM_MAX = 64"
definition MQTT_DEFAULT_BUF_SIZE :: u32 where "MQTT_DEFAULT_BUF_SIZE = 1024"
definition MQTT_DEFAULT_CMD_TIMEOUT :: u32 where "MQTT_DEFAULT_CMD_TIMEOUT = 4000"
definition MQTT_KEEP_ALIVE_INTERVAL :: u16 where "MQTT_KEEP_ALIVE_INTERVAL = 100"
definition MQTT_VERSION :: "4 word" where "MQTT_VERSION = 4"
definition MQTT_RECONNECT_DEFAULT_DURATION :: u32 where "MQTT_RECONNECT_DEFAULT_DURATION = 1000"
definition MQTT_MIN_PAYLOAD_SIZE :: u32 where "MQTT_MIN_PAYLOAD_SIZE = 2"
definition MQTT_MAX_PAYLOAD_SIZE :: u32 where "MQTT_MAX_PAYLOAD_SIZE = 268435455"

section \<open>State and counters\<close>

definition mqtt_get_client_state :: "mqtt_client \<Rightarrow> client_state" where
  "mqtt_get_client_state c = mqtt_client_state c"

definition mqtt_set_client_state :: "mqtt_client \<Rightarrow> client_state \<Rightarrow> mqtt_client" where
  "mqtt_set_client_state c s = c\<lparr>mqtt_client_state := s\<rparr>"

definition mqtt_is_connected :: "mqtt_client \<Rightarrow> int" where
  "mqtt_is_connected c =
     (let state = mqtt_get_client_state c in
      if CLIENT_STATE_CLEAN_SESSION = state then MQTT_CLEAN_SESSION_ERROR
      else if CLIENT_STATE_CONNECTED \<noteq> state then MQTT_NOT_CONNECT_ERROR
      else MQTT_SUCCESS_ERROR)"

definition mqtt_ack_handler_is_maximum :: "mqtt_client \<Rightarrow> bool" where
  "mqtt_ack_handler_is_maximum c \<longleftrightarrow> unat (mqtt_ack_handler_number c) \<ge> MQTT_ACK_HANDLER_NUM_MAX"

definition mqtt_add_ack_handler_num :: "mqtt_client \<Rightarrow> mqtt_client" where
  "mqtt_add_ack_handler_num c = c\<lparr>mqtt_ack_handler_number := mqtt_ack_handler_number c + 1\<rparr>"

definition mqtt_subtract_ack_handler_num :: "mqtt_client \<Rightarrow> mqtt_client" where
  "mqtt_subtract_ack_handler_num c =
     (if mqtt_ack_handler_number c \<le> 0 then c
      else c\<lparr>mqtt_ack_handler_number := mqtt_ack_handler_number c - 1\<rparr>)"

definition mqtt_get_next_packet_id :: "mqtt_client \<Rightarrow> u16 \<times> mqtt_client" where
  "mqtt_get_next_packet_id c =
     (let pid = (if mqtt_packet_id c = MQTT_MAX_PACKET_ID then 1 else mqtt_packet_id c + 1) in
      (pid, c\<lparr>mqtt_packet_id := pid\<rparr>))"

definition lock_write :: "mqtt_client \<Rightarrow> mqtt_client option" where
  "lock_write c = (if mqtt_write_lock c then None else Some (c\<lparr>mqtt_write_lock := True\<rparr>))"

definition unlock_write :: "mqtt_client \<Rightarrow> mqtt_client" where
  "unlock_write c = c\<lparr>mqtt_write_lock := False\<rparr>"

text \<open>Timers read the client's clock.\<close>

definition timer_expired :: "mqtt_client \<Rightarrow> platform_timer \<Rightarrow> bool" where
  "timer_expired c t = platform_timer_is_expired (now_us c) t"

definition timer_remain :: "mqtt_client \<Rightarrow> platform_timer \<Rightarrow> int" where
  "timer_remain c t = platform_timer_remain (now_us c) t"

definition timer_cutdown :: "mqtt_client \<Rightarrow> nat \<Rightarrow> platform_timer" where
  "timer_cutdown c ms = platform_timer_cutdown (now_us c) ms"

definition cmd_timer :: "mqtt_client \<Rightarrow> platform_timer" where
  "cmd_timer c = timer_cutdown c (unat (mqtt_cmd_timeout c))"

definition keep_alive_timer :: "mqtt_client \<Rightarrow> platform_timer" where
  "keep_alive_timer c = timer_cutdown c (unat (mqtt_keep_alive_interval c) * 1000)"

definition mqtt_sleep_ms :: "mqtt_client \<Rightarrow> nat \<Rightarrow> mqtt_client" where
  "mqtt_sleep_ms c ms = usleep_us (ms * 1000) c"

section \<open>Buffers and creation\<close>

definition mqtt_buf_size :: "u32 \<Rightarrow> u32" where
  "mqtt_buf_size sz =
     (if MQTT_MIN_PAYLOAD_SIZE \<ge> sz \<or> MQTT_MAX_PAYLOAD_SIZE \<le> sz then MQTT_DEFAULT_BUF_SIZE else sz)"

definition mqtt_read_buf_malloc :: "mqtt_client option \<Rightarrow> u32 \<Rightarrow> u32 \<times> mqtt_client option" where
  "mqtt_read_buf_malloc c sz =
     (case c of
        None \<Rightarrow> (0, None)
      | Some c \<Rightarrow>
          (let c = c\<lparr>mqtt_read_buf_size := mqtt_buf_size sz\<rparr>;
               (ok, c) = platform_memory_alloc c in
           if ok
           then (mqtt_read_buf_size c, Some (c\<lparr>mqtt_read_buf := Some (replicate (unat (mqtt_read_buf_size c)) 0)\<rparr>))
           else (of_int MQTT_MEM_NOT_ENOUGH_ERROR, Some (c\<lparr>mqtt_read_buf := None\<rparr>))))"

definition mqtt_write_buf_malloc :: "mqtt_client option \<Rightarrow> u32 \<Rightarrow> u32 \<times> mqtt_client option" where
  "mqtt_write_buf_malloc c sz =
     (case c of
        None \<Rightarrow> (0, None)
      | Some c \<Rightarrow>
          (let c = c\<lparr>mqtt_write_buf_size := mqtt_buf_size sz\<rparr>;
               (ok, c) = platform_memory_alloc c in
           if ok
           then (mqtt_write_buf_size c, Some (c\<lparr>mqtt_write_buf := Some (replicate (unat (mqtt_write_buf_size c)) 0)\<rparr>))
           else (of_int MQTT_MEM_NOT_ENOUGH_ERROR, Some (c\<lparr>mqtt_write_buf := None\<rparr>))))"

definition mqtt_set_read_buf_size :: "mqtt_client option \<Rightarrow> u32 \<Rightarrow> u32 \<times> mqtt_client option" where
  "mqtt_set_read_buf_size c sz = mqtt_read_buf_malloc c sz"

definition mqtt_set_write_buf_size :: "mqtt_client option \<Rightarrow> u32 \<Rightarrow> u32 \<times> mqtt_client option" where
  "mqtt_set_write_buf_size c sz = mqtt_write_buf_malloc c sz"

definition mqtt_init :: "mqtt_client \<Rightarrow> int \<times> mqtt_client" where
  "mqtt_init c =
     (let (ok, c) = platform_memory_alloc c in
      if \<not> ok then (MQTT_MEM_NOT_ENOUGH_ERROR, c\<lparr>mqtt_network := None\<rparr>)
      else
        (let c = c\<lparr>mqtt_network := Some network_zero, mqtt_packet_id := 1, mqtt_clean_session_flag := 0,
                   mqtt_will_flag := 0, mqtt_cmd_timeout := MQTT_DEFAULT_CMD_TIMEOUT,
                   mqtt_client_state := CLIENT_STATE_INITIALIZED, mqtt_ping_outstanding := 0,
                   mqtt_ack_handler_number := 0, mqtt_keep_alive_interval := MQTT_KEEP_ALIVE_INTERVAL,
                   mqtt_version := MQTT_VERSION, mqtt_reconnect_try_duration := MQTT_RECONNECT_DEFAULT_DURATION,
                   mqtt_will_options := None, mqtt_reconnect_data := None, mqtt_reconnect_handler := None,
                   mqtt_interceptor_handler := None\<rparr>;
             (_, c) = mqtt_read_buf_malloc (Some c) MQTT_DEFAULT_BUF_SIZE;
             (_, c) = mqtt_write_buf_malloc c MQTT_DEFAULT_BUF_SIZE;
             c = (the c)\<lparr>mqtt_msg_handler_list := [], mqtt_ack_handler_list := [], mqtt_write_lock := False,
                         mqtt_last_sent := platform_timer_init, mqtt_last_received := platform_timer_init\<rparr> in
         (MQTT_SUCCESS_ERROR, c)))"

text \<open>A client whose memory was cleared, in a world; the heap starts empty.\<close>

definition client_zero :: "world \<Rightarrow> mqtt_client" where
  "client_zero w = world.extend w
     (mqtt_client.fields None None None None None None None None None 0 0 0 0 0 0 0 0 0 0 0 None
        CLIENT_STATE_INITIALIZED False [] [] None False platform_timer_init platform_timer_init None None
        (\<lambda>_. None) 1 [] False)"

definition mqtt_lease :: "world \<Rightarrow> mqtt_client option \<times> world" where
  "mqtt_lease w =
     (let (ok, w) = platform_memory_alloc w in
      if \<not> ok then (None, w)
      else
        (let (rc, c) = mqtt_init (client_zero w) in
         if rc \<noteq> MQTT_SUCCESS_ERROR then (None, world.truncate c) else (Some c, world.truncate c)))"

section \<open>Setters\<close>

text \<open>The macro that generates the setters: null check, assignment, and the field read back.\<close>

definition MQTT_CLIENT_SET_DEFINE ::
  "('f \<Rightarrow> mqtt_client \<Rightarrow> mqtt_client) \<Rightarrow> (mqtt_client \<Rightarrow> 't) \<Rightarrow> 't \<Rightarrow> mqtt_client option \<Rightarrow> 'f \<Rightarrow> 't \<times> mqtt_client option" where
  "MQTT_CLIENT_SET_DEFINE upd get res c t =
     (case c of None \<Rightarrow> (res, None) | Some c \<Rightarrow> (let c = upd t c in (get c, Some c)))"

definition mqtt_set_client_id :: "mqtt_client option \<Rightarrow> bytes option \<Rightarrow> bytes option \<times> mqtt_client option" where
  "mqtt_set_client_id = MQTT_CLIENT_SET_DEFINE (\<lambda>t c. c\<lparr>mqtt_client_id := t\<rparr>) mqtt_client_id None"

definition mqtt_set_user_name :: "mqtt_client option \<Rightarrow> bytes option \<Rightarrow> bytes option \<times> mqtt_client option" where
  "mqtt_set_user_name = MQTT_CLIENT_SET_DEFINE (\<lambda>t c. c\<lparr>mqtt_user_name := t\<rparr>) mqtt_user_name None"

definition mqtt_set_password :: "mqtt_client option \<Rightarrow> bytes option \<Rightarrow> bytes option \<times> mqtt_client option" where
  "mqtt_set_password = MQTT_CLIENT_SET_DEFINE (\<lambda>t c. c\<lparr>mqtt_password := t\<rparr>) mqtt_password None"

definition mqtt_set_host :: "mqtt_client option \<Rightarrow> bytes option \<Rightarrow> bytes option \<times> mqtt_client option" where
  "mqtt_set_host = MQTT_CLIENT_SET_DEFINE (\<lambda>t c. c\<lparr>mqtt_host := t\<rparr>) mqtt_host None"

definition mqtt_set_port :: "mqtt_client option \<Rightarrow> bytes option \<Rightarrow> bytes option \<times> mqtt_client option" where
  "mqtt_set_port = MQTT_CLIENT_SET_DEFINE (\<lambda>t c. c\<lparr>mqtt_port := t\<rparr>) mqtt_port None"

definition mqtt_set_ca :: "mqtt_client option \<Rightarrow> bytes option \<Rightarrow> bytes option \<times> mqtt_client option" where
  "mqtt_set_ca = MQTT_CLIENT_SET_DEFINE (\<lambda>t c. c\<lparr>mqtt_ca := t\<rparr>) mqtt_ca None"

definition mqtt_set_reconnect_data :: "mqtt_client option \<Rightarrow> nat option \<Rightarrow> nat option \<times> mqtt_client option" where
  "mqtt_set_reconnect_data = MQTT_CLIENT_SET_DEFINE (\<lambda>t c. c\<lparr>mqtt_reconnect_data := t\<rparr>) mqtt_reconnect_data None"

definition mqtt_set_keep_alive_interval :: "mqtt_client option \<Rightarrow> u16 \<Rightarrow> u16 \<times> mqtt_client option" where
  "mqtt_set_keep_alive_interval =
     MQTT_CLIENT_SET_DEFINE (\<lambda>t c. c\<lparr>mqtt_keep_alive_interval := t\<rparr>) mqtt_keep_alive_interval 0"

definition mqtt_set_will_flag :: "mqtt_client option \<Rightarrow> u32 \<Rightarrow> u32 \<times> mqtt_client option" where
  "mqtt_set_will_flag =
     MQTT_CLIENT_SET_DEFINE (\<lambda>t c. c\<lparr>mqtt_will_flag := ucast t\<rparr>) (\<lambda>c. ucast (mqtt_will_flag c)) 0"

definition mqtt_set_clean_session :: "mqtt_client option \<Rightarrow> u32 \<Rightarrow> u32 \<times> mqtt_client option" where
  "mqtt_set_clean_session =
     MQTT_CLIENT_SET_DEFINE (\<lambda>t c. c\<lparr>mqtt_clean_session_flag := ucast t\<rparr>) (\<lambda>c. ucast (mqtt_clean_session_flag c)) 0"

definition mqtt_set_version :: "mqtt_client option \<Rightarrow> u32 \<Rightarrow> u32 \<times> mqtt_client option" where
  "mqtt_set_version =
     MQTT_CLIENT_SET_DEFINE (\<lambda>t c. c\<lparr>mqtt_version := ucast t\<rparr>) (\<lambda>c. ucast (mqtt_version c)) 0"

definition mqtt_set_cmd_timeout :: "mqtt_client option \<Rightarrow> u32 \<Rightarrow> u32 \<times> mqtt_client option" where
  "mqtt_set_cmd_timeout = MQTT_CLIENT_SET_DEFINE (\<lambda>t c. c\<lparr>mqtt_cmd_timeout := t\<rparr>) mqtt_cmd_timeout 0"

definition mqtt_set_reconnect_try_duration :: "mqtt_client option \<Rightarrow> u32 \<Rightarrow> u32 \<times> mqtt_client option" where
  "mqtt_set_reconnect_try_duration =
     MQTT_CLIENT_SET_DEFINE (\<lambda>t c. c\<lparr>mqtt_reconnect_try_duration := t\<rparr>) mqtt_reconnect_try_duration 0"

definition mqtt_set_reconnect_handler :: "mqtt_client option \<Rightarrow> nat option \<Rightarrow> nat option \<times> mqtt_client option" where
  "mqtt_set_reconnect_handler =
     MQTT_CLIENT_SET_DEFINE (\<lambda>t c. c\<lparr>mqtt_reconnect_handler := t\<rparr>) mqtt_reconnect_handler None"

definition mqtt_set_interceptor_handler ::
  "mqtt_client option \<Rightarrow> message_handler option \<Rightarrow> message_handler option \<times> mqtt_client option" where
  "mqtt_set_interceptor_handler =
     MQTT_CLIENT_SET_DEFINE (\<lambda>t c. c\<lparr>mqtt_interceptor_handler := t\<rparr>) mqtt_interceptor_handler None"

definition mqtt_set_will_options ::
  "mqtt_client option \<Rightarrow> bytes option \<Rightarrow> nat \<Rightarrow> u8 \<Rightarrow> bytes option \<Rightarrow> int \<times> mqtt_client option" where
  "mqtt_set_will_options c topic qos retained message =
     (case (c, topic) of
        (Some c, Some topic) \<Rightarrow>
          (let (ok, c) = (if mqtt_will_options c = None then platform_memory_alloc c else (True, c)) in
           if \<not> ok then (MQTT_MEM_NOT_ENOUGH_ERROR, Some c)
           else
             (let c = (if mqtt_will_flag c = 0 then c\<lparr>mqtt_will_flag := 1\<rparr> else c) in
              (MQTT_SUCCESS_ERROR,
               Some (c\<lparr>mqtt_will_options := Some \<lparr>wo_qos = qos, wo_retained = retained,
                  wo_topic = Some topic, wo_message = message\<rparr>\<rparr>))))
      | _ \<Rightarrow> (MQTT_NULL_VALUE_ERROR, c))"

end
