(* ===== verification/Client_IO.thy ===== *)
theory Client_IO
  imports Client_State
begin

unbundle bit_operations_syntax

text \<open>
  Sending and receiving packets in \<^verbatim>\<open>mqttclient/mqttclient.c\<close>: the functions between the
  packet library and the socket. A null buffer is an object without bytes, so touching it is undefined
  and only comparing its size is not. The command timer that a caller passes down and that the function
  sets again is returned with the result. \<open>mqtt_packet_drain\<close> is a partial function, because its loop
  does not end on a silent connection.
\<close>

section \<open>Buffers of the client\<close>

definition buf_bytes :: "bytes option \<Rightarrow> bytes" where
  "buf_bytes b = (case b of None \<Rightarrow> [] | Some bs \<Rightarrow> bs)"

definition serialize_into ::
  "mqtt_client \<Rightarrow> (bytes \<Rightarrow> nat \<Rightarrow> (int \<times> bytes) option) \<Rightarrow> (int \<times> mqtt_client) option" where
  "serialize_into c f =
     do {
       (len, buf) \<leftarrow> f (buf_bytes (mqtt_write_buf c)) (unat (mqtt_write_buf_size c));
       Some (len, c\<lparr>mqtt_write_buf := map_option (\<lambda>_. buf) (mqtt_write_buf c)\<rparr>)
     }"

definition network_read_into :: "mqtt_client \<Rightarrow> nat \<Rightarrow> nat \<Rightarrow> int \<Rightarrow> (int \<times> mqtt_client) option" where
  "network_read_into c ptr len timeout =
     do {
       n \<leftarrow> mqtt_network c;
       (rc, buf, c) \<leftarrow> network_read n (buf_bytes (mqtt_read_buf c)) ptr len timeout c;
       Some (rc, c\<lparr>mqtt_read_buf := map_option (\<lambda>_. buf) (mqtt_read_buf c)\<rparr>)
     }"

definition release_network :: "mqtt_client \<Rightarrow> mqtt_client option" where
  "release_network c =
     do {
       n \<leftarrow> mqtt_network c;
       let (n, c) = network_release n c;
       Some (c\<lparr>mqtt_network := Some n\<rparr>)
     }"

section \<open>Sending\<close>

definition mqtt_set_publish_dup :: "mqtt_client \<Rightarrow> u8 \<Rightarrow> (int \<times> mqtt_client) option" where
  "mqtt_set_publish_dup c dup =
     (case mqtt_write_buf c of
        None \<Rightarrow> Some (MQTT_SET_PUBLISH_DUP_FAILED_ERROR, c)
      | Some buf \<Rightarrow>
          do {
            (header, _) \<leftarrow> readChar buf 0;
            if hdr_type header \<noteq> msg_code PUBLISH then Some (MQTT_SET_PUBLISH_DUP_FAILED_ERROR, c)
            else do {
              (buf, _) \<leftarrow> writeChar (buf, 0) (hdr_set_dup header dup);
              Some (MQTT_SUCCESS_ERROR, c\<lparr>mqtt_write_buf := Some buf\<rparr>)
            }
          })"

function send_loop :: "nat \<Rightarrow> nat \<Rightarrow> platform_timer \<Rightarrow> mqtt_client \<Rightarrow> (nat \<times> mqtt_client) option" where
  "send_loop length' sent timer c =
     (if sent < length' \<and> \<not> timer_expired c timer
      then do {
        n \<leftarrow> mqtt_network c;
        bs \<leftarrow> rd_block (buf_bytes (mqtt_write_buf c)) sent (length' - sent);
        let (len, c) = network_write n bs (timer_remain c timer) c;
        if len \<le> 0 then Some (sent, c)
        else send_loop length' (sent + nat len) timer c
      }
      else Some (sent, c))"
  by pat_completeness auto
termination
  by (relation "measure (\<lambda>(length', sent, _, _). length' - sent)") auto

declare send_loop.simps [simp del]

definition mqtt_send_packet :: "mqtt_client \<Rightarrow> nat \<Rightarrow> (int \<times> platform_timer \<times> mqtt_client) option" where
  "mqtt_send_packet c length' =
     (let timer = cmd_timer c in
      do {
        (sent, c) \<leftarrow> send_loop length' 0 timer c;
        if sent = length'
        then Some (MQTT_SUCCESS_ERROR, timer, c\<lparr>mqtt_last_sent := keep_alive_timer c\<rparr>)
        else Some (MQTT_SEND_PACKET_ERROR, timer, c)
      })"

section \<open>Receiving\<close>

text \<open>The remaining length is read byte by byte into a local.\<close>

definition read_byte :: "int \<Rightarrow> mqtt_client \<Rightarrow> ((int \<times> u8) \<times> mqtt_client) option" where
  "read_byte timeout c =
     do {
       n \<leftarrow> mqtt_network c;
       (rc, i, c) \<leftarrow> network_read n [0] 0 1 timeout c;
       Some ((rc, hd i), c)
     }"

function mqtt_decode_loop ::
  "int \<Rightarrow> nat \<Rightarrow> nat \<Rightarrow> nat \<Rightarrow> mqtt_client \<Rightarrow> (nat \<times> nat \<times> mqtt_client) option" where
  "mqtt_decode_loop timeout len multiplier value c =
     (let len = Suc len in
      if len > 4 then Some (len, value, c)
      else do {
        ((rc, i), c) \<leftarrow> read_byte timeout c;
        if rc \<noteq> 1 then Some (len, value, c)
        else
          (let value = value + unat (i AND 127) * multiplier; multiplier = multiplier * 128 in
           if i AND 128 \<noteq> 0 then mqtt_decode_loop timeout len multiplier value c
           else Some (len, value, c))
      })"
  by pat_completeness auto
termination
  by (relation "measure (\<lambda>(_, len, _). 5 - len)") auto

declare mqtt_decode_loop.simps [simp del]

definition mqtt_decode_packet :: "mqtt_client \<Rightarrow> int \<Rightarrow> (nat \<times> nat \<times> mqtt_client) option" where
  "mqtt_decode_packet c timeout = mqtt_decode_loop timeout 0 1 0 c"

partial_function (option) drain_loop ::
  "platform_timer \<Rightarrow> int \<Rightarrow> int \<Rightarrow> int \<Rightarrow> mqtt_client \<Rightarrow> mqtt_client option" where
  "drain_loop timer packet_len total_bytes_read bytes2read c =
     do {
       (read_len, c) \<leftarrow> network_read_into c 0 (nat bytes2read) (timer_remain c timer);
       let total_bytes_read = (if read_len \<noteq> 0 then total_bytes_read + read_len else total_bytes_read);
       let bytes2read =
         (if read_len \<noteq> 0
          then (if packet_len - total_bytes_read \<ge> uint (mqtt_read_buf_size c)
                then uint (mqtt_read_buf_size c) else packet_len - total_bytes_read)
          else bytes2read);
       if total_bytes_read < packet_len \<and> read_len \<noteq> 0
       then drain_loop timer packet_len total_bytes_read bytes2read c
       else Some c
     }"

declare drain_loop.simps [code]

definition mqtt_packet_drain :: "mqtt_client \<Rightarrow> platform_timer \<Rightarrow> int \<Rightarrow> mqtt_client option" where
  "mqtt_packet_drain c timer packet_len =
     drain_loop timer packet_len 0
       (if packet_len < uint (mqtt_read_buf_size c) then packet_len else uint (mqtt_read_buf_size c)) c"

text \<open>The result holds the return code, the packet type stored (zero when none was), the timer and the client.\<close>

definition mqtt_read_packet :: "mqtt_client \<Rightarrow> (int \<times> u8 \<times> platform_timer \<times> mqtt_client) option" where
  "mqtt_read_packet c =
     (let timer = cmd_timer c in
      do {
        (rc, c) \<leftarrow> network_read_into c 0 1 (timer_remain c timer);
        if rc \<noteq> 1 then Some (MQTT_NOTHING_TO_READ_ERROR, 0, timer, c)
        else do {
          (_, remain_len, c) \<leftarrow> mqtt_decode_packet c (timer_remain c timer);
          (buf, len) \<leftarrow> MQTTPacket_encode (buf_bytes (mqtt_read_buf c), 1) remain_len;
          let c = c\<lparr>mqtt_read_buf := map_option (\<lambda>_. buf) (mqtt_read_buf c)\<rparr>;
          if len + remain_len > unat (mqtt_read_buf_size c)
          then do {
            c \<leftarrow> mqtt_packet_drain c timer (int remain_len);
            Some (MQTT_BUFFER_TOO_SHORT_ERROR, 0, timer, c)
          }
          else do {
            (rc, c) \<leftarrow> (if remain_len > 0
                       then network_read_into c len remain_len (timer_remain c timer)
                       else Some (int remain_len, c));
            if rc \<noteq> int remain_len then Some (MQTT_NOTHING_TO_READ_ERROR, 0, timer, c)
            else do {
              header \<leftarrow> rd (buf_bytes (mqtt_read_buf c)) 0;
              Some (MQTT_SUCCESS_ERROR, hdr_type header, timer,
                    c\<lparr>mqtt_last_received := keep_alive_timer c\<rparr>)
            }
          }
        }
      })"

section \<open>Keep alive\<close>

definition mqtt_keep_alive :: "mqtt_client \<Rightarrow> (int \<times> mqtt_client) option" where
  "mqtt_keep_alive c =
     (let rc = mqtt_is_connected c in
      if rc \<noteq> MQTT_SUCCESS_ERROR then Some (rc, c)
      else if timer_expired c (mqtt_last_sent c) \<or> timer_expired c (mqtt_last_received c)
      then
        if mqtt_ping_outstanding c \<noteq> 0
        then do {
          c \<leftarrow> release_network c;
          Some (MQTT_NOT_CONNECT_ERROR, mqtt_set_client_state c CLIENT_STATE_DISCONNECTED)
        }
        else do {
          (len, c) \<leftarrow> serialize_into c MQTTSerialize_pingreq;
          (rc, c) \<leftarrow> (if len > 0
                     then do { (rc, _, c) \<leftarrow> mqtt_send_packet c (nat len); Some (rc, c) }
                     else Some (rc, c));
          Some (rc, c\<lparr>mqtt_ping_outstanding := mqtt_ping_outstanding c + 1\<rparr>)
        }
      else Some (rc, c))"

section \<open>What sending does\<close>

lemma send_some_cases:
  assumes "send_some fd bs tmo w = (rc, w')"
  shows "world.more w' = world.more w \<and> rx w' = rx w \<and> allocs w' = allocs w \<and> closed w' = closed w \<and>
    junk16 w' = junk16 w \<and> dns w' = dns w \<and> now_us w \<le> now_us w' \<and>
    (rc < 0 \<and> wire w' = wire w \<or>
     (\<exists>k\<le>length bs. rc = int k \<and> wire w' = wire w @ [(fd, take k bs)]))"
proof (cases "tx w")
  case Nil
  with assms show ?thesis by (auto simp: send_some_def intro!: exI [of _ "length bs"])
next
  case (Cons e es)
  show ?thesis
  proof (cases e)
    case (Tx el n)
    have "take (min (length bs) n) bs = take n bs" by (simp add: min_def)
    with assms Cons Tx show ?thesis
      by (auto simp: send_some_def split: if_splits intro!: exI [of _ "min (length bs) n"])
  next
    case (TxErr el)
    with assms Cons show ?thesis by (auto simp: send_some_def)
  qed
qed

lemmas net_write_simps = network_write_def nettype_tcp_write_def platform_net_socket_write_timeout_def

lemma more_sel: "world.more c' = world.more c \<Longrightarrow>
   mqtt_write_buf c' = mqtt_write_buf c \<and> mqtt_network c' = mqtt_network c \<and> mqtt_read_buf c' = mqtt_read_buf c"
  by (cases c; cases c') simp

text \<open>A sending loop only moves the clock, the transmit script and the log of writes.\<close>

definition sends :: "mqtt_client \<Rightarrow> mqtt_client \<Rightarrow> int \<Rightarrow> bytes list \<Rightarrow> bool" where
  "sends c c' fd chunks \<longleftrightarrow> world.more c' = world.more c \<and> rx c' = rx c \<and> allocs c' = allocs c \<and> closed c' = closed c \<and>
     junk16 c' = junk16 c \<and> dns c' = dns c \<and> now_us c \<le> now_us c' \<and> wire c' = wire c @ map (Pair fd) chunks"

lemma sends_refl: "sends c c fd []"
  by (simp add: sends_def)

lemma sends_trans: "sends c c1 fd xs \<Longrightarrow> sends c1 c2 fd ys \<Longrightarrow> sends c c2 fd (xs @ ys)"
  by (simp add: sends_def)

lemma send_loop_spec:
  "mqtt_network c = Some n \<Longrightarrow> buf_bytes (mqtt_write_buf c) = buf \<Longrightarrow> len \<le> length buf \<Longrightarrow> sent \<le> len \<Longrightarrow>
   \<exists>s c' chunks. send_loop len sent timer c = Some (s, c') \<and> sent \<le> s \<and> s \<le> len \<and>
     sends c c' (net_socket n) chunks \<and> concat chunks = take (s - sent) (drop sent buf)"
proof (induction "len - sent" arbitrary: sent c rule: less_induct)
  case less
  show ?case
  proof (cases "sent < len \<and> \<not> timer_expired c timer")
    case False
    then have "send_loop len sent timer c = Some (sent, c)" by (subst send_loop.simps) auto
    with less.prems show ?thesis
      by (intro exI [of _ sent] exI [of _ c] exI [of _ "[]"]) (simp add: sends_refl)
  next
    case True
    let ?bs = "take (len - sent) (drop sent buf)"
    obtain rc c1 where w: "network_write n ?bs (timer_remain c timer) c = (rc, c1)" by fastforce
    from w have w': "send_some (net_socket n) ?bs (sock_timeout_us (timer_remain c timer)) c = (rc, c1)"
      by (simp add: net_write_simps)
    note cs = send_some_cases [OF w']
    have rdb: "rd_block (buf_bytes (mqtt_write_buf c)) sent (len - sent) = Some ?bs"
      using less.prems True by (simp add: rd_block_def)
    have step: "send_loop len sent timer c =
        (if rc \<le> 0 then Some (sent, c1) else send_loop len (sent + nat rc) timer c1)"
      using True less.prems(1) rdb w by (subst send_loop.simps) simp
    have lbs: "length ?bs = len - sent" using less.prems by simp
    show ?thesis
    proof (cases "rc \<le> 0")
      case True
      then have "wire c1 = wire c \<or> wire c1 = wire c @ [(net_socket n, [])]"
        using cs by auto
      then have "\<exists>chunks. sends c c1 (net_socket n) chunks \<and> concat chunks = []"
      proof
        assume "wire c1 = wire c"
        with cs show ?thesis by (intro exI [of _ "[]"]) (simp add: sends_def)
      next
        assume "wire c1 = wire c @ [(net_socket n, [])]"
        with cs show ?thesis by (intro exI [of _ "[[]]"]) (simp add: sends_def)
      qed
      with step True less.prems(4) show ?thesis by auto
    next
      case False
      then obtain k where k: "k \<le> len - sent" "rc = int k" "wire c1 = wire c @ [(net_socket n, take k ?bs)]" "0 < k"
        using cs lbs by auto
      have s1: "sends c c1 (net_socket n) [take k ?bs]" using cs k by (simp add: sends_def)
      from cs more_sel have pr: "mqtt_network c1 = Some n" "buf_bytes (mqtt_write_buf c1) = buf"
        using less.prems by metis+
      have d: "len - (sent + k) < len - sent" "sent + k \<le> len" using k(1,4) less.prems(4) by linarith+
      obtain s c2 chunks where IH: "send_loop len (sent + k) timer c1 = Some (s, c2)" "sent + k \<le> s" "s \<le> len"
          "sends c1 c2 (net_socket n) chunks" "concat chunks = take (s - (sent + k)) (drop (sent + k) buf)"
        using less.hyps [OF d(1) pr less.prems(3) d(2)] by blast
      have "concat (take k ?bs # chunks) = take (s - sent) (drop sent buf)"
      proof -
        have "take k ?bs = take k (drop sent buf)" using k(1) by (simp add: min_def)
        moreover have "take (s - sent) (drop sent buf) =
            take k (drop sent buf) @ take (s - sent - k) (drop k (drop sent buf))"
          using IH(2) take_add [of k "s - sent - k" "drop sent buf"] by simp
        ultimately show ?thesis using IH(5) by (simp add: add.commute diff_diff_add)
      qed
      with step False k(2) IH sends_trans [OF s1 IH(4)] show ?thesis
        by (intro exI [of _ s] exI [of _ c2] exI [of _ "take k ?bs # chunks"]) simp
    qed
  qed
qed

text \<open>\<^bold>\<open>Property C22 (send_packet_sends).\<close> \<open>mqtt_send_packet\<close> ends and stays inside the
  write buffer; it writes a prefix of the packet to the client's socket, in order and without gaps, and
  reports success exactly when the whole packet went out, in which case the keep-alive timer is reset.\<close>

theorem send_packet_sends:
  assumes "mqtt_network c = Some n" "len \<le> length (buf_bytes (mqtt_write_buf c))"
  shows "\<exists>rc timer c' chunks s. mqtt_send_packet c len = Some (rc, timer, c') \<and>
    wire c' = wire c @ map (Pair (net_socket n)) chunks \<and>
    concat chunks = take s (buf_bytes (mqtt_write_buf c)) \<and> s \<le> len \<and>
    (rc = MQTT_SUCCESS_ERROR \<and> s = len \<and> mqtt_last_sent c' = keep_alive_timer c' \<or>
     rc = MQTT_SEND_PACKET_ERROR \<and> s < len)"
proof -
  obtain s c' chunks where l: "send_loop len 0 (cmd_timer c) c = Some (s, c')" "s \<le> len"
      "sends c c' (net_socket n) chunks" "concat chunks = take (s - 0) (drop 0 (buf_bytes (mqtt_write_buf c)))"
    using send_loop_spec [OF assms(1) refl assms(2)] by blast
  show ?thesis
  proof (cases "s = len")
    case True
    with l show ?thesis
      by (intro exI [of _ MQTT_SUCCESS_ERROR] exI [of _ "cmd_timer c"]
          exI [of _ "c'\<lparr>mqtt_last_sent := keep_alive_timer c'\<rparr>"] exI [of _ chunks] exI [of _ s])
        (simp add: mqtt_send_packet_def sends_def keep_alive_timer_def timer_cutdown_def)
  next
    case False
    with l show ?thesis
      by (intro exI [of _ MQTT_SEND_PACKET_ERROR] exI [of _ "cmd_timer c"] exI [of _ c'] exI [of _ chunks] exI [of _ s])
        (simp add: mqtt_send_packet_def sends_def)
  qed
qed

definition sample_client :: mqtt_client where
  "sample_client = (client_zero sample_world)
     \<lparr>mqtt_network := Some (network_zero\<lparr>net_socket := 5\<rparr>), mqtt_write_buf := Some [0xC0, 0, 0, 0],
      mqtt_write_buf_size := 4, mqtt_read_buf := Some (replicate 8 0), mqtt_read_buf_size := 8,
      mqtt_cmd_timeout := 1000, mqtt_keep_alive_interval := 60, mqtt_client_state := CLIENT_STATE_CONNECTED\<rparr>"

theorem send_packet_sends_witness:
  "\<exists>rc timer c' chunks s. mqtt_send_packet (sample_client\<lparr>tx := [Tx 10 1]\<rparr>) 2 = Some (rc, timer, c') \<and>
    wire c' = wire (sample_client\<lparr>tx := [Tx 10 1]\<rparr>) @ map (Pair (net_socket (network_zero\<lparr>net_socket := 5\<rparr>))) chunks \<and>
    concat chunks = take s (buf_bytes (mqtt_write_buf (sample_client\<lparr>tx := [Tx 10 1]\<rparr>))) \<and> s \<le> 2 \<and>
    (rc = MQTT_SUCCESS_ERROR \<and> s = 2 \<and> mqtt_last_sent c' = keep_alive_timer c' \<or>
     rc = MQTT_SEND_PACKET_ERROR \<and> s < 2)"
  by (rule send_packet_sends) code_simp+

section \<open>What receiving does on a prompt stream\<close>

text \<open>A peer whose bytes are there at once, in pieces of any size.\<close>

definition prompt :: "rx_event list \<Rightarrow> bool" where
  "prompt es \<longleftrightarrow> list_all (\<lambda>e. case e of Rx d bs \<Rightarrow> d = 0 \<and> bs \<noteq> [] | RxErr _ \<Rightarrow> False) es"

lemma recv_prompt:
  assumes "prompt (rx w)" "stream (rx w) \<noteq> []" "0 < n"
  shows "\<exists>bs es. recv n tmo w = ((int (length bs), bs), w\<lparr>rx := es\<rparr>) \<and> bs \<noteq> [] \<and> length bs \<le> n \<and>
    stream (rx w) = bs @ stream es \<and> prompt es"
proof -
  obtain bs es where r: "rx w = Rx 0 bs # es" "bs \<noteq> []" "prompt es"
    using assms(1,2) by (cases "rx w") (auto simp: prompt_def split: rx_event.splits)
  have now: "w\<lparr>now_us := now_us w, rx := x\<rparr> = w\<lparr>rx := x\<rparr>" for x by simp
  show ?thesis
  proof (cases "length bs \<le> n")
    case True
    with r now show ?thesis
      by (intro exI [of _ bs] exI [of _ es]) (simp add: recv_def)
  next
    case False
    with r now assms(3) show ?thesis
      by (intro exI [of _ "take n bs"] exI [of _ "Rx 0 (drop n bs) # es"])
        (simp add: recv_def prompt_def min_def)
  qed
qed

lemma recv_loop_prompt:
  "prompt (rx w) \<Longrightarrow> stream (rx w) = bs @ rest \<Longrightarrow> ptr + length bs \<le> length buf \<Longrightarrow>
   \<exists>es. recv_loop tmo buf ptr (length bs) w =
      Some (False, 0, take ptr buf @ bs @ drop (ptr + length bs) buf, w\<lparr>rx := es\<rparr>) \<and>
    stream es = rest \<and> prompt es"
proof (induction "length bs" arbitrary: bs ptr buf w rule: less_induct)
  case less
  show ?case
  proof (cases "bs = []")
    case True
    with less.prems show ?thesis
      by (intro exI [of _ "rx w"]) (subst recv_loop.simps, simp)
  next
    case False
    then obtain cs es where r: "recv (length bs) tmo w = ((int (length cs), cs), w\<lparr>rx := es\<rparr>)" "cs \<noteq> []"
        "length cs \<le> length bs" "stream (rx w) = cs @ stream es" "prompt es"
      using recv_prompt [of w "length bs" tmo] less.prems by auto
    from r(3,4) less.prems(2) obtain ds where ds: "bs = cs @ ds" "stream es = ds @ rest"
      by (auto simp: append_eq_append_conv2)
    let ?buf = "take ptr buf @ cs @ drop (ptr + length cs) buf"
    have fit: "ptr + length cs \<le> length buf" "ptr + length cs + length ds \<le> length ?buf"
      using less.prems(3) ds(1) by simp_all
    have step: "recv_loop tmo buf ptr (length bs) w = recv_loop tmo ?buf (ptr + length cs) (length ds) (w\<lparr>rx := es\<rparr>)"
      using False r fit ds(1) by (subst recv_loop.simps) (simp add: write_bytes_def)
    have "length ds < length bs" using r(2) ds(1) by simp
    moreover have "prompt (rx (w\<lparr>rx := es\<rparr>))" "stream (rx (w\<lparr>rx := es\<rparr>)) = ds @ rest" using r(5) ds(2) by simp_all
    ultimately obtain fs where "recv_loop tmo ?buf (ptr + length cs) (length ds) (w\<lparr>rx := es\<rparr>) =
        Some (False, 0, take (ptr + length cs) ?buf @ ds @ drop (ptr + length cs + length ds) ?buf, w\<lparr>rx := es, rx := fs\<rparr>)"
        "stream fs = rest" "prompt fs"
      using less.hyps fit(2) by blast
    with step fit(1) ds(1) show ?thesis
      by (intro exI [of _ fs]) (simp add: ac_simps)
  qed
qed

lemma network_read_prompt:
  assumes "prompt (rx w)" "stream (rx w) = bs @ rest" "ptr + length bs \<le> length buf"
  shows "\<exists>es. network_read n buf ptr (length bs) t w =
      Some (int (length bs), take ptr buf @ bs @ drop (ptr + length bs) buf, w\<lparr>rx := es\<rparr>) \<and>
    stream es = rest \<and> prompt es"
  using recv_loop_prompt [OF assms, of "sock_timeout_us t"]
  by (auto simp: network_read_def nettype_tcp_read_def platform_net_socket_recv_timeout_def)

lemma read_into_prompt:
  assumes "mqtt_network c = Some n" "mqtt_read_buf c = Some buf" "prompt (rx c)" "stream (rx c) = bs @ rest"
    "ptr + length bs \<le> length buf"
  shows "\<exists>es. network_read_into c ptr (length bs) t =
      Some (int (length bs), c\<lparr>rx := es, mqtt_read_buf := Some (take ptr buf @ bs @ drop (ptr + length bs) buf)\<rparr>) \<and>
    stream es = rest \<and> prompt es"
  using network_read_prompt [OF assms(3-5), of n t] assms(1,2)
  by (auto simp: network_read_into_def buf_bytes_def)

lemma read_byte_prompt:
  assumes "mqtt_network c = Some n" "prompt (rx c)" "stream (rx c) = b # rest"
  shows "\<exists>es. read_byte t c = Some ((1, b), c\<lparr>rx := es\<rparr>) \<and> stream es = rest \<and> prompt es"
  using network_read_prompt [of c "[b]" rest 0 "[0]" n t] assms
  by (auto simp: read_byte_def)

lemma decode_last:
  "len < 4 \<Longrightarrow> read_byte t c = Some ((1, i), c') \<Longrightarrow> i AND 128 = 0 \<Longrightarrow>
   mqtt_decode_loop t len m v c = Some (Suc len, v + unat (i AND 127) * m, c')"
  by (subst mqtt_decode_loop.simps) (simp add: Let_def)

lemma decode_more:
  "len < 4 \<Longrightarrow> read_byte t c = Some ((1, i), c') \<Longrightarrow> i AND 128 \<noteq> 0 \<Longrightarrow>
   mqtt_decode_loop t len m v c = mqtt_decode_loop t (Suc len) (m * 128) (v + unat (i AND 127) * m) c'"
  by (subst mqtt_decode_loop.simps) (simp add: Let_def)

lemma decode_prompt:
  "mqtt_network c = Some nw \<Longrightarrow> prompt (rx c) \<Longrightarrow> stream (rx c) = enc_len n @ rest \<Longrightarrow> k + length (enc_len n) \<le> 4 \<Longrightarrow>
   \<exists>es. mqtt_decode_loop t k m v c = Some (k + length (enc_len n), v + n * m, c\<lparr>rx := es\<rparr>) \<and>
     stream es = rest \<and> prompt es"
proof (induction n arbitrary: k m v c rule: enc_len.induct)
  case (1 n)
  then have k: "k < 4" using length_enc_len_pos [of n] by linarith
  show ?case
  proof (cases "n < 128")
    case True
    then have enc: "enc_len n = [of_nat n]" by (simp add: enc_len.simps [of n])
    with 1 obtain es where "read_byte t c = Some ((1, of_nat n), c\<lparr>rx := es\<rparr>)" "stream es = rest" "prompt es"
      using read_byte_prompt [of c nw "of_nat n" rest t] by auto
    with decode_last [OF k this(1) top_bit_small [OF True]] show ?thesis
      unfolding enc by (auto simp: low7_small [OF True])
  next
    case False
    then have enc: "enc_len n = (of_nat (n mod 128) OR 128) # enc_len (n div 128)"
      by (simp add: enc_len.simps [of n])
    with 1 obtain es where r: "read_byte t c = Some ((1, of_nat (n mod 128) OR 128), c\<lparr>rx := es\<rparr>)"
        "stream es = enc_len (n div 128) @ rest" "prompt es"
      using read_byte_prompt [of c nw "of_nat (n mod 128) OR 128" "enc_len (n div 128) @ rest" t] by auto
    have "Suc k + length (enc_len (n div 128)) \<le> 4" using 1(5) enc by simp
    with 1(1) [OF False, of "c\<lparr>rx := es\<rparr>" "Suc k" "m * 128" "v + n mod 128 * m"] r 1(2)
    obtain fs where "mqtt_decode_loop t (Suc k) (m * 128) (v + n mod 128 * m) (c\<lparr>rx := es\<rparr>) =
        Some (Suc k + length (enc_len (n div 128)), v + n mod 128 * m + n div 128 * (m * 128), c\<lparr>rx := fs\<rparr>)"
        "stream fs = rest" "prompt fs" by auto
    moreover have "n mod 128 * m + n div 128 * (m * 128) = n * m"
    proof -
      have "n mod 128 * m + n div 128 * (m * 128) = (n mod 128 + n div 128 * 128) * m"
        by (simp only: distrib_right mult.assoc mult.commute [of m])
      then show ?thesis by simp
    qed
    ultimately show ?thesis
      unfolding decode_more [OF k r(1) top_bit_cont] enc by (auto simp: low7_cont add.assoc)
  qed
qed

text \<open>Reading a whole packet that fits the read buffer.\<close>

lemma read_packet_prompt:
  assumes "mqtt_network c = Some n" "mqtt_read_buf c = Some buf" "length buf = unat (mqtt_read_buf_size c)"
    and "prompt (rx c)" "stream (rx c) = pk @ rest" "pk = h # enc_len (length body) @ body"
    and "length body < 268435456" "length pk \<le> length buf"
  shows "\<exists>es. mqtt_read_packet c = Some (MQTT_SUCCESS_ERROR, hdr_type h, cmd_timer c, c\<lparr>rx := es,
      mqtt_read_buf := Some (pk @ drop (length pk) buf), mqtt_last_received := keep_alive_timer c\<rparr>) \<and>
    stream es = rest \<and> prompt es"
proof -
  let ?e = "enc_len (length body)"
  let ?k = "Suc (length ?e)"
  have el: "length ?e \<le> 4" using length_enc_len_le [of "length body" 4] assms(7) by simp
  have bl: "1 \<le> length buf" "?k \<le> length buf" "?k + length body \<le> length buf" using assms(6,8) by simp_all
  have s0: "stream (rx c) = [h] @ ?e @ body @ rest" using assms(5,6) by simp
  define T where "T = timer_remain c (cmd_timer c)"
  have T: "timer_remain (c\<lparr>rx := x, mqtt_read_buf := y\<rparr>) (cmd_timer c) = T" for x y
    by (simp add: T_def timer_remain_def)
  obtain es1 where r1: "network_read_into c 0 1 T = Some (1, c\<lparr>rx := es1, mqtt_read_buf := Some (h # drop 1 buf)\<rparr>)"
      "stream es1 = ?e @ body @ rest" "prompt es1"
    using read_into_prompt [OF assms(1,2,4) s0, of 0 T] bl(1) by auto
  let ?c1 = "c\<lparr>rx := es1, mqtt_read_buf := Some (h # drop 1 buf)\<rparr>"
  obtain es2 where r2: "mqtt_decode_packet ?c1 T = Some (length ?e, length body, ?c1\<lparr>rx := es2\<rparr>)"
      "stream es2 = body @ rest" "prompt es2"
    using decode_prompt [of ?c1 n "length body" "body @ rest" 0 T 1 0] assms(1) r1(2,3) el
    by (auto simp: mqtt_decode_packet_def)
  let ?buf2 = "h # ?e @ drop ?k buf"
  have enc: "MQTTPacket_encode (buf_bytes (mqtt_read_buf (?c1\<lparr>rx := es2\<rparr>)), 1) (length body) = Some (?buf2, ?k)"
    using bl(2) by (simp add: MQTTPacket_encode_eq write_bytes_def buf_bytes_def)
  let ?c2 = "c\<lparr>rx := es2, mqtt_read_buf := Some ?buf2\<rparr>"
  have "mqtt_network ?c2 = Some n" "mqtt_read_buf ?c2 = Some ?buf2" "prompt (rx ?c2)" "stream (rx ?c2) = body @ rest"
      "?k + length body \<le> length ?buf2"
    using assms(1) r2(2,3) bl by simp_all
  from read_into_prompt [OF this, of T]
  obtain es3 where r3: "network_read_into ?c2 ?k (length body) T =
      Some (int (length body), ?c2\<lparr>rx := es3, mqtt_read_buf := Some (take ?k ?buf2 @ body @ drop (?k + length body) ?buf2)\<rparr>)"
      "stream es3 = rest" "prompt es3"
    by blast
  have pkb: "take ?k ?buf2 @ body @ drop (?k + length body) ?buf2 = pk @ drop (length pk) buf"
    using assms(6) bl by (simp add: ac_simps)
  have fit: "\<not> unat (mqtt_read_buf_size c) < ?k + length body" using assms(3) bl by simp
  have kat: "keep_alive_timer (c\<lparr>rx := x, mqtt_read_buf := y\<rparr>) = keep_alive_timer c" for x y
    by (simp add: keep_alive_timer_def timer_cutdown_def)
  show ?thesis
  proof (cases "body = []")
    case True
    then have es: "stream es2 = rest" using r2(2) by simp
    with r1 r2 enc fit True show ?thesis
      by (intro exI [of _ es2]) (simp add: mqtt_read_packet_def T_def [symmetric] T kat rd_def buf_bytes_def assms(6) Let_def)
  next
    case False
    with r1 r2 enc fit r3 pkb show ?thesis
      by (intro exI [of _ es3]) (simp add: mqtt_read_packet_def T_def [symmetric] T kat rd_def buf_bytes_def assms(6) Let_def)
  qed
qed

text \<open>\<^bold>\<open>Property C23 (read_packet_reads).\<close> When a whole packet that fits the read buffer has
  arrived, in pieces of any size, \<open>mqtt_read_packet\<close> succeeds: it stores exactly that packet at the
  start of the buffer, returns its type, leaves the bytes behind it in the stream and marks the time.\<close>

theorem read_packet_reads:
  assumes "mqtt_network c = Some n" "mqtt_read_buf c = Some buf" "length buf = unat (mqtt_read_buf_size c)"
    and "prompt (rx c)" "stream (rx c) = pk @ rest" "pk = h # enc_len (length body) @ body"
    and "length body < 268435456" "length pk \<le> length buf"
  shows "\<exists>c'. mqtt_read_packet c = Some (MQTT_SUCCESS_ERROR, hdr_type h, cmd_timer c, c') \<and>
    mqtt_read_buf c' = Some (pk @ drop (length pk) buf) \<and> stream (rx c') = rest \<and> prompt (rx c') \<and>
    mqtt_last_received c' = keep_alive_timer c"
  using read_packet_prompt [OF assms] by auto

theorem read_packet_reads_witness:
  "\<exists>c'. mqtt_read_packet (sample_client\<lparr>rx := [Rx 0 [0xD0], Rx 0 [0, 0x40]]\<rparr>) =
      Some (MQTT_SUCCESS_ERROR, hdr_type 0xD0, cmd_timer (sample_client\<lparr>rx := [Rx 0 [0xD0], Rx 0 [0, 0x40]]\<rparr>), c') \<and>
    mqtt_read_buf c' = Some ([0xD0, 0] @ drop (length [0xD0 :: u8, 0]) (replicate 8 0)) \<and> stream (rx c') = [0x40] \<and>
    prompt (rx c') \<and> mqtt_last_received c' = keep_alive_timer (sample_client\<lparr>rx := [Rx 0 [0xD0], Rx 0 [0, 0x40]]\<rparr>)"
  by (rule read_packet_reads [of _ "network_zero\<lparr>net_socket := 5\<rparr>" "replicate 8 0" "[0xD0, 0]" "[0x40]" "0xD0" "[]"])
    code_simp+

text \<open>The remaining length is written back
  into the read buffer before its size is compared: with a buffer shorter than the fixed header of the
  packet that arrives (three bytes is the least size the setter accepts) the client writes outside it.\<close>

theorem read_packet_overruns_small_buffer:
  assumes "mqtt_network c = Some n" "mqtt_read_buf c = Some buf" "buf \<noteq> []" "prompt (rx c)"
    and "stream (rx c) = h # enc_len m @ rest" "m < 268435456" "length buf < 1 + length (enc_len m)"
  shows "mqtt_read_packet c = None"
proof -
  have el: "length (enc_len m) \<le> 4" using length_enc_len_le [of m 4] assms(6) by simp
  have s0: "stream (rx c) = [h] @ enc_len m @ rest" using assms(5) by simp
  have bl: "1 \<le> length buf" using assms(3) by (cases buf) auto
  define T where "T = timer_remain c (cmd_timer c)"
  have T: "timer_remain (c\<lparr>rx := x, mqtt_read_buf := y\<rparr>) (cmd_timer c) = T" for x y
    by (simp add: T_def timer_remain_def)
  obtain es1 where r1: "network_read_into c 0 1 T = Some (1, c\<lparr>rx := es1, mqtt_read_buf := Some (h # drop 1 buf)\<rparr>)"
      "stream es1 = enc_len m @ rest" "prompt es1"
    using read_into_prompt [OF assms(1,2,4) s0, of 0 T] bl(1) by auto
  let ?c1 = "c\<lparr>rx := es1, mqtt_read_buf := Some (h # drop 1 buf)\<rparr>"
  obtain es2 where r2: "mqtt_decode_packet ?c1 T = Some (length (enc_len m), m, ?c1\<lparr>rx := es2\<rparr>)"
    using decode_prompt [of ?c1 n m rest 0 T 1 0] assms(1) r1(2,3) el
    by (auto simp: mqtt_decode_packet_def)
  have enc: "MQTTPacket_encode (buf_bytes (mqtt_read_buf (?c1\<lparr>rx := es2\<rparr>)), 1) m = None"
    using assms(7) bl by (simp add: MQTTPacket_encode_eq write_bytes_def buf_bytes_def)
  show ?thesis
    using r1 r2 enc by (simp add: mqtt_read_packet_def T_def [symmetric] T Let_def)
qed

theorem read_packet_overruns_small_buffer_witness:
  "mqtt_read_packet (sample_client\<lparr>mqtt_read_buf := Some [0, 0, 0], mqtt_read_buf_size := 3,
     rx := [Rx 0 [0x30, 0x80, 0x80, 0x01]]\<rparr>) = None"
  by (rule read_packet_overruns_small_buffer [of _ "network_zero\<lparr>net_socket := 5\<rparr>" "[0, 0, 0]" "0x30" 16384 "[]"])
    code_simp+

section \<open>Draining\<close>

lemma read_into_silent:
  assumes "mqtt_network c = Some n" "rx c = []" "0 < len"
  shows "\<exists>c'. network_read_into c ptr len t = Some (-1, c') \<and> mqtt_network c' = Some n \<and> rx c' = [] \<and>
    mqtt_read_buf_size c' = mqtt_read_buf_size c"
  using assms
  by (simp add: network_read_into_def network_read_def nettype_tcp_read_def platform_net_socket_recv_timeout_def
      recv_loop.simps [of _ _ _ len] recv_def)



end
