(* ===== verification/Client_Topic.thy ===== *)
theory Client_Topic
  imports Client_State
begin

text \<open>
  Topics in \<^verbatim>\<open>mqttclient/mqttclient.c\<close>: equality, the wildcard matcher and the message handed to a
  callback. The matcher walks filter and name as pointers to bytes; here both are the lists that remain.
  \<open>level_match\<close> is the specification on topic levels: a plus sign stands for one level, a number sign
  for all that remain.
\<close>

definition mqtt_is_topic_equals :: "bytes \<Rightarrow> bytes \<Rightarrow> bool" where
  "mqtt_is_topic_equals topic_filter topic =
     (let topic_len = length topic in
      if length topic_filter \<noteq> topic_len then False
      else take topic_len topic_filter = take topic_len topic)"

text \<open>The inner loop on a plus sign: the name pointer moves to the last byte of its level.\<close>

fun plus_skip :: "bytes \<Rightarrow> bytes" where
  "plus_skip (c # d # n) = (if d \<noteq> 47 then plus_skip (d # n) else c # d # n)"
| "plus_skip n = n"

fun topic_loop :: "bytes \<Rightarrow> bytes \<Rightarrow> bytes \<times> bytes" where
  "topic_loop (cf # f) (cn # n) =
     (if cn = 47 \<and> cf \<noteq> 47 then (cf # f, cn # n)
      else if cf \<noteq> 43 \<and> cf \<noteq> 35 \<and> cf \<noteq> cn then (cf # f, cn # n)
      else
        (let name = (if cf = 43 then plus_skip (cn # n)
                     else if cf = 35 then [last (cn # n)]
                     else cn # n) in
         topic_loop f (tl name)))"
| "topic_loop f n = (f, n)"

definition mqtt_topic_is_matched :: "bytes \<Rightarrow> MQTTString \<Rightarrow> bool option" where
  "mqtt_topic_is_matched topic_filter topic_name =
     do {
       name \<leftarrow> deref_block (lenstring_data topic_name) (lenstring_len topic_name);
       let (curf, curn) = topic_loop topic_filter name;
       Some (curn = [] \<and> curf = [])
     }"

definition mqtt_new_message_data :: "MQTTString \<Rightarrow> mqtt_message \<Rightarrow> message_data option" where
  "mqtt_new_message_data topic_name message =
     (let len = (if lenstring_len topic_name < MQTT_TOPIC_LEN_MAX - 1 then lenstring_len topic_name
                 else MQTT_TOPIC_LEN_MAX - 1) in
      do {
        t \<leftarrow> deref_block (lenstring_data topic_name) len;
        Some \<lparr>md_topic_name = t, md_message = message\<rparr>
      })"

lemma mqtt_is_topic_equals_eq [simp]: "mqtt_is_topic_equals a b \<longleftrightarrow> a = b"
  by (auto simp: mqtt_is_topic_equals_def Let_def)

section \<open>Levels\<close>

fun levels :: "bytes \<Rightarrow> bytes list" where
  "levels [] = [[]]"
| "levels (c # cs) = (if c = 47 then [] # levels cs else (c # hd (levels cs)) # tl (levels cs))"

fun join_levels :: "bytes list \<Rightarrow> bytes" where
  "join_levels [] = []"
| "join_levels [l] = l"
| "join_levels (l # ls) = l @ 47 # join_levels ls"

lemma levels_ne [simp]: "levels s \<noteq> []"
  by (cases s) auto

lemma join_Cons_hd: "join_levels ((c # l) # ls) = c # join_levels (l # ls)"
  by (cases ls) auto

lemma join_levels [simp]: "join_levels (levels s) = s"
proof (induction s)
  case (Cons c s)
  obtain l ls where l: "levels s = l # ls" by (cases "levels s") auto
  with Cons show ?case by (auto simp: join_Cons_hd)
qed simp

lemma levels_no_slash: "l \<in> set (levels s) \<Longrightarrow> 47 \<notin> set l"
proof (induction s arbitrary: l)
  case (Cons c s)
  obtain k ks where k: "levels s = k # ks" by (cases "levels s") auto
  with Cons show ?case by (auto split: if_splits)
qed simp

text \<open>A well-formed filter: a wildcard fills its level, and a number sign is the last level.\<close>

fun wf_filter :: "bytes list \<Rightarrow> bool" where
  "wf_filter [] \<longleftrightarrow> True"
| "wf_filter (l # ls) \<longleftrightarrow> (l = [43] \<or> 43 \<notin> set l \<and> 35 \<notin> set l \<or> l = [35] \<and> ls = []) \<and> wf_filter ls"

fun level_match :: "bytes list \<Rightarrow> bytes list \<Rightarrow> bool" where
  "level_match [] [] \<longleftrightarrow> True"
| "level_match (f # fs) (n # ns) \<longleftrightarrow> f = [35] \<and> fs = [] \<or> (f = [43] \<or> f = n) \<and> level_match fs ns"
| "level_match _ _ \<longleftrightarrow> False"

definition ends_level :: "bytes \<Rightarrow> bool" where
  "ends_level r \<longleftrightarrow> r = [] \<or> hd r = 47"

definition loop_match :: "bytes \<Rightarrow> bytes \<Rightarrow> bool" where
  "loop_match f n \<longleftrightarrow> topic_loop f n = ([], [])"

lemma loop_match_simps [simp]:
  "loop_match [] n \<longleftrightarrow> n = []"
  "loop_match (c # f) [] \<longleftrightarrow> False"
  by (cases n; simp add: loop_match_def)+

lemma loop_slash: "loop_match (47 # f) (47 # n) = loop_match f n"
  by (simp add: loop_match_def)

lemma loop_literal:
  "43 \<notin> set l \<Longrightarrow> 35 \<notin> set l \<Longrightarrow> 47 \<notin> set l \<Longrightarrow> 47 \<notin> set m \<Longrightarrow> ends_level f \<Longrightarrow> ends_level n \<Longrightarrow>
   loop_match (l @ f) (m @ n) \<longleftrightarrow> l = m \<and> loop_match f n"
proof (induction l arbitrary: m)
  case Nil
  show ?case
  proof (cases m)
    case (Cons d m')
    with Nil show ?thesis
      by (cases f) (auto simp: ends_level_def loop_match_def)
  qed simp
next
  case (Cons c l)
  show ?case
  proof (cases m)
    case Nil
    with Cons.prems show ?thesis
      by (cases n) (auto simp: ends_level_def loop_match_def)
  next
    case m: (Cons d m')
    show ?thesis
    proof (cases "c = d")
      case True
      with Cons.prems m have "loop_match ((c # l) @ f) (m @ n) = loop_match (l @ f) (m' @ n)"
        by (auto simp: loop_match_def)
      with Cons.IH [of m'] Cons.prems m True show ?thesis by simp
    next
      case False
      with Cons.prems m show ?thesis by (auto simp: loop_match_def)
    qed
  qed
qed

lemma plus_skip_level: "47 \<notin> set m \<Longrightarrow> ends_level n \<Longrightarrow> plus_skip ((c # m) @ n) = last (c # m) # n"
proof (induction m arbitrary: c)
  case Nil
  then show ?case by (cases n) (auto simp: ends_level_def)
next
  case (Cons d m)
  then show ?case by simp
qed

lemma loop_plus: "m \<noteq> [] \<Longrightarrow> 47 \<notin> set m \<Longrightarrow> ends_level n \<Longrightarrow> loop_match (43 # f) (m @ n) = loop_match f n"
proof (cases m)
  case (Cons c m')
  assume m: "m \<noteq> []" "47 \<notin> set m" "ends_level n"
  with Cons plus_skip_level [of m' n c] have "plus_skip (c # m' @ n) = last (c # m') # n" by simp
  with Cons m show ?thesis by (auto simp: loop_match_def)
qed simp

lemma loop_hash: "m \<noteq> [] \<Longrightarrow> 47 \<notin> set m \<Longrightarrow> loop_match [35] (m @ n)"
  by (cases m) (auto simp: loop_match_def)

lemma join_split: "join_levels (l # ls) = l @ (if ls = [] then [] else 47 # join_levels ls)"
  by (cases ls) auto

lemma loop_match_levels:
  "wf_filter fs \<Longrightarrow> fs \<noteq> [] \<Longrightarrow> ns \<noteq> [] \<Longrightarrow> \<forall>l\<in>set fs. 47 \<notin> set l \<Longrightarrow> \<forall>l\<in>set ns. 47 \<notin> set l \<and> l \<noteq> [] \<Longrightarrow>
   loop_match (join_levels fs) (join_levels ns) = level_match fs ns"
proof (induction fs arbitrary: ns)
  case (Cons f fs)
  obtain n ns' where ns: "ns = n # ns'" using Cons.prems by (cases ns) auto
  let ?fr = "if fs = [] then [] else 47 # join_levels fs"
  let ?nr = "if ns' = [] then [] else 47 # join_levels ns'"
  have er: "ends_level ?fr" "ends_level ?nr" by (simp_all add: ends_level_def)
  have nn: "47 \<notin> set n" "n \<noteq> []" using Cons.prems ns by auto
  have rest: "loop_match ?fr ?nr = level_match fs ns'"
  proof (cases "fs = [] \<or> ns' = []")
    case True
    then show ?thesis by (cases fs; cases ns') auto
  next
    case False
    with Cons.IH [of ns'] Cons.prems ns show ?thesis by (auto simp: loop_slash)
  qed
  from Cons.prems(1) consider "f = [43]" | "43 \<notin> set f" "35 \<notin> set f" | "f = [35]" "fs = []" by auto
  then have "loop_match (f @ ?fr) (n @ ?nr) = level_match (f # fs) (n # ns')"
  proof cases
    case 1
    with loop_plus [OF nn(2,1) er(2), of ?fr] rest show ?thesis by simp
  next
    case 2
    then have "f \<noteq> [43]" "f \<noteq> [35]" by auto
    with loop_literal [OF 2 _ nn(1) er] rest Cons.prems show ?thesis by simp
  next
    case 3
    with loop_hash [OF nn(2,1), of ?nr] show ?thesis by simp
  qed
  then show ?case by (simp only: ns join_split)
qed simp

text \<open>\<^bold>\<open>Property C21 (topic_match_correct).\<close> For a well-formed filter and a name without empty
  levels, \<open>mqtt_topic_is_matched\<close> decides the match level by level, where the number sign stands for
  one or more remaining levels.\<close>

theorem topic_match_correct:
  assumes "deref_block (lenstring_data t) (lenstring_len t) = Some name"
    and "wf_filter (levels filt)" "[] \<notin> set (levels name)"
  shows "mqtt_topic_is_matched filt t = Some (level_match (levels filt) (levels name))"
proof -
  have "loop_match (join_levels (levels filt)) (join_levels (levels name)) = level_match (levels filt) (levels name)"
    using assms(2,3) levels_no_slash by (intro loop_match_levels) auto
  then show ?thesis
    using assms(1) by (auto simp: mqtt_topic_is_matched_def loop_match_def split: prod.splits)
qed

theorem topic_match_correct_witness:
  "mqtt_topic_is_matched [97, 47, 43, 47, 35] \<lparr>cstring = None, lenstring_len = 5, lenstring_data = Some ([97, 47, 98, 47, 99], 0)\<rparr> =
     Some True"
  by (rule trans [OF topic_match_correct [of _ "[97, 47, 98, 47, 99]"]]) code_simp+

text \<open>A filter that ends in a level with a number sign
  does not match the parent level itself, which the protocol asks for: \<open>a/#\<close> never matches \<open>a\<close>.\<close>

theorem hash_misses_parent:
  assumes "43 \<notin> set p" "35 \<notin> set p" "deref_block (lenstring_data t) (lenstring_len t) = Some p"
  shows "mqtt_topic_is_matched (p @ [47, 35]) t = Some False"
proof -
  have "topic_loop (p @ r) p = (r, [])" for r
    using assms(1,2) by (induction p) auto
  then show ?thesis using assms(3) by (simp add: mqtt_topic_is_matched_def)
qed

theorem hash_misses_parent_witness:
  "mqtt_topic_is_matched ([97] @ [47, 35]) \<lparr>cstring = None, lenstring_len = 1, lenstring_data = Some ([97], 0)\<rparr> = Some False"
  by (rule hash_misses_parent) code_simp+

end
