(* ===== verification/Client_Ack.thy ===== *)
theory Client_Ack
  imports Client_IO Client_Topic
begin

text \<open>
  The two tables of the client in \<^verbatim>\<open>mqttclient/mqttclient.c\<close>: the records of packets that wait for
  an acknowledgement, and the message handlers of the subscribed topics.

  A loop that unlinks the record it is at takes the list as the records it has kept and those still
  to come, so the client's list is their concatenation at every step. A handler's address is alive as
  long as \<open>handlers\<close> maps it; freeing it twice, or unlinking it after it was freed, is undefined. The
  output parameter of \<open>mqtt_ack_list_unrecord\<close> is \<^const>\<open>None\<close> when the function did not assign it.
\<close>

section \<open>Acknowledgement records\<close>

definition mqtt_ack_handler_create ::
  "mqtt_client \<Rightarrow> msgTypes \<Rightarrow> u16 \<Rightarrow> u16 \<Rightarrow> addr option \<Rightarrow> (ack_handlers option \<times> mqtt_client) option" where
  "mqtt_ack_handler_create c type packet_id payload_len handler =
     (let (ok, c) = platform_memory_alloc c in
      if \<not> ok then Some (None, c)
      else do {
        payload \<leftarrow> rd_block (buf_bytes (mqtt_write_buf c)) 0 (unat payload_len);
        Some (Some \<lparr>ah_timer = cmd_timer c, ah_type = type, ah_packet_id = packet_id,
          ah_handler = handler, ah_payload_len = payload_len, ah_payload = payload\<rparr>, c)
      })"

text \<open>Unlinking the record between the kept ones and the rest.\<close>

definition mqtt_ack_handler_destroy :: "ack_handlers list \<Rightarrow> ack_handlers list \<Rightarrow> mqtt_client \<Rightarrow> mqtt_client" where
  "mqtt_ack_handler_destroy kept rest c = c\<lparr>mqtt_ack_handler_list := kept @ rest\<rparr>"

definition mqtt_ack_handler_resend :: "mqtt_client \<Rightarrow> ack_handlers \<Rightarrow> (ack_handlers \<times> mqtt_client) option" where
  "mqtt_ack_handler_resend c a =
     (let a = a\<lparr>ah_timer := cmd_timer c\<rparr> in
      do {
        c \<leftarrow> lock_write c;
        payload \<leftarrow> rd_block (ah_payload a) 0 (unat (ah_payload_len a));
        (buf, _) \<leftarrow> write_bytes (buf_bytes (mqtt_write_buf c), 0) payload;
        let c = c\<lparr>mqtt_write_buf := map_option (\<lambda>_. buf) (mqtt_write_buf c)\<rparr>;
        (_, _, c) \<leftarrow> mqtt_send_packet c (unat (ah_payload_len a));
        Some (a, unlock_write c)
      })"

definition mqtt_ack_list_node_is_exist :: "mqtt_client \<Rightarrow> msgTypes \<Rightarrow> u16 \<Rightarrow> bool" where
  "mqtt_ack_list_node_is_exist c type packet_id \<longleftrightarrow>
     list_ex (\<lambda>a. packet_id = ah_packet_id a \<and> type = ah_type a) (mqtt_ack_handler_list c)"

definition mqtt_ack_list_record ::
  "mqtt_client \<Rightarrow> msgTypes \<Rightarrow> u16 \<Rightarrow> u16 \<Rightarrow> addr option \<Rightarrow> (int \<times> mqtt_client) option" where
  "mqtt_ack_list_record c type packet_id payload_len handler =
     (if mqtt_ack_list_node_is_exist c type packet_id then Some (MQTT_ACK_NODE_IS_EXIST_ERROR, c)
      else do {
        (ack_handler, c) \<leftarrow> mqtt_ack_handler_create c type packet_id payload_len handler;
        case ack_handler of
          None \<Rightarrow> Some (MQTT_MEM_NOT_ENOUGH_ERROR, c)
        | Some a \<Rightarrow>
            (let c = mqtt_add_ack_handler_num c in
             Some (MQTT_SUCCESS_ERROR, c\<lparr>mqtt_ack_handler_list := mqtt_ack_handler_list c @ [a]\<rparr>))
      })"

fun unrecord_loop ::
  "u8 \<Rightarrow> u16 \<Rightarrow> ack_handlers list \<Rightarrow> ack_handlers list \<Rightarrow> addr option option \<Rightarrow> mqtt_client \<Rightarrow>
   addr option option \<times> mqtt_client" where
  "unrecord_loop type packet_id kept [] handler c = (handler, c)"
| "unrecord_loop type packet_id kept (a # rest) handler c =
     (if packet_id \<noteq> ah_packet_id a \<or> type \<noteq> msg_code (ah_type a)
      then unrecord_loop type packet_id (kept @ [a]) rest handler c
      else unrecord_loop type packet_id kept rest (Some (ah_handler a))
             (mqtt_subtract_ack_handler_num (mqtt_ack_handler_destroy kept rest c)))"

definition mqtt_ack_list_unrecord :: "mqtt_client \<Rightarrow> u8 \<Rightarrow> u16 \<Rightarrow> addr option option \<times> mqtt_client" where
  "mqtt_ack_list_unrecord c type packet_id =
     unrecord_loop type packet_id [] (mqtt_ack_handler_list c) None c"

section \<open>Message handlers\<close>

definition mqtt_msg_handler_create ::
  "mqtt_client \<Rightarrow> bytes option \<Rightarrow> nat \<Rightarrow> message_handler \<Rightarrow> addr option \<times> mqtt_client" where
  "mqtt_msg_handler_create c topic_filter qos handler =
     (let (ok, c) = platform_memory_alloc c in
      if \<not> ok then (None, c)
      else
        (let p = next_addr c in
         (Some p, c\<lparr>next_addr := Suc p, handlers := (handlers c)(p \<mapsto>
            \<lparr>mh_qos = qos, mh_topic_filter = topic_filter, mh_handler = handler\<rparr>)\<rparr>)))"

definition mqtt_msg_handler_destory :: "addr \<Rightarrow> mqtt_client \<Rightarrow> mqtt_client option" where
  "mqtt_msg_handler_destory p c =
     do {
       _ \<leftarrow> handlers c p;
       Some (c\<lparr>mqtt_msg_handler_list := remove1 p (mqtt_msg_handler_list c), handlers := (handlers c)(p := None)\<rparr>)
     }"

fun filter_exists :: "mqtt_client \<Rightarrow> addr \<Rightarrow> addr list \<Rightarrow> bool option" where
  "filter_exists c handler [] = Some False"
| "filter_exists c handler (p # ps) =
     do {
       h \<leftarrow> handlers c p;
       case mh_topic_filter h of
         None \<Rightarrow> filter_exists c handler ps
       | Some f \<Rightarrow>
           do {
             h \<leftarrow> handlers c handler;
             t \<leftarrow> mh_topic_filter h;
             if mqtt_is_topic_equals f t then Some True else filter_exists c handler ps
           }
     }"

definition mqtt_msg_handler_is_exist :: "mqtt_client \<Rightarrow> addr \<Rightarrow> bool option" where
  "mqtt_msg_handler_is_exist c handler =
     (if mqtt_msg_handler_list c = [] then Some False else filter_exists c handler (mqtt_msg_handler_list c))"

definition mqtt_msg_handlers_install :: "mqtt_client \<Rightarrow> addr option \<Rightarrow> (int \<times> mqtt_client) option" where
  "mqtt_msg_handlers_install c handler =
     (case handler of
        None \<Rightarrow> Some (MQTT_NULL_VALUE_ERROR, c)
      | Some p \<Rightarrow>
          do {
            ex \<leftarrow> mqtt_msg_handler_is_exist c p;
            if ex
            then do { c \<leftarrow> mqtt_msg_handler_destory p c; Some (MQTT_SUCCESS_ERROR, c) }
            else Some (MQTT_SUCCESS_ERROR, c\<lparr>mqtt_msg_handler_list := mqtt_msg_handler_list c @ [p]\<rparr>)
          })"

fun get_handler_loop :: "mqtt_client \<Rightarrow> MQTTString \<Rightarrow> addr list \<Rightarrow> addr option option" where
  "get_handler_loop c topic_name [] = Some None"
| "get_handler_loop c topic_name (p # ps) =
     do {
       h \<leftarrow> handlers c p;
       case mh_topic_filter h of
         None \<Rightarrow> get_handler_loop c topic_name ps
       | Some f \<Rightarrow>
           do {
             eq \<leftarrow> MQTTPacket_equals topic_name f;
             m \<leftarrow> (if eq then Some True else mqtt_topic_is_matched f topic_name);
             if m then Some (Some p) else get_handler_loop c topic_name ps
           }
     }"

definition mqtt_get_msg_handler :: "mqtt_client \<Rightarrow> MQTTString \<Rightarrow> addr option option" where
  "mqtt_get_msg_handler c topic_name = get_handler_loop c topic_name (mqtt_msg_handler_list c)"

section \<open>Delivering a message\<close>

text \<open>A callback is user code; the call is logged with what it was given.\<close>

definition call_handler :: "message_handler \<Rightarrow> message_data \<Rightarrow> mqtt_client \<Rightarrow> mqtt_client" where
  "call_handler h md c =
     (let msg = md_message md in
      c\<lparr>delivered := delivered c @ [\<lparr>dl_handler = h, dl_topic = md_topic_name md, dl_qos = msg_qos msg,
         dl_id = msg_id msg, dl_payload = deref_block (msg_payload msg) (msg_payloadlen msg)\<rparr>]\<rparr>)"

text \<open>\<open>strlen\<close> and \<open>memset\<close> to zero on a buffer.\<close>

fun strlen_at :: "bytes \<Rightarrow> nat option" where
  "strlen_at [] = None"
| "strlen_at (b # bs) = (if b = 0 then Some 0 else map_option Suc (strlen_at bs))"

definition zero_block :: "bytes \<Rightarrow> nat \<Rightarrow> nat \<Rightarrow> bytes option" where
  "zero_block buf i n = map_option fst (write_bytes (buf, i) (replicate n 0))"

text \<open>Topic and payload are pointers into the read buffer; both are cleared after the call.\<close>

definition mqtt_deliver_message :: "mqtt_client \<Rightarrow> MQTTString \<Rightarrow> mqtt_message \<Rightarrow> (int \<times> mqtt_client) option" where
  "mqtt_deliver_message c topic_name message =
     do {
       msg_handler \<leftarrow> mqtt_get_msg_handler c topic_name;
       (rc, c) \<leftarrow>
         (case msg_handler of
            Some p \<Rightarrow>
              do {
                h \<leftarrow> handlers c p;
                md \<leftarrow> mqtt_new_message_data topic_name message;
                Some (MQTT_SUCCESS_ERROR, call_handler (mh_handler h) md c)
              }
          | None \<Rightarrow>
              (case mqtt_interceptor_handler c of
                 Some h \<Rightarrow>
                   do {
                     md \<leftarrow> mqtt_new_message_data topic_name message;
                     Some (MQTT_SUCCESS_ERROR, call_handler h md c)
                   }
               | None \<Rightarrow> Some (MQTT_FAILED_ERROR, c)));
       (_, i) \<leftarrow> msg_payload message;
       n \<leftarrow> strlen_at (drop i (buf_bytes (mqtt_read_buf c)));
       buf \<leftarrow> zero_block (buf_bytes (mqtt_read_buf c)) i n;
       (_, j) \<leftarrow> lenstring_data topic_name;
       buf \<leftarrow> zero_block buf j (lenstring_len topic_name);
       Some (rc, c\<lparr>mqtt_read_buf := map_option (\<lambda>_. buf) (mqtt_read_buf c)\<rparr>)
     }"

section \<open>Scanning and cleaning\<close>

definition is_pub_ack :: "msgTypes \<Rightarrow> bool" where
  "is_pub_ack type \<longleftrightarrow> type = PUBACK \<or> type = PUBREC \<or> type = PUBREL \<or> type = PUBCOMP"

definition destroy_opt :: "addr option \<Rightarrow> mqtt_client \<Rightarrow> mqtt_client option" where
  "destroy_opt handler c = (case handler of None \<Rightarrow> Some c | Some p \<Rightarrow> mqtt_msg_handler_destory p c)"

fun scan_loop :: "u8 \<Rightarrow> ack_handlers list \<Rightarrow> ack_handlers list \<Rightarrow> mqtt_client \<Rightarrow> mqtt_client option" where
  "scan_loop flag kept [] c = Some c"
| "scan_loop flag kept (a # rest) c =
     (if \<not> timer_expired c (ah_timer a) \<and> flag = 1 then scan_loop flag (kept @ [a]) rest c
      else if is_pub_ack (ah_type a)
      then do {
        (a, c) \<leftarrow> mqtt_ack_handler_resend c a;
        scan_loop flag (kept @ [a]) rest (c\<lparr>mqtt_ack_handler_list := kept @ a # rest\<rparr>)
      }
      else do {
        c \<leftarrow> (if ah_type a = SUBACK \<or> ah_type a = UNSUBACK then destroy_opt (ah_handler a) c else Some c);
        scan_loop flag kept rest (mqtt_subtract_ack_handler_num (mqtt_ack_handler_destroy kept rest c))
      })"

definition mqtt_ack_list_scan :: "mqtt_client \<Rightarrow> u8 \<Rightarrow> mqtt_client option" where
  "mqtt_ack_list_scan c flag =
     (if mqtt_ack_handler_list c = [] \<or> mqtt_get_client_state c \<noteq> CLIENT_STATE_CONNECTED then Some c
      else scan_loop flag [] (mqtt_ack_handler_list c) c)"

fun clean_acks :: "ack_handlers list \<Rightarrow> mqtt_client \<Rightarrow> mqtt_client option" where
  "clean_acks [] c = Some c"
| "clean_acks (a # rest) c =
     do {
       c \<leftarrow> destroy_opt (ah_handler a) (mqtt_ack_handler_destroy [] rest c);
       clean_acks rest c
     }"

fun clean_msgs :: "addr list \<Rightarrow> mqtt_client \<Rightarrow> mqtt_client option" where
  "clean_msgs [] c = Some c"
| "clean_msgs (p # ps) c = do { c \<leftarrow> mqtt_msg_handler_destory p c; clean_msgs ps c }"

definition mqtt_clean_session :: "mqtt_client \<Rightarrow> mqtt_client option" where
  "mqtt_clean_session c =
     do {
       c \<leftarrow> clean_acks (mqtt_ack_handler_list c) c;
       let c = c\<lparr>mqtt_ack_handler_number := 0\<rparr>;
       c \<leftarrow> clean_msgs (mqtt_msg_handler_list c) c;
       Some (mqtt_set_client_state c CLIENT_STATE_INVALID)
     }"

section \<open>Answering an acknowledgement\<close>

definition send_ack :: "mqtt_client \<Rightarrow> int \<Rightarrow> (int \<times> mqtt_client) option" where
  "send_ack c len =
     (if len \<le> 0 then Some (MQTT_PUBLISH_ACK_PACKET_ERROR, c)
      else do { (rc, _, c) \<leftarrow> mqtt_send_packet c (nat len); Some (rc, c) })"

definition mqtt_publish_ack_packet :: "mqtt_client \<Rightarrow> u16 \<Rightarrow> u8 \<Rightarrow> (int \<times> mqtt_client) option" where
  "mqtt_publish_ack_packet c packet_id packet_type =
     do {
       c \<leftarrow> lock_write c;
       (rc, c) \<leftarrow>
         (if packet_type = msg_code PUBREC
          then do {
            (len, c) \<leftarrow> serialize_into c (\<lambda>buf n. MQTTSerialize_ack buf n PUBREL 0 packet_id);
            (rc, c) \<leftarrow> mqtt_ack_list_record c PUBCOMP packet_id (of_int len) None;
            if rc \<noteq> MQTT_SUCCESS_ERROR then Some (rc, c) else send_ack c len
          }
          else if packet_type = msg_code PUBREL
          then do {
            (len, c) \<leftarrow> serialize_into c (\<lambda>buf n. MQTTSerialize_ack buf n PUBCOMP 0 packet_id);
            send_ack c len
          }
          else Some (MQTT_PUBLISH_ACK_TYPE_ERROR, c));
       Some (rc, unlock_write c)
     }"

section \<open>Sending, seen from above\<close>

text \<open>Two clients agree but for the environment and the time of the last packet sent.\<close>

definition same :: "mqtt_client \<Rightarrow> mqtt_client \<Rightarrow> bool" where
  "same c c' \<longleftrightarrow> world.more (c'\<lparr>mqtt_last_sent := platform_timer_init\<rparr>) =
     world.more (c\<lparr>mqtt_last_sent := platform_timer_init\<rparr>)"

lemma same_refl [simp]: "same c c"
  by (simp add: same_def)

lemma same_trans: "same a b \<Longrightarrow> same b c \<Longrightarrow> same a c"
  by (simp add: same_def)

lemma same_more: "world.more c' = world.more c \<Longrightarrow> same c c'"
  by (cases c; cases c') (simp add: same_def)

lemma same_last_sent: "same c c' \<Longrightarrow> same c (c'\<lparr>mqtt_last_sent := t\<rparr>)"
  by (simp add: same_def)

lemma same_fields:
  assumes "same c c'"
  shows "mqtt_write_buf c' = mqtt_write_buf c" "mqtt_write_buf_size c' = mqtt_write_buf_size c"
    "mqtt_read_buf c' = mqtt_read_buf c" "mqtt_read_buf_size c' = mqtt_read_buf_size c"
    "mqtt_network c' = mqtt_network c" "mqtt_ack_handler_list c' = mqtt_ack_handler_list c"
    "mqtt_msg_handler_list c' = mqtt_msg_handler_list c" "mqtt_ack_handler_number c' = mqtt_ack_handler_number c"
    "handlers c' = handlers c" "next_addr c' = next_addr c" "mqtt_write_lock c' = mqtt_write_lock c"
    "mqtt_client_state c' = mqtt_client_state c" "mqtt_cmd_timeout c' = mqtt_cmd_timeout c"
    "delivered c' = delivered c" "mqtt_packet_id c' = mqtt_packet_id c"
    "mqtt_keep_alive_interval c' = mqtt_keep_alive_interval c"
    "mqtt_interceptor_handler c' = mqtt_interceptor_handler c"
    "mqtt_ping_outstanding c' = mqtt_ping_outstanding c" "mqtt_thread c' = mqtt_thread c"
    "mqtt_last_received c' = mqtt_last_received c" "thread_live c' = thread_live c"
  using assms by (cases c; cases c'; simp add: same_def)+

lemma send_packet_same:
  assumes "mqtt_network c = Some n" "len \<le> length (buf_bytes (mqtt_write_buf c))"
  shows "\<exists>rc timer c'. mqtt_send_packet c len = Some (rc, timer, c') \<and> same c c' \<and> rx c' = rx c \<and>
    allocs c' = allocs c \<and> junk16 c' = junk16 c \<and> (rc = MQTT_SUCCESS_ERROR \<or> rc = MQTT_SEND_PACKET_ERROR)"
proof -
  obtain s c' chunks where l: "send_loop len 0 (cmd_timer c) c = Some (s, c')" "sends c c' (net_socket n) chunks"
    using send_loop_spec [OF assms(1) refl assms(2)] by blast
  then have "same c c'" "rx c' = rx c" "allocs c' = allocs c" "junk16 c' = junk16 c"
    by (auto simp: sends_def intro: same_more)
  with l show ?thesis
    by (cases "s = len") (auto simp: mqtt_send_packet_def intro: same_last_sent)
qed

text \<open>On a kernel that takes everything at once the packet goes out in one piece.\<close>

lemma send_packet_smooth:
  assumes "mqtt_network c = Some n" "len \<le> length (buf_bytes (mqtt_write_buf c))" "tx c = []"
    and "0 < mqtt_cmd_timeout c" "0 < len"
  shows "mqtt_send_packet c len = Some (MQTT_SUCCESS_ERROR, cmd_timer c,
    c\<lparr>wire := wire c @ [(net_socket n, take len (buf_bytes (mqtt_write_buf c)))], mqtt_last_sent := keep_alive_timer c\<rparr>)"
proof -
  have ne: "\<not> timer_expired c (cmd_timer c)"
    using assms(4) by (simp add: timer_expired_def cmd_timer_def timer_cutdown_def linux.live word_less_nat_alt)
  have rd: "rd_block (buf_bytes (mqtt_write_buf c)) 0 len = Some (take len (buf_bytes (mqtt_write_buf c)))"
    using assms(2) by (simp add: rd_block_def)
  have "send_loop len 0 (cmd_timer c) c = send_loop len len (cmd_timer c)
      (c\<lparr>wire := wire c @ [(net_socket n, take len (buf_bytes (mqtt_write_buf c)))]\<rparr>)"
    using ne rd assms by (subst send_loop.simps) (auto simp: net_write_simps send_some_def min_def)
  also have "\<dots> = Some (len, c\<lparr>wire := wire c @ [(net_socket n, take len (buf_bytes (mqtt_write_buf c)))]\<rparr>)"
    by (subst send_loop.simps) simp
  finally show ?thesis
    by (simp add: mqtt_send_packet_def keep_alive_timer_def timer_cutdown_def)
qed

definition alloc_ok :: "'a world_scheme \<Rightarrow> bool" where
  "alloc_ok w \<longleftrightarrow> allocs w = [] \<or> hd (allocs w)"

lemma alloc_eq: "platform_memory_alloc w = (alloc_ok w, w\<lparr>allocs := tl (allocs w)\<rparr>)"
  by (cases "allocs w") (auto simp: platform_memory_alloc_def alloc_ok_def)

end
