(* ===== verification/Client_Invariant.thy ===== *)
theory Client_Invariant
  imports Client_Ack
begin

text \<open>
  The invariant of a client, and that the operations on its tables keep it. \<open>client_ok\<close> holds the
  parts: the buffers exist in their announced size, an acknowledgement record is found by
  its type and packet identifier, its stored packet fits the write buffer, the counter is the number
  of records, and every handler has one owner, so that nothing is freed twice. \<open>hok\<close> states the
  ownership on plain lists: the installed handlers, those a SUBACK record owns, those an
  UNSUBACK record refers to.
\<close>

section \<open>Ownership of message handlers\<close>

definition live_filter :: "(addr \<Rightarrow> message_handlers option) \<Rightarrow> addr \<Rightarrow> bool" where
  "live_filter hp p \<longleftrightarrow> (\<exists>h f. hp p = Some h \<and> mh_topic_filter h = Some f)"

definition filter_of :: "(addr \<Rightarrow> message_handlers option) \<Rightarrow> addr \<Rightarrow> bytes option" where
  "filter_of hp p = mh_topic_filter (the (hp p))"

definition hok :: "addr list \<Rightarrow> addr list \<Rightarrow> addr list \<Rightarrow> (addr \<Rightarrow> message_handlers option) \<Rightarrow> addr \<Rightarrow> bool" where
  "hok ms subs unsubs hp nx \<longleftrightarrow> distinct (ms @ subs) \<and> distinct unsubs \<and> set unsubs \<subseteq> set ms \<and>
     (\<forall>p\<in>set (ms @ subs). live_filter hp p) \<and> inj_on (filter_of hp) (set ms) \<and> (\<forall>p\<ge>nx. hp p = None)"

lemma hok_live: "hok ms subs unsubs hp nx \<Longrightarrow> p \<in> set ms \<union> set subs \<union> set unsubs \<Longrightarrow> live_filter hp p"
  by (auto simp: hok_def)

lemma hok_fresh: "hok ms subs us hp nx \<Longrightarrow> nx \<notin> set ms \<union> set subs \<union> set us"
  using hok_live [of ms subs us hp nx nx] by (auto simp: hok_def live_filter_def)

lemma filter_of_other [simp]: "p \<noteq> q \<Longrightarrow> filter_of (hp(p := x)) q = filter_of hp q"
  by (simp add: filter_of_def)

lemma inj_filter_remove:
  "inj_on (filter_of hp) (set ms) \<Longrightarrow> inj_on (filter_of (hp(p := x))) (set ms - {p})"
  by (rule inj_onI) (metis DiffD1 DiffD2 filter_of_other inj_onD singletonI)

lemma hok_drop_sub:
  assumes "hok ms (s1 @ p # s2) us hp nx"
  shows "hok (remove1 p ms) (s1 @ s2) us (hp(p := None)) nx"
proof -
  have "p \<notin> set ms" using assms by (auto simp: hok_def)
  with assms inj_filter_remove [of hp ms p None] show ?thesis
    by (auto simp: hok_def live_filter_def remove1_idem)
qed

lemma hok_install:
  "hok ms (s1 @ p # s2) us hp nx \<Longrightarrow> filter_of hp p \<notin> filter_of hp ` set ms \<Longrightarrow> hok (ms @ [p]) (s1 @ s2) us hp nx"
  by (auto simp: hok_def live_filter_def)

lemma hok_drop_unsub:
  assumes "hok ms subs (u1 @ p # u2) hp nx"
  shows "hok (remove1 p ms) subs (u1 @ u2) (hp(p := None)) nx"
proof -
  have "set (remove1 p ms) = set ms - {p}" using assms by (simp add: hok_def)
  with assms inj_filter_remove [of hp ms p None] show ?thesis by (auto simp: hok_def live_filter_def)
qed

lemma hok_leak:
  assumes "hok ms subs us hp nx"
  shows "hok ms subs us (hp(nx \<mapsto> h)) (Suc nx)"
proof -
  have n: "nx \<notin> set ms \<union> set subs" using hok_fresh [OF assms] by simp
  then have "set ms - {nx} = set ms" by auto
  with n assms inj_filter_remove [of hp ms nx "Some h"] show ?thesis by (auto simp: hok_def live_filter_def)
qed

lemma hok_new:
  assumes "hok ms subs us hp nx" "mh_topic_filter h = Some f"
  shows "hok ms (subs @ [nx]) us (hp(nx \<mapsto> h)) (Suc nx)"
  using hok_leak [OF assms(1), of h] hok_fresh [OF assms(1)] assms(2) by (auto simp: hok_def live_filter_def)

lemma hok_unsub: "hok ms subs us hp nx \<Longrightarrow> p \<in> set ms \<Longrightarrow> p \<notin> set us \<Longrightarrow> hok ms subs (us @ [p]) hp nx"
  by (auto simp: hok_def)

text \<open>The handlers that the records of one type refer to.\<close>

fun opt_list :: "'a option \<Rightarrow> 'a list" where
  "opt_list None = []"
| "opt_list (Some x) = [x]"

lemma set_opt_list [simp]: "set (opt_list x) = set_option x"
  by (cases x) auto

fun refs :: "msgTypes \<Rightarrow> ack_handlers list \<Rightarrow> addr list" where
  "refs t [] = []"
| "refs t (a # as) = (if ah_type a = t then opt_list (ah_handler a) else []) @ refs t as"

lemma refs_append [simp]: "refs t (as @ bs) = refs t as @ refs t bs"
  by (induction as) auto

lemma set_refs: "p \<in> set (refs t as) \<longleftrightarrow> (\<exists>a\<in>set as. ah_type a = t \<and> ah_handler a = Some p)"
  by (induction as) auto

section \<open>The invariant\<close>

definition ack_key :: "ack_handlers \<Rightarrow> msgTypes \<times> u16" where
  "ack_key a = (ah_type a, ah_packet_id a)"

definition ack_wf :: "nat \<Rightarrow> ack_handlers \<Rightarrow> bool" where
  "ack_wf n a \<longleftrightarrow> length (ah_payload a) = unat (ah_payload_len a) \<and> length (ah_payload a) \<le> n \<and>
     (ah_handler a \<noteq> None \<longleftrightarrow> ah_type a = SUBACK \<or> ah_type a = UNSUBACK)"

definition bufs_ok :: "mqtt_client \<Rightarrow> bool" where
  "bufs_ok c \<longleftrightarrow> mqtt_network c \<noteq> None \<and>
     (\<exists>wb. mqtt_write_buf c = Some wb \<and> length wb = unat (mqtt_write_buf_size c)) \<and>
     (\<exists>rb. mqtt_read_buf c = Some rb \<and> length rb = unat (mqtt_read_buf_size c)) \<and>
     4 \<le> unat (mqtt_write_buf_size c) \<and> unat (mqtt_write_buf_size c) < 268435455"

definition acks_ok :: "mqtt_client \<Rightarrow> bool" where
  "acks_ok c \<longleftrightarrow> distinct (map ack_key (mqtt_ack_handler_list c)) \<and>
     unat (mqtt_ack_handler_number c) = length (mqtt_ack_handler_list c) \<and>
     (\<forall>a\<in>set (mqtt_ack_handler_list c). ack_wf (unat (mqtt_write_buf_size c)) a)"

definition handlers_ok :: "mqtt_client \<Rightarrow> bool" where
  "handlers_ok c \<longleftrightarrow> hok (mqtt_msg_handler_list c) (refs SUBACK (mqtt_ack_handler_list c))
     (refs UNSUBACK (mqtt_ack_handler_list c)) (handlers c) (next_addr c)"

definition client_ok :: "mqtt_client \<Rightarrow> bool" where
  "client_ok c \<longleftrightarrow> bufs_ok c \<and> acks_ok c \<and> handlers_ok c"

lemmas client_ok_defs = client_ok_def bufs_ok_def acks_ok_def handlers_ok_def

lemma client_ok_same: "same c c' \<Longrightarrow> client_ok c \<Longrightarrow> client_ok c'"
  by (simp add: client_ok_defs same_fields)

lemma client_ok_upd [simp]:
  "client_ok (c\<lparr>allocs := x1\<rparr>) = client_ok c"
  "client_ok (c\<lparr>mqtt_write_lock := x2\<rparr>) = client_ok c"
  "client_ok (c\<lparr>mqtt_client_state := x3\<rparr>) = client_ok c"
  "client_ok (c\<lparr>mqtt_packet_id := x4\<rparr>) = client_ok c"
  "client_ok (c\<lparr>mqtt_ping_outstanding := x5\<rparr>) = client_ok c"
  "client_ok (c\<lparr>mqtt_last_received := x6\<rparr>) = client_ok c"
  "client_ok (c\<lparr>mqtt_last_sent := x7\<rparr>) = client_ok c"
  "client_ok (c\<lparr>delivered := x8\<rparr>) = client_ok c"
  "client_ok (c\<lparr>mqtt_thread := x9\<rparr>) = client_ok c"
  "client_ok (c\<lparr>thread_live := x9\<rparr>) = client_ok c"
  "client_ok (c\<lparr>wire := x10\<rparr>) = client_ok c"
  "client_ok (c\<lparr>rx := x11\<rparr>) = client_ok c"
  "client_ok (c\<lparr>now_us := x12\<rparr>) = client_ok c"
  by (simp_all add: client_ok_defs)

lemma client_ok_wbuf:
  assumes "client_ok c"
  shows "\<exists>wb. mqtt_write_buf c = Some wb \<and> length wb = unat (mqtt_write_buf_size c) \<and> 4 \<le> length wb"
  using assms by (auto simp: client_ok_defs)

lemma client_ok_write:
  assumes "client_ok c" "length wb = unat (mqtt_write_buf_size c)"
  shows "client_ok (c\<lparr>mqtt_write_buf := Some wb\<rparr>)"
  using assms by (auto simp: client_ok_defs)

lemma client_ok_read:
  assumes "client_ok c" "length rb = unat (mqtt_read_buf_size c)"
  shows "client_ok (c\<lparr>mqtt_read_buf := Some rb\<rparr>)"
  using assms by (auto simp: client_ok_defs)

text \<open>The keys bound the number of records, so the 24-bit counter cannot wrap.\<close>

lemma card_keys: "distinct (map ack_key as) \<Longrightarrow> length as \<le> 14 * 65536"
proof -
  assume d: "distinct (map ack_key as)"
  have "card (UNIV :: (msgTypes \<times> u16) set) = 14 * 65536"
    using card_cartesian_product [of "UNIV :: msgTypes set" "UNIV :: u16 set"]
    by (simp add: card_msgTypes card_word)
  moreover have "card (set (map ack_key as)) \<le> card (UNIV :: (msgTypes \<times> u16) set)"
    by (rule card_mono) simp_all
  ultimately show ?thesis using d distinct_card [OF d] by simp
qed

section \<open>Recording and removing\<close>

definition new_ack :: "mqtt_client \<Rightarrow> msgTypes \<Rightarrow> u16 \<Rightarrow> u16 \<Rightarrow> addr option \<Rightarrow> ack_handlers" where
  "new_ack c t pid plen h = \<lparr>ah_timer = cmd_timer c, ah_type = t, ah_packet_id = pid, ah_handler = h,
     ah_payload_len = plen, ah_payload = take (unat plen) (buf_bytes (mqtt_write_buf c))\<rparr>"

lemma new_ack_simps [simp]:
  "ah_type (new_ack c t pid plen h) = t" "ah_handler (new_ack c t pid plen h) = h"
  "ack_key (new_ack c t pid plen h) = (t, pid)" "ah_timer (new_ack c t pid plen h) = cmd_timer c"
  "ah_payload (new_ack c t pid plen h) = take (unat plen) (buf_bytes (mqtt_write_buf c))"
  by (simp_all add: new_ack_def ack_key_def)

definition add_ack :: "mqtt_client \<Rightarrow> ack_handlers \<Rightarrow> mqtt_client" where
  "add_ack c a = c\<lparr>mqtt_ack_handler_number := mqtt_ack_handler_number c + 1,
     mqtt_ack_handler_list := mqtt_ack_handler_list c @ [a]\<rparr>"

lemma exist_key: "mqtt_ack_list_node_is_exist c t pid \<longleftrightarrow> (t, pid) \<in> ack_key ` set (mqtt_ack_handler_list c)"
  by (auto simp: mqtt_ack_list_node_is_exist_def list_ex_iff ack_key_def)

lemma cmd_timer_allocs [simp]: "cmd_timer (c\<lparr>allocs := x\<rparr>) = cmd_timer c"
  by (simp add: cmd_timer_def timer_cutdown_def)

lemma record_eq:
  assumes "unat plen \<le> length (buf_bytes (mqtt_write_buf c))"
  shows "mqtt_ack_list_record c t pid plen h = Some
    (if (t, pid) \<in> ack_key ` set (mqtt_ack_handler_list c) then (MQTT_ACK_NODE_IS_EXIST_ERROR, c)
     else if \<not> alloc_ok c then (MQTT_MEM_NOT_ENOUGH_ERROR, c\<lparr>allocs := tl (allocs c)\<rparr>)
     else (MQTT_SUCCESS_ERROR, add_ack (c\<lparr>allocs := tl (allocs c)\<rparr>) (new_ack c t pid plen h)))"
  using assms
  by (simp add: mqtt_ack_list_record_def exist_key mqtt_ack_handler_create_def alloc_eq rd_block_def
      add_ack_def new_ack_def mqtt_add_ack_handler_num_def)

lemma acks_ok_add:
  assumes "acks_ok c" "ack_key a \<notin> ack_key ` set (mqtt_ack_handler_list c)" "ack_wf (unat (mqtt_write_buf_size c)) a"
  shows "acks_ok (add_ack c a)"
proof -
  have d: "distinct (map ack_key (mqtt_ack_handler_list c @ [a]))" using assms by (simp add: acks_ok_def)
  from card_keys [OF this] have "unat (mqtt_ack_handler_number c) < 16777215" using assms(1) by (simp add: acks_ok_def)
  then have "unat (mqtt_ack_handler_number c + 1) = Suc (unat (mqtt_ack_handler_number c))"
    by (simp add: unat_word_ariths)
  with d assms show ?thesis by (simp add: acks_ok_def add_ack_def)
qed

lemma add_ack_fields [simp]:
  "mqtt_ack_handler_list (add_ack c a) = mqtt_ack_handler_list c @ [a]" "bufs_ok (add_ack c a) = bufs_ok c"
  "mqtt_msg_handler_list (add_ack c a) = mqtt_msg_handler_list c" "handlers (add_ack c a) = handlers c"
  "next_addr (add_ack c a) = next_addr c" "mqtt_write_lock (add_ack c a) = mqtt_write_lock c"
  "mqtt_network (add_ack c a) = mqtt_network c" "mqtt_client_state (add_ack c a) = mqtt_client_state c"
  "delivered (add_ack c a) = delivered c" "mqtt_read_buf (add_ack c a) = mqtt_read_buf c"
  "wire (add_ack c a) = wire c" "mqtt_write_buf (add_ack c a) = mqtt_write_buf c"
  "mqtt_cmd_timeout (add_ack c a) = mqtt_cmd_timeout c" "tx (add_ack c a) = tx c"
  by (simp_all add: add_ack_def bufs_ok_def)

lemma new_ack_wf:
  assumes "client_ok c" "unat plen \<le> unat (mqtt_write_buf_size c)" "h \<noteq> None \<longleftrightarrow> t = SUBACK \<or> t = UNSUBACK"
  shows "ack_wf (unat (mqtt_write_buf_size c)) (new_ack c t pid plen h)"
  using assms by (auto simp: client_ok_defs ack_wf_def new_ack_def buf_bytes_def)

text \<open>The state with one record removed.\<close>

definition drop_ack :: "ack_handlers list \<Rightarrow> ack_handlers list \<Rightarrow> mqtt_client \<Rightarrow> mqtt_client" where
  "drop_ack kept rest c = c\<lparr>mqtt_ack_handler_number := mqtt_ack_handler_number c - 1,
     mqtt_ack_handler_list := kept @ rest\<rparr>"

lemma drop_ack_eq:
  assumes "acks_ok c" "mqtt_ack_handler_list c = kept @ a # rest"
  shows "mqtt_subtract_ack_handler_num (mqtt_ack_handler_destroy kept rest c) = drop_ack kept rest c"
proof -
  have "unat (mqtt_ack_handler_number c) \<noteq> 0" using assms by (simp add: acks_ok_def)
  then have "\<not> mqtt_ack_handler_number c \<le> 0" by (simp add: word_le_nat_alt)
  then show ?thesis by (simp add: mqtt_subtract_ack_handler_num_def mqtt_ack_handler_destroy_def drop_ack_def)
qed

lemma acks_ok_drop:
  assumes "acks_ok c" "mqtt_ack_handler_list c = kept @ a # rest"
  shows "acks_ok (drop_ack kept rest c)"
proof -
  have n: "unat (mqtt_ack_handler_number c) = Suc (length kept + length rest)" using assms by (simp add: acks_ok_def)
  then have "mqtt_ack_handler_number c \<noteq> 0" by auto
  then have "unat (mqtt_ack_handler_number c - 1) = length kept + length rest" using n by (simp add: unat_minus_one)
  with assms show ?thesis by (auto simp: acks_ok_def drop_ack_def)
qed

lemma drop_ack_fields [simp]:
  "mqtt_ack_handler_list (drop_ack kept rest c) = kept @ rest" "bufs_ok (drop_ack kept rest c) = bufs_ok c"
  "mqtt_msg_handler_list (drop_ack kept rest c) = mqtt_msg_handler_list c"
  "handlers (drop_ack kept rest c) = handlers c" "next_addr (drop_ack kept rest c) = next_addr c"
  "mqtt_write_lock (drop_ack kept rest c) = mqtt_write_lock c"
  "mqtt_client_state (drop_ack kept rest c) = mqtt_client_state c"
  "delivered (drop_ack kept rest c) = delivered c" "mqtt_network (drop_ack kept rest c) = mqtt_network c"
  "wire (drop_ack kept rest c) = wire c" "mqtt_write_buf (drop_ack kept rest c) = mqtt_write_buf c"
  "mqtt_read_buf (drop_ack kept rest c) = mqtt_read_buf c"
  "mqtt_write_buf_size (drop_ack kept rest c) = mqtt_write_buf_size c"
  "mqtt_read_buf_size (drop_ack kept rest c) = mqtt_read_buf_size c"
  by (simp_all add: drop_ack_def bufs_ok_def)

lemma client_ok_drop_pub:
  assumes "client_ok c" "mqtt_ack_handler_list c = kept @ a # rest" "ah_handler a = None"
  shows "client_ok (drop_ack kept rest c)"
proof -
  have "refs t [a] = []" for t using assms(3) by simp
  then have "handlers_ok (drop_ack kept rest c)"
    using assms by (simp add: client_ok_def handlers_ok_def)
  with acks_ok_drop [OF _ assms(2)] assms(1) show ?thesis by (simp add: client_ok_def)
qed

definition free_handler :: "addr \<Rightarrow> mqtt_client \<Rightarrow> mqtt_client" where
  "free_handler p c = c\<lparr>mqtt_msg_handler_list := remove1 p (mqtt_msg_handler_list c),
     handlers := (handlers c)(p := None)\<rparr>"

lemma destroy_live: "live_filter (handlers c) p \<Longrightarrow> mqtt_msg_handler_destory p c = Some (free_handler p c)"
  by (auto simp: mqtt_msg_handler_destory_def free_handler_def live_filter_def)

lemma free_handler_fields [simp]:
  "mqtt_ack_handler_list (free_handler p c) = mqtt_ack_handler_list c" "bufs_ok (free_handler p c) = bufs_ok c"
  "acks_ok (free_handler p c) = acks_ok c" "mqtt_write_lock (free_handler p c) = mqtt_write_lock c"
  "mqtt_client_state (free_handler p c) = mqtt_client_state c" "handlers (free_handler p c) = (handlers c)(p := None)"
  "mqtt_msg_handler_list (free_handler p c) = remove1 p (mqtt_msg_handler_list c)"
  "delivered (free_handler p c) = delivered c" "next_addr (free_handler p c) = next_addr c"
  "mqtt_network (free_handler p c) = mqtt_network c" "mqtt_read_buf (free_handler p c) = mqtt_read_buf c"
  by (simp_all add: free_handler_def bufs_ok_def acks_ok_def)

text \<open>The handler a record refers to is alive; freeing it together with the record keeps the invariant.\<close>

lemma client_ok_drop_free:
  assumes "client_ok c" "mqtt_ack_handler_list c = kept @ a # rest" "ah_handler a = Some p"
  shows "live_filter (handlers c) p" "client_ok (drop_ack kept rest (free_handler p c))"
    "client_ok (free_handler p (drop_ack kept rest c))"
proof -
  have t: "ah_type a = SUBACK \<or> ah_type a = UNSUBACK"
    using assms by (auto simp: client_ok_def acks_ok_def ack_wf_def)
  have h: "handlers_ok c" using assms(1) by (simp add: client_ok_def)
  have "hok (remove1 p (mqtt_msg_handler_list c)) (refs SUBACK (kept @ rest)) (refs UNSUBACK (kept @ rest))
      ((handlers c)(p := None)) (next_addr c) \<and> live_filter (handlers c) p"
    using t
  proof
    assume a: "ah_type a = SUBACK"
    with h assms(2,3) have "hok (mqtt_msg_handler_list c) (refs SUBACK kept @ p # refs SUBACK rest)
        (refs UNSUBACK (kept @ rest)) (handlers c) (next_addr c)" by (simp add: handlers_ok_def)
    from hok_drop_sub [OF this] hok_live [OF this, of p] show ?thesis by simp
  next
    assume a: "ah_type a = UNSUBACK"
    with h assms(2,3) have "hok (mqtt_msg_handler_list c) (refs SUBACK (kept @ rest))
        (refs UNSUBACK kept @ p # refs UNSUBACK rest) (handlers c) (next_addr c)" by (simp add: handlers_ok_def)
    from hok_drop_unsub [OF this] hok_live [OF this, of p] show ?thesis by simp
  qed
  then show "live_filter (handlers c) p" "client_ok (drop_ack kept rest (free_handler p c))"
      "client_ok (free_handler p (drop_ack kept rest c))"
    using acks_ok_drop [OF _ assms(2)] acks_ok_drop [of "free_handler p c" kept a rest] assms(1,2)
    by (simp_all add: client_ok_def handlers_ok_def)
qed

text \<open>Removing by type and identifier hits the one record with that key, or none.\<close>

definition matches :: "u8 \<Rightarrow> u16 \<Rightarrow> ack_handlers \<Rightarrow> bool" where
  "matches ptype pid a \<longleftrightarrow> pid = ah_packet_id a \<and> ptype = msg_code (ah_type a)"

lemma matches_key: "matches (msg_code t) pid a \<longleftrightarrow> ack_key a = (t, pid)"
  by (auto simp: matches_def ack_key_def)

lemma unrecord_absent:
  "\<forall>a\<in>set rest. \<not> matches ptype pid a \<Longrightarrow> unrecord_loop ptype pid kept rest h c = (h, c)"
  by (induction rest arbitrary: kept) (simp_all add: matches_def)

lemma unrecord_hit:
  "\<forall>b\<in>set r1 \<union> set r2. \<not> matches ptype pid b \<Longrightarrow> matches ptype pid a \<Longrightarrow>
   unrecord_loop ptype pid kept (r1 @ a # r2) h c =
     (Some (ah_handler a), mqtt_subtract_ack_handler_num (mqtt_ack_handler_destroy (kept @ r1) r2 c))"
proof (induction r1 arbitrary: kept)
  case Nil
  then show ?case by (simp add: matches_def unrecord_absent)
next
  case (Cons b r1)
  then show ?case by (simp add: matches_def)
qed

lemma unrecord_present:
  assumes "acks_ok c" "mqtt_ack_handler_list c = kept @ a # rest" "matches ptype pid a"
  shows "mqtt_ack_list_unrecord c ptype pid = (Some (ah_handler a), drop_ack kept rest c)"
proof -
  have ne: "ack_key b \<noteq> ack_key a" if "b \<in> set kept \<union> set rest" for b
    using assms(1,2) that by (auto simp: acks_ok_def image_iff)
  have "matches ptype pid b \<Longrightarrow> ack_key b = ack_key a" for b
    using assms(3) by (simp add: matches_def ack_key_def)
  with ne have "\<forall>b\<in>set kept \<union> set rest. \<not> matches ptype pid b" by blast
  from unrecord_hit [OF this assms(3), of "[]"] drop_ack_eq [OF assms(1,2)] assms(2) show ?thesis
    by (simp add: mqtt_ack_list_unrecord_def)
qed

lemma unrecord_cases:
  assumes "acks_ok c"
  obtains "\<forall>a\<in>set (mqtt_ack_handler_list c). \<not> matches ptype pid a" "mqtt_ack_list_unrecord c ptype pid = (None, c)"
  | kept a rest where "mqtt_ack_handler_list c = kept @ a # rest" "matches ptype pid a"
      "mqtt_ack_list_unrecord c ptype pid = (Some (ah_handler a), drop_ack kept rest c)"
proof (cases "\<exists>a\<in>set (mqtt_ack_handler_list c). matches ptype pid a")
  case True
  then obtain kept a rest where "mqtt_ack_handler_list c = kept @ a # rest" "matches ptype pid a"
    by (metis split_list)
  with unrecord_present [OF assms this] that(2) show ?thesis by blast
next
  case False
  then have "mqtt_ack_list_unrecord c ptype pid = (None, c)"
    by (simp add: mqtt_ack_list_unrecord_def unrecord_absent)
  with False that(1) show ?thesis by blast
qed

end
