(* ===== verification/Client_Tables.thy ===== *)
theory Client_Tables
  imports Client_Invariant
begin

text \<open>
  What the operations on the two tables of the client do in a client that meets its invariant:
  installing and finding message handlers, recording and removing acknowledgements, the
  periodic scan and the end of a session. \<open>id_table\<close> is the contract of a table of identifiers on
  which duplicates are recognised; the list of acknowledgement records meets it.
\<close>

section \<open>A table of identifiers\<close>

locale id_table =
  fixes present :: "'s \<Rightarrow> 'k \<Rightarrow> bool"
    and enter :: "'k \<Rightarrow> 's \<Rightarrow> 's"
    and remove :: "'k \<Rightarrow> 's \<Rightarrow> 's"
  assumes present_enter: "present (enter k s) j \<longleftrightarrow> j = k \<or> present s j"
    and present_remove: "present (remove k s) j \<longleftrightarrow> j \<noteq> k \<and> present s j"
begin

text \<open>A receiver of identified messages: \<open>Inl k\<close> is a message, passed on when its identifier is not in
  the table and entered there; \<open>Inr k\<close> is the release of the identifier.\<close>

fun receive :: "('k + 'k) list \<Rightarrow> 's \<Rightarrow> bool list \<times> 's" where
  "receive [] s = ([], s)"
| "receive (Inl k # es) s =
     (let (ds, s') = receive es (if present s k then s else enter k s) in ((\<not> present s k) # ds, s'))"
| "receive (Inr k # es) s = (let (ds, s') = receive es (remove k s) in (False # ds, s'))"

lemma length_receive [simp]: "length (fst (receive es s)) = length es"
  by (induction es s rule: receive.induct) (simp_all add: case_prod_unfold Let_def)

lemma receive_append: "receive (es @ fs) s =
    (fst (receive es s) @ fst (receive fs (snd (receive es s))), snd (receive fs (snd (receive es s))))"
  by (induction es s rule: receive.induct) (simp_all add: case_prod_unfold Let_def)

text \<open>Between two releases of an identifier exactly the first of its messages is passed on.\<close>

lemma passed_once:
  assumes "\<not> present s k" "Inr k \<notin> set es"
  shows "[d \<leftarrow> zip es (fst (receive es s)). fst d = Inl k \<and> snd d] = (if Inl k \<in> set es then [(Inl k, True)] else [])"
  using assms
proof (induction es arbitrary: s)
  case (Cons e es)
  have none: "[d \<leftarrow> zip fs (fst (receive fs t)). fst d = Inl k \<and> snd d] = []"
    if "present t k" "Inr k \<notin> set fs" for fs t
    using that
  proof (induction fs arbitrary: t)
    case (Cons f fs)
    show ?case
    proof (cases f)
      case (Inl j)
      with Cons.prems Cons.IH [of "if present t j then t else enter j t"] show ?thesis
        by (auto simp: case_prod_unfold Let_def present_enter)
    next
      case (Inr j)
      with Cons.prems Cons.IH [of "remove j t"] show ?thesis
        by (auto simp: case_prod_unfold Let_def present_remove)
    qed
  qed simp
  show ?case
  proof (cases e)
    case (Inl j)
    show ?thesis
    proof (cases "j = k")
      case True
      with Inl Cons.prems none [of "enter k s" es] show ?thesis
        by (simp add: case_prod_unfold Let_def present_enter)
    next
      case False
      with Inl Cons.prems Cons.IH [of "if present s j then s else enter j s"] show ?thesis
        by (auto simp: case_prod_unfold Let_def present_enter)
    qed
  next
    case (Inr j)
    with Cons.prems Cons.IH [of "remove j s"] show ?thesis
      by (auto simp: case_prod_unfold Let_def present_remove)
  qed
qed simp

end

text \<open>The records of one type, as the client enters and removes them.\<close>

definition has_key :: "ack_handlers list \<Rightarrow> msgTypes \<times> u16 \<Rightarrow> bool" where
  "has_key as k \<longleftrightarrow> k \<in> ack_key ` set as"

definition enter_key :: "(msgTypes \<times> u16 \<Rightarrow> ack_handlers) \<Rightarrow> msgTypes \<times> u16 \<Rightarrow> ack_handlers list \<Rightarrow> ack_handlers list" where
  "enter_key mk k as = as @ [(mk k)\<lparr>ah_type := fst k, ah_packet_id := snd k\<rparr>]"

definition remove_key :: "msgTypes \<times> u16 \<Rightarrow> ack_handlers list \<Rightarrow> ack_handlers list" where
  "remove_key k as = filter (\<lambda>a. ack_key a \<noteq> k) as"

interpretation ack_table: id_table has_key "enter_key mk" remove_key for mk
  by unfold_locales (auto simp: has_key_def enter_key_def remove_key_def ack_key_def)

lemma record_table:
  assumes "mqtt_ack_list_record c t pid plen h = Some (MQTT_SUCCESS_ERROR, c')"
  shows "\<not> has_key (mqtt_ack_handler_list c) (t, pid)"
    and "\<exists>mk. mqtt_ack_handler_list c' = enter_key mk (t, pid) (mqtt_ack_handler_list c)"
proof -
  obtain xs where xs: "\<not> has_key (mqtt_ack_handler_list c) (t, pid)"
      "mqtt_ack_handler_list c' = mqtt_ack_handler_list c @
        [\<lparr>ah_timer = cmd_timer c, ah_type = t, ah_packet_id = pid, ah_handler = h, ah_payload_len = plen, ah_payload = xs\<rparr>]"
    using assms
    by (auto simp: mqtt_ack_list_record_def exist_key has_key_def mqtt_errors mqtt_ack_handler_create_def alloc_eq
        mqtt_add_ack_handler_num_def Let_def split: if_splits bind_splits)
  then show "\<not> has_key (mqtt_ack_handler_list c) (t, pid)" by simp
  from xs(2) show "\<exists>mk. mqtt_ack_handler_list c' = enter_key mk (t, pid) (mqtt_ack_handler_list c)"
    by (intro exI [of _ "\<lambda>_. \<lparr>ah_timer = cmd_timer c, ah_type = t, ah_packet_id = pid, ah_handler = h,
        ah_payload_len = plen, ah_payload = xs\<rparr>"]) (simp add: enter_key_def)
qed

lemma unrecord_table:
  assumes "acks_ok c"
  shows "mqtt_ack_handler_list (snd (mqtt_ack_list_unrecord c (msg_code t) pid)) =
    remove_key (t, pid) (mqtt_ack_handler_list c)"
proof -
  have keep: "remove_key (t, pid) as = as" if "(t, pid) \<notin> ack_key ` set as" for as
    using that unfolding remove_key_def by (intro filter_True) (metis image_eqI)
  show ?thesis
  proof (rule unrecord_cases [OF assms, of "msg_code t" pid])
    assume a: "\<forall>a\<in>set (mqtt_ack_handler_list c). \<not> matches (msg_code t) pid a"
      "mqtt_ack_list_unrecord c (msg_code t) pid = (None, c)"
    then have "(t, pid) \<notin> ack_key ` set (mqtt_ack_handler_list c)"
      unfolding matches_key by auto
    with a(2) keep show ?thesis by simp
  next
    fix kept a rest
    assume a: "mqtt_ack_handler_list c = kept @ a # rest" "matches (msg_code t) pid a"
      "mqtt_ack_list_unrecord c (msg_code t) pid = (Some (ah_handler a), drop_ack kept rest c)"
    then have k: "ack_key a = (t, pid)" by (simp add: matches_key)
    then have "(t, pid) \<notin> ack_key ` set (kept @ rest)" using assms a(1) unfolding acks_ok_def
      by (auto simp: image_iff)
    with keep [of "kept @ rest"] a k show ?thesis by (simp add: remove_key_def)
  qed
qed

section \<open>Message handlers\<close>

lemma filter_exists_eq:
  "\<forall>q\<in>set ps. live_filter (handlers c) q \<Longrightarrow> live_filter (handlers c) p \<Longrightarrow>
   filter_exists c p ps = Some (filter_of (handlers c) p \<in> filter_of (handlers c) ` set ps)"
  by (induction ps) (auto simp: live_filter_def filter_of_def)

text \<open>Installing the handler of an acknowledged subscription, once its record is gone.\<close>

lemma install_spec:
  assumes "client_ok c" "mqtt_ack_handler_list c = kept @ a # rest" "ah_type a = SUBACK" "ah_handler a = Some p"
  shows "\<exists>c'. mqtt_msg_handlers_install (drop_ack kept rest c) (Some p) = Some (MQTT_SUCCESS_ERROR, c') \<and>
    client_ok c' \<and> mqtt_write_lock c' = mqtt_write_lock c \<and>
    c' = (if filter_of (handlers c) p \<in> filter_of (handlers c) ` set (mqtt_msg_handler_list c)
          then free_handler p (drop_ack kept rest c)
          else (drop_ack kept rest c)\<lparr>mqtt_msg_handler_list := mqtt_msg_handler_list c @ [p]\<rparr>)"
proof -
  let ?c = "drop_ack kept rest c"
  have h: "hok (mqtt_msg_handler_list c) (refs SUBACK kept @ p # refs SUBACK rest)
      (refs UNSUBACK (kept @ rest)) (handlers c) (next_addr c)"
    using assms by (simp add: client_ok_def handlers_ok_def)
  have live: "\<forall>q\<in>set (mqtt_msg_handler_list c). live_filter (handlers c) q" "live_filter (handlers c) p"
    using hok_live [OF h] by auto
  have ex: "mqtt_msg_handler_is_exist ?c p =
      Some (filter_of (handlers c) p \<in> filter_of (handlers c) ` set (mqtt_msg_handler_list c))"
    using filter_exists_eq [of "mqtt_msg_handler_list c" ?c p] live by (simp add: mqtt_msg_handler_is_exist_def)
  show ?thesis
  proof (cases "filter_of (handlers c) p \<in> filter_of (handlers c) ` set (mqtt_msg_handler_list c)")
    case True
    with ex client_ok_drop_free [OF assms(1,2,4)] destroy_live [of ?c p] show ?thesis
      by (simp add: mqtt_msg_handlers_install_def)
  next
    case False
    let ?c' = "?c\<lparr>mqtt_msg_handler_list := mqtt_msg_handler_list c @ [p]\<rparr>"
    have "handlers_ok ?c'" using hok_install [OF h False] by (simp add: handlers_ok_def)
    moreover have "acks_ok ?c'" "bufs_ok ?c'"
      using acks_ok_drop [OF _ assms(2)] assms(1) by (simp_all add: client_ok_def acks_ok_def bufs_ok_def)
    ultimately have "client_ok ?c'" by (simp add: client_ok_def)
    with False ex show ?thesis by (simp add: mqtt_msg_handlers_install_def)
  qed
qed

text \<open>Whether a filter accepts a topic, as the search decides it.\<close>

definition accepts :: "MQTTString \<Rightarrow> bytes \<Rightarrow> bool" where
  "accepts t f \<longleftrightarrow> MQTTPacket_equals t f = Some True \<or> mqtt_topic_is_matched f t = Some True"

definition topic_wf :: "MQTTString \<Rightarrow> bool" where
  "topic_wf t \<longleftrightarrow> deref_block (lenstring_data t) (lenstring_len t) \<noteq> None"

lemma get_handler_loop_eq:
  "\<forall>q\<in>set ps. live_filter (handlers c) q \<Longrightarrow> topic_wf t \<Longrightarrow>
   get_handler_loop c t ps = Some (find (\<lambda>p. accepts t (the (filter_of (handlers c) p))) ps)"
proof (induction ps)
  case (Cons p ps)
  then obtain h f where hf: "handlers c p = Some h" "mh_topic_filter h = Some f" by (auto simp: live_filter_def)
  from Cons.prems(2) obtain xs where xs: "deref_block (lenstring_data t) (lenstring_len t) = Some xs"
    by (auto simp: topic_wf_def)
  have "MQTTPacket_equals t f \<noteq> None" using xs
    by (cases "cstring t"; cases "lenstring_len t = length f") (simp_all add: MQTTPacket_equals_def)
  then obtain e where e: "MQTTPacket_equals t f = Some e" by blast
  obtain m where m: "mqtt_topic_is_matched f t = Some m"
    using xs by (cases "topic_loop f xs") (simp add: mqtt_topic_is_matched_def)
  note em = e m
  have "accepts t (the (filter_of (handlers c) p)) \<longleftrightarrow> e \<or> m"
    using hf em by (simp add: accepts_def filter_of_def)
  with Cons hf em show ?case by simp
qed simp

lemma get_handler_eq:
  assumes "client_ok c" "topic_wf t"
  shows "mqtt_get_msg_handler c t =
    Some (find (\<lambda>p. accepts t (the (filter_of (handlers c) p))) (mqtt_msg_handler_list c))"
  using assms hok_live [of "mqtt_msg_handler_list c"]
  by (auto simp: mqtt_get_msg_handler_def client_ok_def handlers_ok_def intro!: get_handler_loop_eq)

section \<open>Resending and scanning\<close>

lemma client_ok_retime:
  assumes "client_ok c" "mqtt_ack_handler_list c = kept @ a # rest"
  shows "client_ok (c\<lparr>mqtt_ack_handler_list := kept @ a\<lparr>ah_timer := t\<rparr> # rest\<rparr>)"
proof -
  have "ack_key (a\<lparr>ah_timer := t\<rparr>) = ack_key a" "ack_wf k (a\<lparr>ah_timer := t\<rparr>) = ack_wf k a" for k
    by (simp_all add: ack_key_def ack_wf_def)
  moreover have "refs ty (kept @ a\<lparr>ah_timer := t\<rparr> # rest) = refs ty (kept @ a # rest)" for ty by simp
  ultimately show ?thesis using assms
    by (simp add: client_ok_def bufs_ok_def acks_ok_def handlers_ok_def del: refs_append refs.simps)
qed

definition smooth :: "mqtt_client \<Rightarrow> bool" where
  "smooth c \<longleftrightarrow> tx c = [] \<and> 0 < mqtt_cmd_timeout c"

lemma resend_ok:
  assumes "client_ok c" "\<not> mqtt_write_lock c" "ack_wf (unat (mqtt_write_buf_size c)) a" "mqtt_network c = Some n"
  shows "\<exists>c'. mqtt_ack_handler_resend c a = Some (a\<lparr>ah_timer := cmd_timer c\<rparr>, c') \<and> client_ok c' \<and>
    \<not> mqtt_write_lock c' \<and> mqtt_ack_handler_list c' = mqtt_ack_handler_list c \<and> mqtt_network c' = Some n \<and>
    mqtt_client_state c' = mqtt_client_state c \<and> delivered c' = delivered c \<and>
    (smooth c \<and> ah_payload a \<noteq> [] \<longrightarrow>
       smooth c' \<and> now_us c' = now_us c \<and> mqtt_cmd_timeout c' = mqtt_cmd_timeout c \<and>
       wire c' = wire c @ [(net_socket n, ah_payload a)])"
proof -
  obtain wb where wb: "mqtt_write_buf c = Some wb" "length wb = unat (mqtt_write_buf_size c)"
    using client_ok_wbuf [OF assms(1)] by blast
  let ?xs = "ah_payload a"
  have len: "length ?xs = unat (ah_payload_len a)" "length ?xs \<le> length wb" using assms(3) wb by (auto simp: ack_wf_def)
  let ?wb = "?xs @ drop (length ?xs) wb"
  let ?c1 = "c\<lparr>mqtt_write_lock := True, mqtt_write_buf := Some ?wb\<rparr>"
  have ok0: "client_ok (c\<lparr>mqtt_write_buf := Some ?wb\<rparr>)" using client_ok_write [of c ?wb] assms(1) wb len by simp
  have ok1: "client_ok ?c1" using client_ok_write [of "c\<lparr>mqtt_write_lock := True\<rparr>" ?wb] assms(1) wb len by simp
  have n1: "mqtt_network ?c1 = Some n" using assms(4) by simp
  have l1: "length ?xs \<le> length (buf_bytes (mqtt_write_buf ?c1))" by (simp add: buf_bytes_def)
  have "rd_block ?xs 0 (unat (ah_payload_len a)) = Some ?xs" using len by (simp add: rd_block_def)
  moreover have "write_bytes (buf_bytes (mqtt_write_buf (c\<lparr>mqtt_write_lock := True\<rparr>)), 0) ?xs = Some (?wb, length ?xs)"
    using wb len by (simp add: write_bytes_def buf_bytes_def)
  ultimately have eq: "mqtt_ack_handler_resend c a =
      do { (_, _, c') \<leftarrow> mqtt_send_packet ?c1 (length ?xs); Some (a\<lparr>ah_timer := cmd_timer c\<rparr>, unlock_write c') }"
    using assms(2) wb len by (simp add: mqtt_ack_handler_resend_def lock_write_def Let_def)
  show ?thesis
  proof (cases "smooth c \<and> ?xs \<noteq> []")
    case True
    with send_packet_smooth [OF n1 l1] have
      "mqtt_send_packet ?c1 (length ?xs) = Some (MQTT_SUCCESS_ERROR, cmd_timer ?c1,
         ?c1\<lparr>wire := wire ?c1 @ [(net_socket n, take (length ?xs) (buf_bytes (mqtt_write_buf ?c1)))],
             mqtt_last_sent := keep_alive_timer ?c1\<rparr>)"
      by (simp add: smooth_def)
    with eq True ok0 n1 show ?thesis
      by (simp add: unlock_write_def smooth_def buf_bytes_def)
  next
    case False
    obtain rc timer c2 where "mqtt_send_packet ?c1 (length ?xs) = Some (rc, timer, c2)" "same ?c1 c2"
      using send_packet_same [OF n1 l1] by blast
    with eq False client_ok_same [OF _ ok1, of c2] n1 show ?thesis
      by (auto simp: unlock_write_def same_fields)
  qed
qed

text \<open>What a scan does to the list on a smooth connection: due publications start over, due
  subscription requests are dropped.\<close>

definition due :: "u8 \<Rightarrow> mqtt_client \<Rightarrow> ack_handlers \<Rightarrow> bool" where
  "due flag c a \<longleftrightarrow> timer_expired c (ah_timer a) \<or> flag \<noteq> 1"

definition scanned :: "u8 \<Rightarrow> mqtt_client \<Rightarrow> ack_handlers list \<Rightarrow> ack_handlers list" where
  "scanned flag c as = map (\<lambda>a. if due flag c a then a\<lparr>ah_timer := cmd_timer c\<rparr> else a)
     (filter (\<lambda>a. due flag c a \<longrightarrow> is_pub_ack (ah_type a)) as)"

definition resent :: "u8 \<Rightarrow> mqtt_client \<Rightarrow> ack_handlers list \<Rightarrow> bytes list" where
  "resent flag c as = map ah_payload (filter (\<lambda>a. due flag c a \<and> is_pub_ack (ah_type a)) as)"

lemma scanned_simps [simp]:
  "scanned flag c [] = []" "resent flag c [] = []"
  "scanned flag c (a # as) = (if due flag c a
     then (if is_pub_ack (ah_type a) then [a\<lparr>ah_timer := cmd_timer c\<rparr>] else []) else [a]) @ scanned flag c as"
  "resent flag c (a # as) = (if due flag c a \<and> is_pub_ack (ah_type a) then [ah_payload a] else []) @ resent flag c as"
  by (simp_all add: scanned_def resent_def)

definition pubs :: "ack_handlers list \<Rightarrow> ((msgTypes \<times> u16) \<times> bytes) list" where
  "pubs as = map (\<lambda>a. (ack_key a, ah_payload a)) (filter (\<lambda>a. is_pub_ack (ah_type a)) as)"

lemma pubs_append [simp]: "pubs (as @ bs) = pubs as @ pubs bs"
  by (simp add: pubs_def)

lemma due_cong:
  "now_us c' = now_us c \<Longrightarrow> due flag c' a = due flag c a"
  "now_us c' = now_us c \<Longrightarrow> mqtt_cmd_timeout c' = mqtt_cmd_timeout c \<Longrightarrow> cmd_timer c' = cmd_timer c"
  by (simp_all add: due_def timer_expired_def cmd_timer_def timer_cutdown_def)

lemma scan_cong:
  assumes "now_us c' = now_us c" "mqtt_cmd_timeout c' = mqtt_cmd_timeout c"
  shows "scanned flag c' as = scanned flag c as" "resent flag c' as = resent flag c as"
  by (simp_all add: scanned_def resent_def due_cong(1) [OF assms(1)] due_cong(2) [OF assms])

text \<open>The outcome of a scan from a state in which \<open>kept\<close> was dealt with.\<close>

definition scan_post :: "u8 \<Rightarrow> network \<Rightarrow> ack_handlers list \<Rightarrow> ack_handlers list \<Rightarrow> mqtt_client \<Rightarrow> mqtt_client \<Rightarrow> bool" where
  "scan_post flag n kept rest c c' \<longleftrightarrow> client_ok c' \<and> \<not> mqtt_write_lock c' \<and> mqtt_network c' = Some n \<and>
     mqtt_client_state c' = mqtt_client_state c \<and> delivered c' = delivered c \<and>
     pubs (mqtt_ack_handler_list c') = pubs (kept @ rest) \<and>
     (smooth c \<and> (\<forall>a\<in>set rest. ah_payload a \<noteq> []) \<longrightarrow>
        mqtt_ack_handler_list c' = kept @ scanned flag c rest \<and>
        wire c' = wire c @ map (Pair (net_socket n)) (resent flag c rest))"

lemma scan_loop_ok:
  "client_ok c \<Longrightarrow> \<not> mqtt_write_lock c \<Longrightarrow> mqtt_network c = Some n \<Longrightarrow> mqtt_ack_handler_list c = kept @ rest \<Longrightarrow>
   \<exists>c'. scan_loop flag kept rest c = Some c' \<and> scan_post flag n kept rest c c'"
proof (induction rest arbitrary: kept c)
  case Nil
  then show ?case by (simp add: scan_post_def)
next
  case (Cons a rest)
  have "ack_wf (unat (mqtt_write_buf_size c)) a" using Cons.prems by (simp add: client_ok_def acks_ok_def)
  note wf = this
  show ?case
  proof (cases "due flag c a")
    case False
    with Cons.IH [of c "kept @ [a]"] Cons.prems show ?thesis
      by (auto simp: due_def scan_post_def)
  next
    case due: True
    then have nd: "(\<not> timer_expired c (ah_timer a) \<and> flag = 1) = False" by (auto simp: due_def)
    show ?thesis
    proof (cases "is_pub_ack (ah_type a)")
      case True
      obtain c1 where r: "mqtt_ack_handler_resend c a = Some (a\<lparr>ah_timer := cmd_timer c\<rparr>, c1)" "client_ok c1"
          "\<not> mqtt_write_lock c1" "mqtt_ack_handler_list c1 = kept @ a # rest" "mqtt_network c1 = Some n"
          "mqtt_client_state c1 = mqtt_client_state c" "delivered c1 = delivered c"
          "smooth c \<and> ah_payload a \<noteq> [] \<longrightarrow> smooth c1 \<and> now_us c1 = now_us c \<and>
             mqtt_cmd_timeout c1 = mqtt_cmd_timeout c \<and> wire c1 = wire c @ [(net_socket n, ah_payload a)]"
        using resend_ok [OF Cons.prems(1,2) wf Cons.prems(3)] Cons.prems(4) by auto
      let ?a = "a\<lparr>ah_timer := cmd_timer c\<rparr>"
      let ?c2 = "c1\<lparr>mqtt_ack_handler_list := kept @ ?a # rest\<rparr>"
      obtain c' where c': "scan_loop flag (kept @ [?a]) rest ?c2 = Some c'" "scan_post flag n (kept @ [?a]) rest ?c2 c'"
        using Cons.IH [of ?c2 "kept @ [?a]"] client_ok_retime [OF r(2,4)] r(3,5) by auto
      have "scan_loop flag kept (a # rest) c = Some c'" using True r(1) c'(1) by (simp add: nd)
      moreover have "scan_post flag n kept (a # rest) c c'"
      proof -
        have "pubs (kept @ [?a] @ rest) = pubs (kept @ a # rest)" by (simp add: pubs_def ack_key_def)
        moreover have "smooth ?c2 = smooth c1" by (simp add: smooth_def)
        ultimately show ?thesis
          using c'(2) r(6,7,8) due True scan_cong [of ?c2 c flag rest]
          by (auto simp: scan_post_def)
      qed
      ultimately show ?thesis by blast
    next
      case False
      let ?c1 = "drop_ack kept rest (case ah_handler a of None \<Rightarrow> c | Some p \<Rightarrow> free_handler p c)"
      have d: "destroy_opt (ah_handler a) c = Some (case ah_handler a of None \<Rightarrow> c | Some p \<Rightarrow> free_handler p c)"
        using client_ok_drop_free(1) [OF Cons.prems(1,4)] destroy_live [of c]
        by (auto simp: destroy_opt_def split: option.splits)
      have "ah_handler a = None" if "\<not> (ah_type a = SUBACK \<or> ah_type a = UNSUBACK)"
        using wf that by (auto simp: ack_wf_def)
      then have "scan_loop flag kept (a # rest) c = do {
          c \<leftarrow> destroy_opt (ah_handler a) c;
          scan_loop flag kept rest (mqtt_subtract_ack_handler_num (mqtt_ack_handler_destroy kept rest c)) }"
        using False by (auto simp: nd destroy_opt_def)
      then have step: "scan_loop flag kept (a # rest) c = scan_loop flag kept rest ?c1"
        using d drop_ack_eq [of _ kept a rest] Cons.prems(1,4)
        by (cases "ah_handler a") (simp_all add: client_ok_def)
      have ok: "client_ok ?c1"
        using client_ok_drop_pub [OF Cons.prems(1,4)] client_ok_drop_free(2) [OF Cons.prems(1,4)]
        by (cases "ah_handler a") simp_all
      have same: "smooth ?c1 = smooth c" "now_us ?c1 = now_us c" "mqtt_cmd_timeout ?c1 = mqtt_cmd_timeout c"
          "wire ?c1 = wire c" "mqtt_client_state ?c1 = mqtt_client_state c" "delivered ?c1 = delivered c"
          "mqtt_write_lock ?c1 = mqtt_write_lock c" "mqtt_network ?c1 = mqtt_network c"
        by (cases "ah_handler a"; simp add: smooth_def drop_ack_def free_handler_def)+
      obtain c' where c': "scan_loop flag kept rest ?c1 = Some c'" "scan_post flag n kept rest ?c1 c'"
        using Cons.IH [OF ok] Cons.prems(2,3) same by auto
      have "pubs (kept @ a # rest) = pubs (kept @ rest)" using False by (simp add: pubs_def)
      with c' step same False due scan_cong [OF same(2,3)] show ?thesis
        by (auto simp: scan_post_def)
    qed
  qed
qed

section \<open>The end of a session\<close>

lemma hok_distinct: "hok ms subs us hp nx \<Longrightarrow> distinct ms"
  by (simp add: hok_def)

lemma clean_msgs_ok:
  "mqtt_msg_handler_list c = ps \<Longrightarrow> distinct ps \<Longrightarrow> \<forall>p\<in>set ps. live_filter (handlers c) p \<Longrightarrow>
   clean_msgs ps c = Some (c\<lparr>mqtt_msg_handler_list := [], handlers := (handlers c) |` (- set ps)\<rparr>)"
proof (induction ps arbitrary: c)
  case Nil
  have "c\<lparr>mqtt_msg_handler_list := [], handlers := handlers c\<rparr> = c\<lparr>mqtt_msg_handler_list := []\<rparr>" by simp
  with Nil show ?case by (cases c) simp
next
  case (Cons p ps)
  let ?c = "free_handler p c"
  have live: "\<forall>q\<in>set ps. live_filter (handlers ?c) q"
    using Cons.prems by (auto simp: live_filter_def)
  have ms: "mqtt_msg_handler_list ?c = ps" using Cons.prems(1) by simp
  have "clean_msgs ps ?c = Some (?c\<lparr>mqtt_msg_handler_list := [], handlers := (handlers ?c) |` (- set ps)\<rparr>)"
    by (rule Cons.IH [OF ms _ live]) (use Cons.prems(2) in simp)
  moreover have "(handlers ?c) |` (- set ps) = (handlers c) |` (- set (p # ps))"
    by (auto simp: restrict_map_def fun_eq_iff)
  ultimately have "clean_msgs ps ?c =
      Some (?c\<lparr>mqtt_msg_handler_list := [], handlers := (handlers c) |` (- set (p # ps))\<rparr>)" by simp
  then show ?case using Cons.prems(3) destroy_live [of c p] by (simp add: free_handler_def)
qed

lemma clean_acks_ok:
  "mqtt_ack_handler_list c = as \<Longrightarrow> handlers_ok c \<Longrightarrow>
   \<forall>a\<in>set as. ah_handler a \<noteq> None \<longleftrightarrow> ah_type a = SUBACK \<or> ah_type a = UNSUBACK \<Longrightarrow>
   \<exists>ms. clean_acks as c = Some (c\<lparr>mqtt_ack_handler_list := [], mqtt_msg_handler_list := ms,
       handlers := (handlers c) |` (- set (refs SUBACK as @ refs UNSUBACK as))\<rparr>) \<and>
     set ms = set (mqtt_msg_handler_list c) - set (refs UNSUBACK as) \<and> distinct ms"
proof (induction as arbitrary: c)
  case Nil
  then show ?case by (intro exI [of _ "mqtt_msg_handler_list c"]) (cases c, simp add: handlers_ok_def hok_def)
next
  case (Cons a as)
  let ?c0 = "mqtt_ack_handler_destroy [] as c"
  have h: "hok (mqtt_msg_handler_list c) (refs SUBACK (a # as)) (refs UNSUBACK (a # as)) (handlers c) (next_addr c)"
    using Cons.prems(1,2) by (simp add: handlers_ok_def)
  show ?case
  proof (cases "ah_handler a")
    case None
    then have "refs t (a # as) = refs t as" for t by simp
    with h have "handlers_ok ?c0" by (simp add: handlers_ok_def mqtt_ack_handler_destroy_def)
    from Cons.IH [OF _ this] Cons.prems(3) None show ?thesis
      by (simp add: destroy_opt_def mqtt_ack_handler_destroy_def)
  next
    case (Some p)
    let ?c1 = "free_handler p ?c0"
    have t: "ah_type a = SUBACK \<or> ah_type a = UNSUBACK" using Cons.prems(3) Some by simp
    have p: "p \<in> set (refs SUBACK (a # as)) \<union> set (refs UNSUBACK (a # as))"
      using t Some by auto
    have d: "destroy_opt (ah_handler a) ?c0 = Some ?c1"
    proof -
      have "live_filter (handlers c) p" by (rule hok_live [OF h]) (use p in blast)
      then have "live_filter (handlers ?c0) p" by (simp add: mqtt_ack_handler_destroy_def)
      with Some show ?thesis by (simp add: destroy_opt_def destroy_live)
    qed
    have hk: "hok (remove1 p (mqtt_msg_handler_list c)) (refs SUBACK as) (refs UNSUBACK as)
        ((handlers c)(p := None)) (next_addr c)"
      using t h Some hok_drop_sub [of _ "[]" p] hok_drop_unsub [of _ _ "[]" p] by fastforce
    then have h1: "handlers_ok ?c1" by (simp add: handlers_ok_def mqtt_ack_handler_destroy_def)
    have l1: "mqtt_ack_handler_list ?c1 = as" by (simp add: mqtt_ack_handler_destroy_def)
    have w1: "\<forall>a\<in>set as. ah_handler a \<noteq> None \<longleftrightarrow> ah_type a = SUBACK \<or> ah_type a = UNSUBACK"
      using Cons.prems(3) by simp
    obtain ms where ms: "clean_acks as ?c1 = Some (?c1\<lparr>mqtt_ack_handler_list := [], mqtt_msg_handler_list := ms,
         handlers := (handlers ?c1) |` (- set (refs SUBACK as @ refs UNSUBACK as))\<rparr>)"
        "set ms = set (mqtt_msg_handler_list ?c1) - set (refs UNSUBACK as)" "distinct ms"
      using Cons.IH [OF l1 h1 w1] by blast
    have "((handlers c)(p := None)) |` (- set (refs SUBACK as @ refs UNSUBACK as)) =
        (handlers c) |` (- set (refs SUBACK (a # as) @ refs UNSUBACK (a # as)))"
      using t by (rule disjE) (auto simp: Some restrict_map_def fun_eq_iff)
    moreover have "set (remove1 p (mqtt_msg_handler_list c)) - set (refs UNSUBACK as) =
        set (mqtt_msg_handler_list c) - set (refs UNSUBACK (a # as))"
      using t
    proof
      assume a: "ah_type a = SUBACK"
      with h Some have "p \<notin> set (mqtt_msg_handler_list c)" by (simp add: hok_def)
      with a show ?thesis by (simp add: remove1_idem)
    next
      assume a: "ah_type a = UNSUBACK"
      have "distinct (mqtt_msg_handler_list c)" by (rule hok_distinct [OF h])
      then have "set (remove1 p (mqtt_msg_handler_list c)) = set (mqtt_msg_handler_list c) - {p}" by simp
      moreover have "set (refs UNSUBACK (a # as)) = insert p (set (refs UNSUBACK as))" using a Some by simp
      ultimately show ?thesis by blast
    qed
    ultimately show ?thesis
      using d ms by (intro exI [of _ ms]) (simp add: free_handler_def mqtt_ack_handler_destroy_def)
  qed
qed

lemma clean_session_eq:
  assumes "client_ok c"
  shows "mqtt_clean_session c = Some (c\<lparr>mqtt_ack_handler_list := [], mqtt_ack_handler_number := 0,
    mqtt_msg_handler_list := [], mqtt_client_state := CLIENT_STATE_INVALID,
    handlers := (handlers c) |` (- set (mqtt_msg_handler_list c @ refs SUBACK (mqtt_ack_handler_list c)))\<rparr>)"
proof -
  let ?as = "mqtt_ack_handler_list c" and ?ms = "mqtt_msg_handler_list c"
  have h: "hok ?ms (refs SUBACK ?as) (refs UNSUBACK ?as) (handlers c) (next_addr c)"
    and w: "\<forall>a\<in>set ?as. ah_handler a \<noteq> None \<longleftrightarrow> ah_type a = SUBACK \<or> ah_type a = UNSUBACK"
    using assms by (auto simp: client_ok_def handlers_ok_def acks_ok_def ack_wf_def)
  let ?hp = "(handlers c) |` (- set (refs SUBACK ?as @ refs UNSUBACK ?as))"
  obtain ms where ms: "clean_acks ?as c = Some (c\<lparr>mqtt_ack_handler_list := [], mqtt_msg_handler_list := ms, handlers := ?hp\<rparr>)"
      "set ms = set ?ms - set (refs UNSUBACK ?as)" "distinct ms"
    using clean_acks_ok [OF refl _ w] assms by (auto simp: client_ok_def)
  let ?c1 = "c\<lparr>mqtt_ack_handler_list := [], mqtt_msg_handler_list := ms, handlers := ?hp, mqtt_ack_handler_number := 0\<rparr>"
  have "\<forall>p\<in>set ms. live_filter ?hp p"
    using h ms(2) by (auto simp: hok_def live_filter_def restrict_map_def)
  with clean_msgs_ok [of ?c1 ms] ms(3)
  have "clean_msgs ms ?c1 = Some (?c1\<lparr>mqtt_msg_handler_list := [], handlers := ?hp |` (- set ms)\<rparr>)" by simp
  moreover have "?hp |` (- set ms) = (handlers c) |` (- set (?ms @ refs SUBACK ?as))"
    using h ms(2) by (auto simp: hok_def restrict_map_def fun_eq_iff)
  ultimately show ?thesis
    using ms(1) by (simp add: mqtt_clean_session_def mqtt_set_client_state_def)
qed

section \<open>Properties\<close>

text \<open>A client that waits for a PUBACK and for a SUBACK and has one handler installed.\<close>

definition sample_session :: mqtt_client where
  "sample_session = sample_client
     \<lparr>mqtt_write_buf := Some (replicate 16 0), mqtt_write_buf_size := 16,
      mqtt_ack_handler_list :=
        [\<lparr>ah_timer = platform_timer_init, ah_type = PUBACK, ah_packet_id = 7, ah_handler = None,
          ah_payload_len = 5, ah_payload = [0x32, 3, 0, 0, 7]\<rparr>,
         \<lparr>ah_timer = platform_timer_init, ah_type = SUBACK, ah_packet_id = 8, ah_handler = Some 1,
          ah_payload_len = 2, ah_payload = [0x82, 0]\<rparr>],
      mqtt_ack_handler_number := 2, mqtt_msg_handler_list := [2],
      handlers := [1 \<mapsto> \<lparr>mh_qos = 1, mh_topic_filter = Some [97], mh_handler = User_handler 1\<rparr>,
                   2 \<mapsto> \<lparr>mh_qos = 0, mh_topic_filter = Some [98], mh_handler = User_handler 2\<rparr>],
      next_addr := 3, mqtt_thread := True, thread_live := True\<rparr>"

lemma sample_session_thread: "mqtt_thread sample_session" "thread_live sample_session"
  by (simp_all add: sample_session_def)

lemma sample_session_simps:
  "mqtt_network sample_session = Some (network_zero\<lparr>net_socket := 5\<rparr>)"
  "mqtt_write_buf sample_session = Some (replicate 16 0)" "mqtt_write_buf_size sample_session = 16"
  "mqtt_read_buf sample_session = Some (replicate 8 0)" "mqtt_read_buf_size sample_session = 8"
  "mqtt_ack_handler_number sample_session = 2" "mqtt_msg_handler_list sample_session = [2]"
  "next_addr sample_session = 3" "mqtt_write_lock sample_session = False"
  "mqtt_client_state sample_session = CLIENT_STATE_CONNECTED" "mqtt_cmd_timeout sample_session = 1000"
  "mqtt_packet_id sample_session = 0" "mqtt_interceptor_handler sample_session = None"
  "delivered sample_session = []"
  by (simp_all add: sample_session_def sample_client_def client_zero_def world.defs mqtt_client.defs sample_world_def)

lemma sample_session_ok: "client_ok sample_session"
proof -
  have as: "mqtt_ack_handler_list sample_session =
      [\<lparr>ah_timer = platform_timer_init, ah_type = PUBACK, ah_packet_id = 7, ah_handler = None,
          ah_payload_len = 5, ah_payload = [0x32, 3, 0, 0, 7]\<rparr>,
         \<lparr>ah_timer = platform_timer_init, ah_type = SUBACK, ah_packet_id = 8, ah_handler = Some 1,
          ah_payload_len = 2, ah_payload = [0x82, 0]\<rparr>]"
    by (simp add: sample_session_def)
  have hp: "handlers sample_session = [1 \<mapsto> \<lparr>mh_qos = 1, mh_topic_filter = Some [97], mh_handler = User_handler 1\<rparr>,
      2 \<mapsto> \<lparr>mh_qos = 0, mh_topic_filter = Some [98], mh_handler = User_handler 2\<rparr>]"
    by (simp add: sample_session_def)
  have "bufs_ok sample_session" by (simp add: bufs_ok_def sample_session_simps)
  moreover have "acks_ok sample_session" by (simp add: acks_ok_def as sample_session_simps ack_key_def ack_wf_def)
  moreover have "handlers_ok sample_session"
    by (simp add: handlers_ok_def hok_def as hp sample_session_simps live_filter_def)
  ultimately show ?thesis by (simp add: client_ok_def)
qed



text \<open>Scanning the records of a client that meets the invariant
  ends and keeps the invariant, whatever the connection does: no publication that waits for an
  acknowledgement is lost or reordered, and nothing is freed twice.\<close>

theorem scan_keeps_pending:
  assumes "client_ok c" "\<not> mqtt_write_lock c"
  shows "\<exists>c'. mqtt_ack_list_scan c flag = Some c' \<and> client_ok c' \<and> \<not> mqtt_write_lock c' \<and>
    pubs (mqtt_ack_handler_list c') = pubs (mqtt_ack_handler_list c)"
proof -
  obtain n where n: "mqtt_network c = Some n" using assms(1) by (auto simp: client_ok_defs)
  from scan_loop_ok [OF assms n, of "[]"] assms show ?thesis
    by (auto simp: mqtt_ack_list_scan_def scan_post_def)
qed

theorem scan_keeps_pending_witness:
  "\<exists>c'. mqtt_ack_list_scan sample_session 0 = Some c' \<and> client_ok c' \<and> \<not> mqtt_write_lock c' \<and>
    pubs (mqtt_ack_handler_list c') = pubs (mqtt_ack_handler_list sample_session)"
  by (rule scan_keeps_pending [OF sample_session_ok]) (simp add: sample_session_simps)

text \<open>\<^bold>\<open>Property C26 (scan_retransmits).\<close> On a connection that takes what is sent, a scan sends the
  stored packet of every due publication, each once and in the order of the list, and restarts its
  timer; it drops the due subscription requests and leaves the records that are not due alone.\<close>

theorem scan_retransmits:
  assumes "client_ok c" "\<not> mqtt_write_lock c" "mqtt_client_state c = CLIENT_STATE_CONNECTED"
    and "mqtt_network c = Some n" "smooth c" "\<forall>a\<in>set (mqtt_ack_handler_list c). ah_payload a \<noteq> []"
  shows "\<exists>c'. mqtt_ack_list_scan c flag = Some c' \<and>
    wire c' = wire c @ map (\<lambda>a. (net_socket n, ah_payload a))
      (filter (\<lambda>a. due flag c a \<and> is_pub_ack (ah_type a)) (mqtt_ack_handler_list c)) \<and>
    mqtt_ack_handler_list c' = map (\<lambda>a. if due flag c a then a\<lparr>ah_timer := cmd_timer c\<rparr> else a)
      (filter (\<lambda>a. due flag c a \<longrightarrow> is_pub_ack (ah_type a)) (mqtt_ack_handler_list c))"
proof (cases "mqtt_ack_handler_list c = []")
  case True
  then show ?thesis by (simp add: mqtt_ack_list_scan_def)
next
  case False
  obtain c' where c': "scan_loop flag [] (mqtt_ack_handler_list c) c = Some c'"
      "scan_post flag n [] (mqtt_ack_handler_list c) c c'"
    using scan_loop_ok [OF assms(1,2,4), of "[]"] by auto
  then have "mqtt_ack_handler_list c' = scanned flag c (mqtt_ack_handler_list c)"
      "wire c' = wire c @ map (Pair (net_socket n)) (resent flag c (mqtt_ack_handler_list c))"
    using assms(5,6) by (auto simp: scan_post_def)
  with c'(1) False assms(3) show ?thesis
    by (simp add: mqtt_ack_list_scan_def mqtt_get_client_state_def scanned_def resent_def comp_def)
qed

theorem scan_retransmits_witness:
  "\<exists>c'. mqtt_ack_list_scan sample_session 0 = Some c' \<and>
    wire c' = wire sample_session @ map (\<lambda>a. (net_socket (network_zero\<lparr>net_socket := 5\<rparr>), ah_payload a))
      (filter (\<lambda>a. due 0 sample_session a \<and> is_pub_ack (ah_type a)) (mqtt_ack_handler_list sample_session)) \<and>
    mqtt_ack_handler_list c' = map (\<lambda>a. if due 0 sample_session a then a\<lparr>ah_timer := cmd_timer sample_session\<rparr> else a)
      (filter (\<lambda>a. due 0 sample_session a \<longrightarrow> is_pub_ack (ah_type a)) (mqtt_ack_handler_list sample_session))"
  by (rule scan_retransmits [OF sample_session_ok]) code_simp+

text \<open>\<^bold>\<open>Property C27 (clean_session_frees).\<close> Cleaning the session of a client that meets the invariant
  frees every handler the two tables own exactly once, also when acknowledgements of subscribe and
  unsubscribe requests are pending, touches no other object, and leaves empty tables, a zero counter
  and the state INVALID.\<close>

theorem clean_session_frees:
  assumes "client_ok c"
  shows "\<exists>c'. mqtt_clean_session c = Some c' \<and> client_ok c' \<and> mqtt_client_state c' = CLIENT_STATE_INVALID \<and>
    mqtt_ack_handler_list c' = [] \<and> mqtt_msg_handler_list c' = [] \<and> mqtt_ack_handler_number c' = 0 \<and>
    (\<forall>p. handlers c' p =
       (if p \<in> set (mqtt_msg_handler_list c) \<or>
           Some p \<in> ah_handler ` set (mqtt_ack_handler_list c)
        then None else handlers c p))"
proof -
  let ?as = "mqtt_ack_handler_list c" and ?ms = "mqtt_msg_handler_list c"
  have h: "hok ?ms (refs SUBACK ?as) (refs UNSUBACK ?as) (handlers c) (next_addr c)"
    using assms by (simp add: client_ok_def handlers_ok_def)
  have "Some p \<in> ah_handler ` set ?as \<longleftrightarrow> p \<in> set (refs SUBACK ?as) \<union> set (refs UNSUBACK ?as)" for p
    using assms unfolding client_ok_def acks_ok_def ack_wf_def by (force simp: set_refs)
  moreover have "set (refs UNSUBACK ?as) \<subseteq> set ?ms" using h by (simp add: hok_def)
  ultimately have "(p \<in> set ?ms \<or> Some p \<in> ah_handler ` set ?as) \<longleftrightarrow> p \<in> set (?ms @ refs SUBACK ?as)" for p
    by auto
  moreover have "client_ok (c\<lparr>mqtt_ack_handler_list := [], mqtt_ack_handler_number := 0,
      mqtt_msg_handler_list := [], mqtt_client_state := CLIENT_STATE_INVALID,
      handlers := (handlers c) |` (- set (?ms @ refs SUBACK ?as))\<rparr>)"
    using assms h by (auto simp: client_ok_def bufs_ok_def acks_ok_def handlers_ok_def hok_def restrict_map_def)
  ultimately show ?thesis
    unfolding clean_session_eq [OF assms] by (auto simp: restrict_map_def)
qed

theorem clean_session_frees_witness:
  "\<exists>c'. mqtt_clean_session sample_session = Some c' \<and> client_ok c' \<and> mqtt_client_state c' = CLIENT_STATE_INVALID \<and>
    mqtt_ack_handler_list c' = [] \<and> mqtt_msg_handler_list c' = [] \<and> mqtt_ack_handler_number c' = 0 \<and>
    (\<forall>p. handlers c' p =
       (if p \<in> set (mqtt_msg_handler_list sample_session) \<or>
           Some p \<in> ah_handler ` set (mqtt_ack_handler_list sample_session)
        then None else handlers sample_session p))"
  by (rule clean_session_frees [OF sample_session_ok])

end
