(* ===== verification/Client_Handlers.thy ===== *)
theory Client_Handlers
  imports Client_Tables
begin

text \<open>
  The handlers for received packets in \<^verbatim>\<open>mqttclient/mqttclient.c\<close> and their dispatcher
  \<open>mqtt_packet_handle\<close>. Every handler takes the client with the received packet in its read buffer. The
  command timer that \<open>mqtt_packet_handle\<close> passes down is set again by the functions below it, so it is
  part of their results. Locals that C leaves uninitialised start as \<^const>\<open>junk16\<close> or as pointers that
  nothing may follow. \<open>sgnd\<close> tells whether \<open>char\<close> is signed.
\<close>

definition read_bytes :: "mqtt_client \<Rightarrow> bytes" where
  "read_bytes c = buf_bytes (mqtt_read_buf c)"

definition ack_out_uninit :: "mqtt_client \<Rightarrow> ack_out" where
  "ack_out_uninit c = \<lparr>ao_packettype = 0, ao_dup = 0, ao_packetid = junk16 c\<rparr>"

definition publish_out_uninit :: "mqtt_client \<Rightarrow> publish_out" where
  "publish_out_uninit c = \<lparr>po_dup = 0, po_qos = 0, po_retained = 0, po_packetid = junk16 c,
     po_topic = MQTTString_initializer, po_payload = None, po_payloadlen = 0\<rparr>"

section \<open>The handlers\<close>

definition mqtt_puback_and_pubcomp_packet_handle :: "mqtt_client \<Rightarrow> (int \<times> mqtt_client) option" where
  "mqtt_puback_and_pubcomp_packet_handle c =
     (let rc = mqtt_is_connected c in
      if rc \<noteq> MQTT_SUCCESS_ERROR then Some (rc, c)
      else do {
        (_, out) \<leftarrow> MQTTDeserialize_ack (ack_out_uninit c) (read_bytes c) (unat (mqtt_read_buf_size c));
        let (_, c) = mqtt_ack_list_unrecord c (ao_packettype out) (ao_packetid out);
        Some (MQTT_SUCCESS_ERROR, c)
      })"

definition mqtt_suback_packet_handle :: "bool \<Rightarrow> mqtt_client \<Rightarrow> (int \<times> mqtt_client) option" where
  "mqtt_suback_packet_handle sgnd c =
     (let rc = mqtt_is_connected c in
      if rc \<noteq> MQTT_SUCCESS_ERROR then Some (rc, c)
      else do {
        (ok, out) \<leftarrow> MQTTDeserialize_suback sgnd 1 \<lparr>sa_packetid = junk16 c, sa_count = 0, sa_granted = [0]\<rparr>
                      (read_bytes c) (unat (mqtt_read_buf_size c));
        if ok \<noteq> 1 then Some (MQTT_SUBSCRIBE_ACK_PACKET_ERROR, c)
        else do {
          granted_qos \<leftarrow> arr (sa_granted out) 0;
          let is_nack = (granted_qos = int SUBFAIL);
          let (h, c) = mqtt_ack_list_unrecord c (msg_code SUBACK) (sa_packetid out);
          let msg_handler = (case h of None \<Rightarrow> None | Some p \<Rightarrow> p);
          case msg_handler of
            None \<Rightarrow> Some (MQTT_MEM_NOT_ENOUGH_ERROR, c)
          | Some p \<Rightarrow>
              if is_nack
              then do { c \<leftarrow> mqtt_msg_handler_destory p c; Some (MQTT_SUBSCRIBE_NOT_ACK_ERROR, c) }
              else mqtt_msg_handlers_install c (Some p)
        }
      })"

text \<open>Here \<open>msg_handler\<close> starts uninitialised: reading it when no record was found is undefined.\<close>

definition mqtt_unsuback_packet_handle :: "mqtt_client \<Rightarrow> (int \<times> mqtt_client) option" where
  "mqtt_unsuback_packet_handle c =
     (let rc = mqtt_is_connected c in
      if rc \<noteq> MQTT_SUCCESS_ERROR then Some (rc, c)
      else do {
        (ok, packet_id) \<leftarrow> MQTTDeserialize_unsuback 0 (read_bytes c) (unat (mqtt_read_buf_size c));
        if ok \<noteq> 1 then Some (MQTT_UNSUBSCRIBE_ACK_PACKET_ERROR, c)
        else do {
          let (h, c) = mqtt_ack_list_unrecord c (msg_code UNSUBACK) packet_id;
          msg_handler \<leftarrow> h;
          case msg_handler of
            None \<Rightarrow> Some (MQTT_MEM_NOT_ENOUGH_ERROR, c)
          | Some p \<Rightarrow> do { c \<leftarrow> mqtt_msg_handler_destory p c; Some (MQTT_SUCCESS_ERROR, c) }
        }
      })"

text \<open>The acknowledgement a received message asks for; the result is the return code, the length of
  the acknowledgement, the timer and the client.\<close>

definition publish_send_ack ::
  "mqtt_client \<Rightarrow> nat \<Rightarrow> u16 \<Rightarrow> platform_timer \<Rightarrow> (int \<times> int \<times> platform_timer \<times> mqtt_client) option" where
  "publish_send_ack c qos packet_id timer =
     (if qos = QOS0 then Some (MQTT_SUCCESS_ERROR, 0, timer, c)
      else do {
        c \<leftarrow> lock_write c;
        (len, c) \<leftarrow> (if qos = QOS1 then serialize_into c (\<lambda>buf n. MQTTSerialize_ack buf n PUBACK 0 packet_id)
                   else if qos = QOS2 then serialize_into c (\<lambda>buf n. MQTTSerialize_ack buf n PUBREC 0 packet_id)
                   else Some (0, c));
        (rc, timer, c) \<leftarrow> (if len \<le> 0 then Some (MQTT_SERIALIZE_PUBLISH_ACK_PACKET_ERROR, timer, c)
                          else mqtt_send_packet c (nat len));
        Some (rc, len, timer, unlock_write c)
      })"

definition mqtt_publish_packet_handle ::
  "mqtt_client \<Rightarrow> platform_timer \<Rightarrow> (int \<times> platform_timer \<times> mqtt_client) option" where
  "mqtt_publish_packet_handle c timer =
     (let rc = mqtt_is_connected c in
      if rc \<noteq> MQTT_SUCCESS_ERROR then Some (rc, timer, c)
      else do {
        (ok, out) \<leftarrow> MQTTDeserialize_publish (publish_out_uninit c) (read_bytes c) (unat (mqtt_read_buf_size c));
        if ok \<noteq> 1 then Some (MQTT_PUBLISH_PACKET_ERROR, timer, c)
        else do {
          let msg = \<lparr>msg_qos = po_qos out, msg_retained = po_retained out, msg_dup = po_dup out,
            msg_id = po_packetid out, msg_payloadlen = nat (po_payloadlen out mod 4294967296),
            msg_payload = po_payload out\<rparr>;
          (rc, len, timer, c) \<leftarrow> publish_send_ack c (msg_qos msg) (msg_id msg) timer;
          if rc < 0 then Some (rc, timer, c)
          else if msg_qos msg \<noteq> QOS2
          then do {
            (_, c) \<leftarrow> mqtt_deliver_message c (po_topic out) msg;
            Some (rc, timer, c)
          }
          else do {
            (rc, c) \<leftarrow> mqtt_ack_list_record c PUBREL (msg_id msg) (of_int len) None;
            if rc \<noteq> MQTT_ACK_NODE_IS_EXIST_ERROR
            then do {
              (_, c) \<leftarrow> mqtt_deliver_message c (po_topic out) msg;
              Some (rc, timer, c)
            }
            else Some (rc, timer, c)
          }
        }
      })"

definition mqtt_pubrec_and_pubrel_packet_handle :: "mqtt_client \<Rightarrow> (int \<times> mqtt_client) option" where
  "mqtt_pubrec_and_pubrel_packet_handle c =
     (let rc = mqtt_is_connected c in
      if rc \<noteq> MQTT_SUCCESS_ERROR then Some (rc, c)
      else do {
        (ok, out) \<leftarrow> MQTTDeserialize_ack (ack_out_uninit c) (read_bytes c) (unat (mqtt_read_buf_size c));
        if ok \<noteq> 1 then Some (MQTT_PUBREC_PACKET_ERROR, c)
        else do {
          (_, c) \<leftarrow> mqtt_publish_ack_packet c (ao_packetid out) (ao_packettype out);
          let (_, c) = mqtt_ack_list_unrecord c (ao_packettype out) (ao_packetid out);
          Some (MQTT_SUCCESS_ERROR, c)
        }
      })"

section \<open>The dispatcher\<close>

text \<open>\<open>with_timer\<close> adds the unchanged timer to a handler's result.\<close>

definition with_timer :: "platform_timer \<Rightarrow> (int \<times> mqtt_client) option \<Rightarrow> (int \<times> platform_timer \<times> mqtt_client) option" where
  "with_timer timer r = map_option (\<lambda>(rc, c). (rc, timer, c)) r"

definition dispatch ::
  "bool \<Rightarrow> u8 \<Rightarrow> platform_timer \<Rightarrow> mqtt_client \<Rightarrow> (int \<times> platform_timer \<times> mqtt_client) option" where
  "dispatch sgnd packet_type timer c =
     (if packet_type = msg_code PUBACK \<or> packet_type = msg_code PUBCOMP
      then with_timer timer (mqtt_puback_and_pubcomp_packet_handle c)
      else if packet_type = msg_code SUBACK then with_timer timer (mqtt_suback_packet_handle sgnd c)
      else if packet_type = msg_code UNSUBACK then with_timer timer (mqtt_unsuback_packet_handle c)
      else if packet_type = msg_code PUBLISH then mqtt_publish_packet_handle c timer
      else if packet_type = msg_code PUBREC \<or> packet_type = msg_code PUBREL
      then with_timer timer (mqtt_pubrec_and_pubrel_packet_handle c)
      else if packet_type = msg_code PINGRESP
      then Some (MQTT_SUCCESS_ERROR, timer, c\<lparr>mqtt_ping_outstanding := 0\<rparr>)
      else Some (MQTT_SUCCESS_ERROR, timer, c))"

text \<open>The packet types that reach the keep-alive step: no packet, and those with a case of their own
  other than CONNACK.\<close>

definition handled :: "u8 \<Rightarrow> bool" where
  "handled packet_type \<longleftrightarrow> packet_type = 0 \<or> packet_type \<in> msg_code ` {PUBACK, PUBCOMP, SUBACK, UNSUBACK, PUBLISH,
     PUBREC, PUBREL, PINGRESP}"

definition mqtt_packet_handle :: "bool \<Rightarrow> mqtt_client \<Rightarrow> (int \<times> platform_timer \<times> mqtt_client) option" where
  "mqtt_packet_handle sgnd c =
     do {
       (rc, packet_type, timer, c) \<leftarrow> mqtt_read_packet c;
       (rc, timer, c) \<leftarrow>
         (if handled packet_type
          then do {
            (_, timer, c) \<leftarrow> dispatch sgnd packet_type timer c;
            with_timer timer (mqtt_keep_alive c)
          }
          else Some (rc, timer, c));
       Some (if rc = MQTT_SUCCESS_ERROR then uint packet_type else rc, timer, c)
     }"

partial_function (option) wait_loop ::
  "bool \<Rightarrow> int \<Rightarrow> int \<Rightarrow> platform_timer \<Rightarrow> mqtt_client \<Rightarrow> (int \<times> mqtt_client) option" where
  "wait_loop sgnd packet_type rc timer c =
     (if timer_expired c timer then Some (rc, c)
      else do {
        (rc, timer, c) \<leftarrow> mqtt_packet_handle sgnd c;
        if rc \<noteq> packet_type \<and> rc \<ge> 0 then wait_loop sgnd packet_type rc timer c else Some (rc, c)
      })"

declare wait_loop.simps [code]

definition mqtt_wait_packet :: "bool \<Rightarrow> mqtt_client \<Rightarrow> int \<Rightarrow> platform_timer \<Rightarrow> (int \<times> mqtt_client) option" where
  "mqtt_wait_packet sgnd c packet_type timer = wait_loop sgnd packet_type MQTT_FAILED_ERROR timer c"

section \<open>Sending an acknowledgement\<close>

text \<open>Two clients agree but for the environment, the write buffer and the time of the last packet sent.\<close>

definition same_tables :: "mqtt_client \<Rightarrow> mqtt_client \<Rightarrow> bool" where
  "same_tables c c' \<longleftrightarrow> same (c\<lparr>mqtt_write_buf := None\<rparr>) (c'\<lparr>mqtt_write_buf := None\<rparr>)"

lemma same_tables_fields:
  assumes "same_tables c c'"
  shows "mqtt_write_buf_size c' = mqtt_write_buf_size c" "mqtt_read_buf c' = mqtt_read_buf c"
    "mqtt_read_buf_size c' = mqtt_read_buf_size c" "mqtt_network c' = mqtt_network c"
    "mqtt_ack_handler_list c' = mqtt_ack_handler_list c" "mqtt_msg_handler_list c' = mqtt_msg_handler_list c"
    "handlers c' = handlers c" "next_addr c' = next_addr c" "mqtt_write_lock c' = mqtt_write_lock c"
    "mqtt_client_state c' = mqtt_client_state c" "mqtt_cmd_timeout c' = mqtt_cmd_timeout c"
    "delivered c' = delivered c" "mqtt_packet_id c' = mqtt_packet_id c"
    "mqtt_interceptor_handler c' = mqtt_interceptor_handler c"
    "mqtt_ack_handler_number c' = mqtt_ack_handler_number c"
    "mqtt_keep_alive_interval c' = mqtt_keep_alive_interval c"
    "mqtt_ping_outstanding c' = mqtt_ping_outstanding c" "mqtt_thread c' = mqtt_thread c"
    "thread_live c' = thread_live c"
  using same_fields [OF assms [unfolded same_tables_def]] by simp_all

lemma same_tables_refl [simp]: "same_tables c c"
  by (simp add: same_tables_def)

lemma same_tables_trans: "same_tables a b \<Longrightarrow> same_tables b c \<Longrightarrow> same_tables a c"
  unfolding same_tables_def by (rule same_trans)

lemma same_tables_same: "same c c' \<Longrightarrow> same_tables c c'"
  by (cases c; cases c') (simp add: same_tables_def same_def)

lemma same_tables_wbuf: "same_tables c (c\<lparr>mqtt_write_buf := b\<rparr>)"
  by (simp add: same_tables_def)

lemma serialize_ack_into:
  assumes "client_ok c"
  shows "\<exists>wb. serialize_into c (\<lambda>buf n. MQTTSerialize_ack buf n t d pid) =
      Some (4, c\<lparr>mqtt_write_buf := Some (ack_packet t d pid @ wb)\<rparr>) \<and>
    client_ok (c\<lparr>mqtt_write_buf := Some (ack_packet t d pid @ wb)\<rparr>) \<and>
    length (ack_packet t d pid @ wb) = unat (mqtt_write_buf_size c)"
proof -
  obtain wb where wb: "mqtt_write_buf c = Some wb" "length wb = unat (mqtt_write_buf_size c)" "4 \<le> length wb"
    using client_ok_wbuf [OF assms] by blast
  then show ?thesis
    using client_ok_write [OF assms, of "ack_packet t d pid @ drop 4 wb"]
    by (intro exI [of _ "drop 4 wb"]) (simp add: serialize_into_def buf_bytes_def serialize_ack_eq emit_fits)
qed

text \<open>Sending the first bytes of the write buffer.\<close>

lemma send_ok:
  assumes "client_ok c" "len \<le> unat (mqtt_write_buf_size c)" "mqtt_network c = Some n"
  shows "\<exists>rc timer c'. mqtt_send_packet c len = Some (rc, timer, c') \<and> client_ok c' \<and> same c c' \<and> rx c' = rx c \<and>
    allocs c' = allocs c \<and> junk16 c' = junk16 c \<and> (rc = MQTT_SUCCESS_ERROR \<or> rc = MQTT_SEND_PACKET_ERROR) \<and>
    (smooth c \<and> 0 < len \<longrightarrow> rc = MQTT_SUCCESS_ERROR \<and> smooth c' \<and> now_us c' = now_us c \<and>
       wire c' = wire c @ [(net_socket n, take len (buf_bytes (mqtt_write_buf c)))])"
proof -
  have l: "len \<le> length (buf_bytes (mqtt_write_buf c))" using assms(1,2) by (auto simp: client_ok_defs buf_bytes_def)
  show ?thesis
  proof (cases "smooth c \<and> 0 < len")
    case True
    have "same c (c\<lparr>wire := w, mqtt_last_sent := t\<rparr>)" for w t
      by (rule same_last_sent [OF same_more]) simp
    with True send_packet_smooth [OF assms(3) l] assms(1) show ?thesis by (simp add: smooth_def)
  next
    case False
    with send_packet_same [OF assms(3) l] client_ok_same [OF _ assms(1)] show ?thesis by auto
  qed
qed

lemma publish_send_ack_ok:
  assumes "client_ok c" "\<not> mqtt_write_lock c" "mqtt_network c = Some n" "qos = QOS1 \<or> qos = QOS2"
  shows "\<exists>rc timer' c'. publish_send_ack c qos pid timer = Some (rc, 4, timer', c') \<and> client_ok c' \<and>
    same_tables c c' \<and> allocs c' = allocs c \<and> take 4 (buf_bytes (mqtt_write_buf c')) =
      ack_packet (if qos = QOS1 then PUBACK else PUBREC) 0 pid \<and>
    (rc = MQTT_SUCCESS_ERROR \<or> rc = MQTT_SEND_PACKET_ERROR) \<and>
    (smooth c \<longrightarrow> rc = MQTT_SUCCESS_ERROR \<and> smooth c' \<and> now_us c' = now_us c \<and>
       wire c' = wire c @ [(net_socket n, ack_packet (if qos = QOS1 then PUBACK else PUBREC) 0 pid)])"
proof -
  let ?t = "if qos = QOS1 then PUBACK else PUBREC"
  let ?c1 = "c\<lparr>mqtt_write_lock := True\<rparr>"
  obtain wb where wb: "serialize_into ?c1 (\<lambda>buf n. MQTTSerialize_ack buf n ?t 0 pid) =
      Some (4, ?c1\<lparr>mqtt_write_buf := Some (ack_packet ?t 0 pid @ wb)\<rparr>)"
      "client_ok (?c1\<lparr>mqtt_write_buf := Some (ack_packet ?t 0 pid @ wb)\<rparr>)"
      "length (ack_packet ?t 0 pid @ wb) = unat (mqtt_write_buf_size ?c1)"
    using serialize_ack_into [of ?c1 ?t 0 pid] assms(1) by auto
  let ?c2 = "?c1\<lparr>mqtt_write_buf := Some (ack_packet ?t 0 pid @ wb)\<rparr>"
  have tk: "take 4 (buf_bytes (mqtt_write_buf ?c2)) = ack_packet ?t 0 pid" by (simp add: buf_bytes_def)
  obtain rc timer' c3 where s: "mqtt_send_packet ?c2 4 = Some (rc, timer', c3)" "client_ok c3" "same ?c2 c3"
      "allocs c3 = allocs ?c2" "rc = MQTT_SUCCESS_ERROR \<or> rc = MQTT_SEND_PACKET_ERROR"
      "smooth ?c2 \<and> 0 < (4 :: nat) \<longrightarrow> rc = MQTT_SUCCESS_ERROR \<and> smooth c3 \<and> now_us c3 = now_us ?c2 \<and>
         wire c3 = wire ?c2 @ [(net_socket n, take 4 (buf_bytes (mqtt_write_buf ?c2)))]"
    using send_ok [OF wb(2), of 4 n] wb(3) assms(3) by auto
  have "publish_send_ack c qos pid timer = Some (rc, 4, timer', unlock_write c3)"
    using assms(2,4) wb(1) s(1)
    by (auto simp: publish_send_ack_def lock_write_def QOS0_def QOS1_def QOS2_def)
  moreover have "same_tables c (unlock_write c3)"
  proof -
    have "same (?c2\<lparr>mqtt_write_lock := False\<rparr>) (c3\<lparr>mqtt_write_lock := False\<rparr>)"
      using s(3) by (cases c3; cases c) (simp add: same_def)
    moreover have "c\<lparr>mqtt_write_lock := False\<rparr> = c" using assms(2) by (cases c) simp
    ultimately have "same_tables (c\<lparr>mqtt_write_buf := Some (ack_packet ?t 0 pid @ wb)\<rparr>) (c3\<lparr>mqtt_write_lock := False\<rparr>)"
      by (intro same_tables_same) (cases c, simp)
    from same_tables_trans [OF same_tables_wbuf this] show ?thesis by (simp add: unlock_write_def)
  qed
  moreover have "mqtt_write_buf c3 = mqtt_write_buf ?c2" by (rule same_fields(1) [OF s(3)])
  ultimately show ?thesis
    using s(2,4-6) tk by (simp add: unlock_write_def smooth_def)
qed

end
