(* ===== verification/Client_Session.thy ===== *)
theory Client_Session
  imports Client_Handlers Packet_Connect
begin

text \<open>
  The operations of \<^verbatim>\<open>mqttclient/mqttclient.c\<close> that the application calls, and the background
  loop: connect, disconnect, subscribe, unsubscribe, publish, reconnect, yield, release. A client
  argument is not null. The source of \<open>mqtt_yield\<close> breaks off inside a comment, so what follows the
  packet handler there is the parameter \<open>tail\<close>: it either returns from the function or goes on
  with the loop. The reconnect callback is a parameter too.
\<close>

section \<open>Publish and subscribe\<close>

definition topic_str :: "bytes option \<Rightarrow> MQTTString" where
  "topic_str t = MQTTString_initializer\<lparr>cstring := t\<rparr>"

text \<open>The part of \<open>mqtt_publish\<close> that holds the write lock.\<close>

definition publish_locked ::
  "mqtt_client \<Rightarrow> bytes option \<Rightarrow> mqtt_message \<Rightarrow> (int \<times> mqtt_message \<times> mqtt_client) option" where
  "publish_locked c topic_filter msg =
     (if msg_qos msg \<noteq> QOS0 \<and> mqtt_ack_handler_is_maximum c
      then Some (MQTT_ACK_HANDLER_NUM_TOO_MUCH_ERROR, msg, c)
      else do {
        let (packet_id, c) = (if msg_qos msg \<noteq> QOS0 then mqtt_get_next_packet_id c else (msg_id msg, c));
        let msg = msg\<lparr>msg_id := packet_id\<rparr>;
        (len, c) \<leftarrow> serialize_into c (\<lambda>buf n. MQTTSerialize_publish buf n 0 (msg_qos msg) (msg_retained msg)
                     (msg_id msg) (topic_str topic_filter) (msg_payload msg) (msg_payloadlen msg));
        if len \<le> 0 then Some (MQTT_FAILED_ERROR, msg, c)
        else do {
          (rc, _, c) \<leftarrow> mqtt_send_packet c (nat len);
          if rc \<noteq> MQTT_SUCCESS_ERROR \<or> msg_qos msg = QOS0 then Some (rc, msg, c)
          else do {
            (_, c) \<leftarrow> mqtt_set_publish_dup c 1;
            (rc, c) \<leftarrow>
              (if msg_qos msg = QOS1 then mqtt_ack_list_record c PUBACK (msg_id msg) (of_int len) None
               else if msg_qos msg = QOS2 then mqtt_ack_list_record c PUBREC (msg_id msg) (of_int len) None
               else Some (rc, c));
            Some (rc, msg, c)
          }
        }
      })"

definition mqtt_publish ::
  "mqtt_client \<Rightarrow> bytes option \<Rightarrow> mqtt_message \<Rightarrow> (int \<times> mqtt_message \<times> mqtt_client) option" where
  "mqtt_publish c topic_filter msg =
     (if mqtt_get_client_state c \<noteq> CLIENT_STATE_CONNECTED
      then Some (MQTT_NOT_CONNECT_ERROR, msg\<lparr>msg_payloadlen := 0\<rparr>, c)
      else do {
        msg \<leftarrow> (case msg_payload msg of
                 Some (b, i) \<Rightarrow>
                   if msg_payloadlen msg = 0
                   then do { n \<leftarrow> strlen_at (drop i b); Some (msg\<lparr>msg_payloadlen := n\<rparr>) }
                   else Some msg
               | None \<Rightarrow> Some msg);
        if msg_payloadlen msg > unat (mqtt_write_buf_size c)
        then Some (MQTT_BUFFER_TOO_SHORT_ERROR, msg, c)
        else do {
          c \<leftarrow> lock_write c;
          (rc, msg, c) \<leftarrow> publish_locked c topic_filter msg;
          let msg = msg\<lparr>msg_payloadlen := 0\<rparr>;
          let c = unlock_write c;
          if rc = MQTT_ACK_HANDLER_NUM_TOO_MUCH_ERROR \<or> rc = MQTT_MEM_NOT_ENOUGH_ERROR
          then do {
            c \<leftarrow> release_network c;
            Some (rc, msg, mqtt_set_client_state c CLIENT_STATE_DISCONNECTED)
          }
          else Some (rc, msg, c)
        }
      })"

definition mqtt_subscribe ::
  "mqtt_client \<Rightarrow> bytes option \<Rightarrow> nat \<Rightarrow> message_handler option \<Rightarrow> (int \<times> mqtt_client) option" where
  "mqtt_subscribe c topic_filter qos handler =
     (if mqtt_get_client_state c \<noteq> CLIENT_STATE_CONNECTED then Some (MQTT_NOT_CONNECT_ERROR, c)
      else do {
        c \<leftarrow> lock_write c;
        let (packet_id, c) = mqtt_get_next_packet_id c;
        (len, c) \<leftarrow> serialize_into c (\<lambda>buf n.
                     MQTTSerialize_subscribe buf n 0 packet_id 1 [topic_str topic_filter] [int qos]);
        (rc, c) \<leftarrow>
          (if len \<le> 0 then Some (MQTT_SUBSCRIBE_ERROR, c)
           else do {
             (rc, _, c) \<leftarrow> mqtt_send_packet c (nat len);
             if rc \<noteq> MQTT_SUCCESS_ERROR then Some (rc, c)
             else
               (let handler = (case handler of None \<Rightarrow> Default_msg_handler | Some h \<Rightarrow> h);
                    (msg_handler, c) = mqtt_msg_handler_create c topic_filter qos handler in
                case msg_handler of
                  None \<Rightarrow> Some (MQTT_MEM_NOT_ENOUGH_ERROR, c)
                | Some p \<Rightarrow> mqtt_ack_list_record c SUBACK packet_id (of_int len) (Some p))
           });
        Some (rc, unlock_write c)
      })"

definition mqtt_unsubscribe :: "mqtt_client \<Rightarrow> bytes option \<Rightarrow> (int \<times> mqtt_client) option" where
  "mqtt_unsubscribe c topic_filter =
     (if mqtt_get_client_state c \<noteq> CLIENT_STATE_CONNECTED then Some (MQTT_NOT_CONNECT_ERROR, c)
      else do {
        c \<leftarrow> lock_write c;
        let (packet_id, c) = mqtt_get_next_packet_id c;
        (len, c) \<leftarrow> serialize_into c (\<lambda>buf n.
                     MQTTSerialize_unsubscribe buf n 0 packet_id 1 [topic_str topic_filter]);
        (rc, c) \<leftarrow>
          (if len \<le> 0 then Some (MQTT_FAILED_ERROR, c)
           else do {
             (rc, _, c) \<leftarrow> mqtt_send_packet c (nat len);
             if rc \<noteq> MQTT_SUCCESS_ERROR then Some (rc, c)
             else do {
               msg_handler \<leftarrow> mqtt_get_msg_handler c (topic_str topic_filter);
               case msg_handler of
                 None \<Rightarrow> Some (MQTT_MEM_NOT_ENOUGH_ERROR, c)
               | Some p \<Rightarrow> mqtt_ack_list_record c UNSUBACK packet_id (of_int len) (Some p)
             }
           });
        Some (rc, unlock_write c)
      })"

fun list_topics_loop :: "mqtt_client \<Rightarrow> addr list \<Rightarrow> unit option" where
  "list_topics_loop c [] = Some ()"
| "list_topics_loop c (p # ps) = do { _ \<leftarrow> handlers c p; list_topics_loop c ps }"

text \<open>It only logs; the loop follows every handler's pointer.\<close>

definition mqtt_list_subscribe_topic :: "mqtt_client option \<Rightarrow> int option" where
  "mqtt_list_subscribe_topic c =
     (case c of
        None \<Rightarrow> Some MQTT_NULL_VALUE_ERROR
      | Some c \<Rightarrow> do { _ \<leftarrow> list_topics_loop c (mqtt_msg_handler_list c); Some MQTT_SUCCESS_ERROR })"

section \<open>Connect and disconnect\<close>

text \<open>
  On Linux: the result is never null, because the function writes to the thread object also when there
  is no memory for it or when it has freed it again. How \<open>pthread_create\<close> ends is an entry of
  the allocation script.
\<close>

definition pthread_create :: "mqtt_client \<Rightarrow> bool \<times> mqtt_client" where
  "pthread_create c = platform_memory_alloc c"

definition platform_thread_init :: "mqtt_client \<Rightarrow> (bool \<times> mqtt_client) option" where
  "platform_thread_init c =
     (let (thread, c) = platform_memory_alloc c in
      if \<not> thread then None
      else
        (let (ok, c) = pthread_create c in
         if \<not> ok then None else Some (True, c\<lparr>thread_live := True\<rparr>)))"

definition mqtt_connect_data :: "mqtt_client \<Rightarrow> MQTTPacket_connectData option" where
  "mqtt_connect_data c =
     (let d = MQTTPacket_connectData_initializer
        \<lparr>keepAliveInterval := mqtt_keep_alive_interval c,
         cleansession := ucast (mqtt_clean_session_flag c),
         MQTTVersion := ucast (mqtt_version c),
         clientID := topic_str (mqtt_client_id c),
         username := topic_str (mqtt_user_name c),
         password := topic_str (mqtt_password c)\<rparr> in
      if mqtt_will_flag c = 0 then Some d
      else do {
        wo \<leftarrow> mqtt_will_options c;
        Some (d\<lparr>willFlag := ucast (mqtt_will_flag c),
                will := (will d)\<lparr>will_qos := wo_qos wo, will_retained := wo_retained wo,
                  will_topicName := topic_str (wo_topic wo), will_message := topic_str (wo_message wo)\<rparr>\<rparr>)
      })"

definition connect_wait :: "bool \<Rightarrow> platform_timer \<Rightarrow> mqtt_client \<Rightarrow> (int \<times> mqtt_client) option" where
  "connect_wait sgnd connect_timer c =
     do {
       (rc, c) \<leftarrow> mqtt_wait_packet sgnd c (uint (msg_code CONNACK)) connect_timer;
       if rc = uint (msg_code CONNACK)
       then do {
         (ok, out) \<leftarrow> MQTTDeserialize_connack \<lparr>co_sessionPresent = 0, co_connack_rc = 0\<rparr>
                       (read_bytes c) (unat (mqtt_read_buf_size c));
         Some (if ok = 1 then uint (co_connack_rc out) else MQTT_CONNECT_FAILED_ERROR, c)
       }
       else Some (MQTT_CONNECT_FAILED_ERROR, c)
     }"

definition connect_exit :: "int \<Rightarrow> mqtt_client \<Rightarrow> (int \<times> mqtt_client) option" where
  "connect_exit rc c =
     (if rc = MQTT_SUCCESS_ERROR
      then do {
        (rc, c) \<leftarrow>
          (if \<not> mqtt_thread c
           then do {
             (thread, c) \<leftarrow> platform_thread_init c;
             let c = c\<lparr>mqtt_thread := thread\<rparr>;
             if thread then Some (rc, mqtt_set_client_state c CLIENT_STATE_CONNECTED)
             else do { c \<leftarrow> release_network c; Some (MQTT_CONNECT_FAILED_ERROR, c) }
           }
           else Some (rc, mqtt_set_client_state c CLIENT_STATE_CONNECTED));
        Some (rc, c\<lparr>mqtt_ping_outstanding := 0\<rparr>)
      }
      else do {
        c \<leftarrow> release_network c;
        Some (rc, mqtt_set_client_state c CLIENT_STATE_INITIALIZED)
      })"

definition mqtt_connect_with_results :: "bool \<Rightarrow> mqtt_client \<Rightarrow> (int \<times> mqtt_client) option" where
  "mqtt_connect_with_results sgnd c =
     (if mqtt_get_client_state c = CLIENT_STATE_CONNECTED then Some (MQTT_SUCCESS_ERROR, c)
      else do {
        let c = c\<lparr>mqtt_network := snd (network_init (mqtt_network c) (mqtt_host c) (mqtt_port c))\<rparr>;
        n \<leftarrow> mqtt_network c;
        let (rc, n, c) = network_connect n c;
        let c = c\<lparr>mqtt_network := Some n\<rparr>;
        if rc \<noteq> MQTT_SUCCESS_ERROR then do { c \<leftarrow> release_network c; Some (rc, c) }
        else do {
          connect_data \<leftarrow> mqtt_connect_data c;
          let c = c\<lparr>mqtt_last_received := keep_alive_timer c\<rparr>;
          c \<leftarrow> lock_write c;
          (len, c) \<leftarrow> serialize_into c (\<lambda>buf n. MQTTSerialize_connect buf n connect_data);
          (rc, c) \<leftarrow>
            (if len \<le> 0 then Some (rc, c)
             else do {
               (rc, connect_timer, c) \<leftarrow> mqtt_send_packet c (nat len);
               if rc \<noteq> MQTT_SUCCESS_ERROR then Some (rc, c) else connect_wait sgnd connect_timer c
             });
          (rc, c) \<leftarrow> connect_exit rc c;
          Some (rc, unlock_write c)
        }
      })"

definition mqtt_connect :: "bool \<Rightarrow> mqtt_client \<Rightarrow> (int \<times> mqtt_client) option" where
  "mqtt_connect sgnd c = mqtt_connect_with_results sgnd c"

definition mqtt_disconnect :: "mqtt_client \<Rightarrow> (int \<times> mqtt_client) option" where
  "mqtt_disconnect c =
     do {
       c \<leftarrow> lock_write c;
       (len, c) \<leftarrow> serialize_into c MQTTSerialize_disconnect;
       (rc, c) \<leftarrow>
         (if len > 0 then do { (rc, _, c) \<leftarrow> mqtt_send_packet c (nat len); Some (rc, c) }
          else Some (MQTT_FAILED_ERROR, c));
       Some (rc, mqtt_set_client_state (unlock_write c) CLIENT_STATE_CLEAN_SESSION)
     }"

section \<open>Reconnecting\<close>

fun resubscribe_loop :: "addr list \<Rightarrow> int \<Rightarrow> mqtt_client \<Rightarrow> (int \<times> mqtt_client) option" where
  "resubscribe_loop [] rc c = Some (rc, c)"
| "resubscribe_loop (p # ps) rc c =
     do {
       h \<leftarrow> handlers c p;
       (rc, c) \<leftarrow> mqtt_subscribe c (mh_topic_filter h) (mh_qos h) (Some (mh_handler h));
       resubscribe_loop ps rc c
     }"

definition mqtt_try_resubscribe :: "mqtt_client \<Rightarrow> (int \<times> mqtt_client) option" where
  "mqtt_try_resubscribe c =
     (if mqtt_msg_handler_list c = [] then Some (MQTT_SUCCESS_ERROR, c)
      else resubscribe_loop (mqtt_msg_handler_list c) MQTT_RESUBSCRIBE_ERROR c)"

definition mqtt_try_do_reconnect :: "bool \<Rightarrow> mqtt_client \<Rightarrow> (int \<times> mqtt_client) option" where
  "mqtt_try_do_reconnect sgnd c =
     do {
       (rc, c) \<leftarrow> (if mqtt_get_client_state c \<noteq> CLIENT_STATE_CONNECTED then mqtt_connect sgnd c
                  else Some (MQTT_CONNECT_FAILED_ERROR, c));
       if rc = MQTT_SUCCESS_ERROR
       then do {
         (rc, c) \<leftarrow> mqtt_try_resubscribe c;
         c \<leftarrow> mqtt_ack_list_scan c 0;
         Some (rc, c)
       }
       else Some (rc, c)
     }"

type_synonym reconnect_callback = "nat \<Rightarrow> nat option \<Rightarrow> mqtt_client \<Rightarrow> mqtt_client"

definition mqtt_try_reconnect :: "bool \<Rightarrow> reconnect_callback \<Rightarrow> mqtt_client \<Rightarrow> (int \<times> mqtt_client) option" where
  "mqtt_try_reconnect sgnd callback c =
     do {
       let c = (case mqtt_reconnect_handler c of
                  None \<Rightarrow> c
                | Some f \<Rightarrow> callback f (mqtt_reconnect_data c) c);
       (rc, c) \<leftarrow> mqtt_try_do_reconnect sgnd c;
       if rc \<noteq> MQTT_SUCCESS_ERROR
       then Some (MQTT_RECONNECT_TIMEOUT_ERROR, mqtt_sleep_ms c (unat (mqtt_reconnect_try_duration c)))
       else Some (rc, c)
     }"

section \<open>The background loop\<close>

type_synonym yield_tail = "int \<Rightarrow> mqtt_client \<Rightarrow> ((int \<times> mqtt_client) + mqtt_client) option"

partial_function (option) yield_loop ::
  "bool \<Rightarrow> reconnect_callback \<Rightarrow> yield_tail \<Rightarrow> int \<Rightarrow> platform_timer \<Rightarrow> mqtt_client \<Rightarrow> (int \<times> mqtt_client) option" where
  "yield_loop sgnd callback tail rc timer c =
     (if timer_expired c timer then Some (rc, c)
      else
        (let state = mqtt_get_client_state c in
         if state = CLIENT_STATE_CLEAN_SESSION then Some (MQTT_CLEAN_SESSION_ERROR, c)
         else if state \<noteq> CLIENT_STATE_CONNECTED
         then do {
           (rc, c) \<leftarrow> mqtt_try_reconnect sgnd callback c;
           if rc = MQTT_RECONNECT_TIMEOUT_ERROR then Some (rc, c)
           else yield_loop sgnd callback tail rc timer c
         }
         else do {
           (rc, timer, c) \<leftarrow> mqtt_packet_handle sgnd c;
           next \<leftarrow> tail rc c;
           case next of
             Inl r \<Rightarrow> Some r
           | Inr c \<Rightarrow> yield_loop sgnd callback tail rc timer c
         }))"

declare yield_loop.simps [code]

definition mqtt_yield ::
  "bool \<Rightarrow> reconnect_callback \<Rightarrow> yield_tail \<Rightarrow> mqtt_client option \<Rightarrow> nat \<Rightarrow> (int \<times> mqtt_client option) option" where
  "mqtt_yield sgnd callback tail c timeout_ms =
     (case c of
        None \<Rightarrow> Some (MQTT_FAILED_ERROR, None)
      | Some c \<Rightarrow>
          do {
            let timeout_ms = (if timeout_ms = 0 then unat (mqtt_cmd_timeout c) else timeout_ms);
            (rc, c) \<leftarrow> yield_loop sgnd callback tail MQTT_SUCCESS_ERROR (timer_cutdown c timeout_ms) c;
            Some (rc, Some c)
          })"

text \<open>The thread, from its loop on: it ends when the session is cleaned. At its end it frees its own object, and the
  pointer to it stays in the client.\<close>

definition end_thread :: "mqtt_client \<Rightarrow> mqtt_client option" where
  "end_thread c =
     (if \<not> mqtt_thread c then Some c
      else if \<not> thread_live c then None
      else Some (c\<lparr>thread_live := False\<rparr>))"

partial_function (option) mqtt_yield_thread ::
  "bool \<Rightarrow> reconnect_callback \<Rightarrow> yield_tail \<Rightarrow> mqtt_client \<Rightarrow> mqtt_client option" where
  "mqtt_yield_thread sgnd callback tail c =
     do {
       (rc, c) \<leftarrow> mqtt_yield sgnd callback tail (Some c) (unat (mqtt_cmd_timeout c));
       c \<leftarrow> c;
       if rc = MQTT_CLEAN_SESSION_ERROR
       then do {
         n \<leftarrow> mqtt_network c;
         let (n, c) = network_disconnect n c;
         c \<leftarrow> mqtt_clean_session (c\<lparr>mqtt_network := Some n\<rparr>);
         end_thread c
       }
       else mqtt_yield_thread sgnd callback tail c
     }"

declare mqtt_yield_thread.simps [code]

section \<open>Release\<close>

text \<open>Between two looks at the state the other thread and the clock take a step of \<open>env\<close>.\<close>

partial_function (option) release_wait ::
  "(nat \<Rightarrow> mqtt_client \<Rightarrow> mqtt_client) \<Rightarrow> nat \<Rightarrow> platform_timer \<Rightarrow> mqtt_client \<Rightarrow> (bool \<times> mqtt_client) option" where
  "release_wait env i timer c =
     (if mqtt_get_client_state c = CLIENT_STATE_INVALID then Some (True, c)
      else if timer_expired c timer then Some (False, c)
      else release_wait env (Suc i) timer (env i c))"

declare release_wait.simps [code]

text \<open>The buffers and the network object are freed and the client is cleared; the heap of message
  handlers, the thread object and the log of deliveries are not part of it.\<close>

definition client_clear :: "mqtt_client \<Rightarrow> mqtt_client" where
  "client_clear c = (client_zero (world.truncate c))
     \<lparr>handlers := handlers c, next_addr := next_addr c, delivered := delivered c, thread_live := thread_live c\<rparr>"

definition mqtt_release ::
  "(nat \<Rightarrow> mqtt_client \<Rightarrow> mqtt_client) \<Rightarrow> mqtt_client option \<Rightarrow> (int \<times> mqtt_client option) option" where
  "mqtt_release env c =
     (case c of
        None \<Rightarrow> Some (MQTT_NULL_VALUE_ERROR, None)
      | Some c \<Rightarrow>
          do {
            (ok, c) \<leftarrow> release_wait env 0 (cmd_timer c) c;
            if \<not> ok then Some (MQTT_FAILED_ERROR, Some c) else Some (MQTT_SUCCESS_ERROR, Some (client_clear c))
          })"

end
