(* ===== verification/Client_Delivery.thy ===== *)
theory Client_Delivery
  imports Client_Handlers
begin

text \<open>
  What arrives: the receiving path keeps the client's invariant whatever the network sends, and the
  handlers do on well-formed packets what the protocol asks for. The quality of service 2 receiver is
  an instance of the identifier table of \<^verbatim>\<open>Client_Tables\<close>, which gives delivery exactly once.
\<close>

section \<open>Delivering a message\<close>

lemma strlen_at_less: "strlen_at xs = Some k \<Longrightarrow> k < length xs"
  by (induction xs arbitrary: k) (auto split: if_splits)

lemma strlen_at_ex: "0 \<in> set xs \<Longrightarrow> \<exists>k. strlen_at xs = Some k"
  by (induction xs) auto

lemma zero_block_length: "zero_block buf i n = Some buf' \<Longrightarrow> length buf' = length buf"
  by (auto simp: zero_block_def dest: write_bytes_length)

lemma zero_block_ex: "i + n \<le> length buf \<Longrightarrow> \<exists>buf'. zero_block buf i n = Some buf'"
  by (simp add: zero_block_def write_bytes_def)

text \<open>A delivery only extends the log and writes into the read buffer.\<close>

lemma deliver_shape:
  assumes "mqtt_deliver_message c t msg = Some (rc, c')"
  shows "\<exists>ds buf. c' = c\<lparr>delivered := delivered c @ ds, mqtt_read_buf := map_option (\<lambda>_. buf) (mqtt_read_buf c)\<rparr> \<and>
    length buf = length (buf_bytes (mqtt_read_buf c))"
proof -
  obtain c1 ds i n buf1 j buf where s: "c1 = c\<lparr>delivered := delivered c @ ds\<rparr>"
      "zero_block (buf_bytes (mqtt_read_buf c1)) i n = Some buf1" "zero_block buf1 j (lenstring_len t) = Some buf"
      "c' = c1\<lparr>mqtt_read_buf := map_option (\<lambda>_. buf) (mqtt_read_buf c1)\<rparr>"
  proof -
    have id: "c = c\<lparr>delivered := delivered c @ []\<rparr>" by (cases c) simp
    show ?thesis
      using assms that
      by (auto simp: mqtt_deliver_message_def call_handler_def Let_def split: bind_splits option.splits)
        (metis id)+
  qed
  with zero_block_length [OF s(2)] zero_block_length [OF s(3)] show ?thesis by auto
qed

lemma deliver_keeps:
  assumes "mqtt_deliver_message c t msg = Some (rc, c')" "client_ok c"
  shows "client_ok c'" "mqtt_write_lock c' = mqtt_write_lock c" "mqtt_ack_handler_list c' = mqtt_ack_handler_list c"
    "mqtt_client_state c' = mqtt_client_state c"
proof -
  obtain ds buf where s: "c' = c\<lparr>delivered := delivered c @ ds, mqtt_read_buf := map_option (\<lambda>_. buf) (mqtt_read_buf c)\<rparr>"
      "length buf = length (buf_bytes (mqtt_read_buf c))"
    using deliver_shape [OF assms(1)] by blast
  obtain rb where "mqtt_read_buf c = Some rb" "length rb = unat (mqtt_read_buf_size c)"
    using assms(2) by (auto simp: client_ok_defs)
  with s client_ok_read [of "c\<lparr>delivered := delivered c @ ds\<rparr>" buf] assms(2) show "client_ok c'"
    by (simp add: buf_bytes_def)
  from s(1) show "mqtt_write_lock c' = mqtt_write_lock c" "mqtt_ack_handler_list c' = mqtt_ack_handler_list c"
      "mqtt_client_state c' = mqtt_client_state c"
    by simp_all
qed

text \<open>Who gets a message on a topic: the first installed handler whose filter accepts it, or else the
  interceptor.\<close>

definition receiver :: "mqtt_client \<Rightarrow> MQTTString \<Rightarrow> message_handler option" where
  "receiver c t =
     (case find (\<lambda>p. accepts t (the (filter_of (handlers c) p))) (mqtt_msg_handler_list c) of
        Some p \<Rightarrow> Some (mh_handler (the (handlers c p)))
      | None \<Rightarrow> mqtt_interceptor_handler c)"

lemma deliver_ok:
  assumes "client_ok c" "mqtt_read_buf c = Some rb"
    and "t = \<lparr>cstring = None, lenstring_len = length ts, lenstring_data = Some (rb, j)\<rparr>" "seg rb j ts"
    and "msg_payload msg = Some (rb, i)" "deref_block (Some (rb, i)) (msg_payloadlen msg) = Some ps"
    and "strlen_at (drop i rb) = Some k"
  shows "\<exists>rc buf. mqtt_deliver_message c t msg = Some (rc, c
      \<lparr>delivered := delivered c @
         (case receiver c t of
            None \<Rightarrow> []
          | Some h \<Rightarrow> [\<lparr>dl_handler = h, dl_topic = take (MQTT_TOPIC_LEN_MAX - 1) ts, dl_qos = msg_qos msg,
                       dl_id = msg_id msg, dl_payload = Some ps\<rparr>]),
       mqtt_read_buf := Some buf\<rparr>) \<and> length buf = length rb"
proof -
  have tf: "lenstring_len t = length ts" "lenstring_data t = Some (rb, j)" using assms(3) by simp_all
  have deref: "deref_block (Some (rb, j)) n = Some (take n ts)" if "n \<le> length ts" for n
    using assms(4) that rd_block_take [of rb j "length ts" ts n] by (simp add: deref_block_def rd_block_seg)
  then have wf: "topic_wf t" using tf by (simp add: topic_wf_def)
  have md: "mqtt_new_message_data t msg = Some \<lparr>md_topic_name = take (MQTT_TOPIC_LEN_MAX - 1) ts, md_message = msg\<rparr>"
  proof (cases "length ts < MQTT_TOPIC_LEN_MAX - 1")
    case True
    with tf deref [of "length ts"] show ?thesis by (simp add: mqtt_new_message_data_def)
  next
    case False
    with tf deref [of "MQTT_TOPIC_LEN_MAX - 1"] show ?thesis by (simp add: mqtt_new_message_data_def)
  qed
  have live: "live_filter (handlers c) p" if "p \<in> set (mqtt_msg_handler_list c)" for p
    using hok_live [of "mqtt_msg_handler_list c"] that assms(1) by (simp add: client_ok_def handlers_ok_def) blast
  obtain buf1 where b1: "zero_block rb i k = Some buf1"
    using zero_block_ex [of i k rb] strlen_at_less [OF assms(7)] by force
  obtain buf where b2: "zero_block buf1 j (length ts) = Some buf"
    using zero_block_ex [of j "length ts" buf1] zero_block_length [OF b1] assms(4) by (auto simp: seg_def)
  have lb: "length buf = length rb" using zero_block_length [OF b1] zero_block_length [OF b2] by simp
  let ?find = "find (\<lambda>p. accepts t (the (filter_of (handlers c) p))) (mqtt_msg_handler_list c)"
  note simps = mqtt_deliver_message_def get_handler_eq [OF assms(1) wf] call_handler_def receiver_def Let_def
    buf_bytes_def
  show ?thesis
  proof (cases ?find)
    case None
    then show ?thesis
      using md b1 b2 lb tf assms(2,5-7)
      by (intro exI [of _ "if mqtt_interceptor_handler c = None then MQTT_FAILED_ERROR else MQTT_SUCCESS_ERROR"]
          exI [of _ buf]) (cases "mqtt_interceptor_handler c"; simp add: simps)
  next
    case (Some p)
    then have "p \<in> set (mqtt_msg_handler_list c)" by (auto simp: find_Some_iff)
    from live [OF this] obtain h where "handlers c p = Some h" by (auto simp: live_filter_def)
    with Some show ?thesis
      using md b1 b2 lb tf assms(2,5-7)
      by (intro exI [of _ MQTT_SUCCESS_ERROR] exI [of _ buf]) (simp add: simps)
  qed
qed

section \<open>Receiving with quality of service 2\<close>

text \<open>
  What the network brings, as it stands in the read buffer: a QoS 2 message (duplicate flag,
  identifier, topic, payload) or a PUBREL; \<open>post\<close> is what the buffer holds behind the packet.
\<close>

datatype qos2_event = Message u8 u16 bytes bytes bytes | Release u16 bytes

fun event_buffer :: "qos2_event \<Rightarrow> bytes" where
  "event_buffer (Message dup pid ts ps post) = publish_packet dup QOS2 0 pid ts ps @ post"
| "event_buffer (Release pid post) = ack_packet PUBREL 0 pid @ post"

fun event_key :: "qos2_event \<Rightarrow> (msgTypes \<times> u16) + (msgTypes \<times> u16)" where
  "event_key (Message dup pid ts ps post) = Inl (PUBREL, pid)"
| "event_key (Release pid post) = Inr (PUBREL, pid)"

fun event_wf :: "nat \<Rightarrow> qos2_event \<Rightarrow> bool" where
  "event_wf n (Message dup pid ts ps post) \<longleftrightarrow> length ts < 65536 \<and> publish_rem QOS2 ts ps < 268435456 \<and>
     length (event_buffer (Message dup pid ts ps post)) = n \<and> 0 \<in> set post"
| "event_wf n (Release pid post) \<longleftrightarrow> length (event_buffer (Release pid post)) = n"

definition qos2_step :: "bool \<Rightarrow> qos2_event \<Rightarrow> mqtt_client \<Rightarrow> mqtt_client option" where
  "qos2_step sgnd e c =
     do {
       let c = c\<lparr>mqtt_read_buf := Some (event_buffer e)\<rparr>;
       header \<leftarrow> rd (event_buffer e) 0;
       (_, _, c) \<leftarrow> dispatch sgnd (hdr_type header) (cmd_timer c) c;
       Some c
     }"

fun qos2_run :: "bool \<Rightarrow> qos2_event list \<Rightarrow> mqtt_client \<Rightarrow> mqtt_client option" where
  "qos2_run sgnd [] c = Some c"
| "qos2_run sgnd (e # es) c = do { c \<leftarrow> qos2_step sgnd e c; qos2_run sgnd es c }"

text \<open>A connected client in a kind environment, with an interceptor for messages nobody subscribed to.\<close>

definition ready :: "mqtt_client \<Rightarrow> bool" where
  "ready c \<longleftrightarrow> client_ok c \<and> mqtt_client_state c = CLIENT_STATE_CONNECTED \<and> \<not> mqtt_write_lock c \<and> smooth c \<and>
     allocs c = [] \<and> mqtt_interceptor_handler c \<noteq> None"

declare msg_code.simps [simp del] event_buffer.simps [simp del]

lemma hdr_types [simp]:
  "hdr_type (mk_header (msg_code t) d q r) = msg_code t"
  by simp

lemma dispatch_simps [simp]:
  "dispatch sgnd (msg_code PUBLISH) timer c = mqtt_publish_packet_handle c timer"
  "dispatch sgnd (msg_code PUBREL) timer c = with_timer timer (mqtt_pubrec_and_pubrel_packet_handle c)"
  "dispatch sgnd (msg_code PUBREC) timer c = with_timer timer (mqtt_pubrec_and_pubrel_packet_handle c)"
  "dispatch sgnd (msg_code PUBACK) timer c = with_timer timer (mqtt_puback_and_pubcomp_packet_handle c)"
  "dispatch sgnd (msg_code PUBCOMP) timer c = with_timer timer (mqtt_puback_and_pubcomp_packet_handle c)"
  by (simp_all add: dispatch_def)

lemma rd_packet [simp]:
  "rd (publish_packet dup qos ret pid ts ps @ post) 0 = Some (mk_header (msg_code PUBLISH) dup qos ret)"
  "rd (ack_packet t dup pid @ post) 0 = Some (mk_header (msg_code t) dup (if t = PUBREL then 1 else 0) 0)"
  by (simp_all add: rd_def publish_packet_def ack_packet_def)

lemma receiver_ready: "ready c \<Longrightarrow> \<exists>h. receiver c t = Some h"
  by (auto simp: receiver_def ready_def split: option.splits)

lemma client_ok_add_pub:
  assumes "client_ok c" "\<not> has_key (mqtt_ack_handler_list c) (t, pid)" "unat plen \<le> unat (mqtt_write_buf_size c)"
    and "t \<noteq> SUBACK" "t \<noteq> UNSUBACK"
  shows "client_ok (add_ack c (new_ack c t pid plen None))"
proof -
  have "acks_ok (add_ack c (new_ack c t pid plen None))"
    using assms new_ack_wf [OF assms(1,3), of None t]
    by (intro acks_ok_add) (simp_all add: client_ok_def has_key_def)
  moreover have "handlers_ok (add_ack c (new_ack c t pid plen None))"
    using assms(1,4,5) by (simp add: client_ok_def handlers_ok_def)
  ultimately show ?thesis using assms(1) by (simp add: client_ok_def)
qed

lemma message_step:
  assumes "ready c" "event_wf (unat (mqtt_read_buf_size c)) (Message dup pid ts ps post)" "mqtt_network c = Some n"
  shows "\<exists>c'. qos2_step sgnd (Message dup pid ts ps post) c = Some c' \<and> ready c' \<and>
    mqtt_read_buf_size c' = mqtt_read_buf_size c \<and> mqtt_network c' = Some n \<and>
    wire c' = wire c @ [(net_socket n, ack_packet PUBREC 0 pid)] \<and>
    (\<forall>k. has_key (mqtt_ack_handler_list c') k \<longleftrightarrow> k = (PUBREL, pid) \<or> has_key (mqtt_ack_handler_list c) k) \<and>
    (if has_key (mqtt_ack_handler_list c) (PUBREL, pid) then delivered c' = delivered c
     else \<exists>h. delivered c' = delivered c @ [\<lparr>dl_handler = h, dl_topic = take (MQTT_TOPIC_LEN_MAX - 1) ts,
            dl_qos = QOS2, dl_id = pid, dl_payload = Some ps\<rparr>])"
proof -
  let ?buf = "event_buffer (Message dup pid ts ps post)"
  have fit: "length ts < 65536" "QOS2 < 4" "publish_rem QOS2 ts ps < 268435456" using assms(2) by (auto simp: QOS2_def)
  note d = decode_publish_packet [OF fit, of ?buf dup 0 pid post, OF event_buffer.simps(1)]
  define c0 where "c0 = c\<lparr>mqtt_read_buf := Some ?buf\<rparr>"
  have r: "client_ok c" "mqtt_client_state c = CLIENT_STATE_CONNECTED" "\<not> mqtt_write_lock c" "smooth c" "allocs c = []"
    using assms(1) by (simp_all add: ready_def)
  have ok0: "client_ok c0" using client_ok_read [OF r(1), of ?buf] assms(2) by (simp add: c0_def)
  obtain timer' c1 where s: "publish_send_ack c0 QOS2 pid (cmd_timer c0) = Some (MQTT_SUCCESS_ERROR, 4, timer', c1)"
      "client_ok c1" "same_tables c0 c1" "allocs c1 = []"
      "take 4 (buf_bytes (mqtt_write_buf c1)) = ack_packet PUBREC 0 pid" "smooth c1"
      "wire c1 = wire c @ [(net_socket n, ack_packet PUBREC 0 pid)]"
    using publish_send_ack_ok [OF ok0, of n QOS2 pid "cmd_timer c0"] r(3-5) assms(3)
    by (auto simp: c0_def smooth_def QOS1_def QOS2_def)
  note f = same_tables_fields [OF s(3), simplified c0_def, simplified]
  let ?msg = "\<lparr>msg_qos = QOS2, msg_retained = 0, msg_dup = take_bit 1 dup, msg_id = pid,
    msg_payloadlen = nat (int (length ps) mod 4294967296), msg_payload = Some (?buf, payload_at QOS2 ts ps)\<rparr>"
  let ?t = "\<lparr>cstring = None, lenstring_len = length ts, lenstring_data = Some (?buf, topic_at QOS2 ts ps)\<rparr>"
  have plen: "nat (int (length ps) mod 4294967296) = length ps"
    using fit(3) by (simp add: publish_rem_def nat_mod_distrib)
  have conn: "mqtt_is_connected c0 = MQTT_SUCCESS_ERROR"
    using r(2) by (simp add: c0_def mqtt_is_connected_def mqtt_get_client_state_def)
  have sz: "unat (4 :: u16) \<le> length (buf_bytes (mqtt_write_buf c1))"
    using client_ok_wbuf [OF s(2)] by (auto simp: buf_bytes_def)
  have hd: "rd ?buf 0 = Some (mk_header (msg_code PUBLISH) dup QOS2 0)" by (simp add: event_buffer.simps)
  have out: "publish_out_uninit c0 = publish_out_uninit c" "read_bytes c0 = ?buf"
    by (simp_all add: c0_def publish_out_uninit_def read_bytes_def buf_bytes_def)
  have step: "qos2_step sgnd (Message dup pid ts ps post) c = do {
      (rc, c) \<leftarrow> mqtt_ack_list_record c1 PUBREL pid 4 None;
      if rc \<noteq> MQTT_ACK_NODE_IS_EXIST_ERROR
      then do { (_, c) \<leftarrow> mqtt_deliver_message c ?t ?msg; Some c } else Some c }"
  proof -
    have "qos2_step sgnd (Message dup pid ts ps post) c =
        do { (_, _, c) \<leftarrow> mqtt_publish_packet_handle c0 (cmd_timer c0); Some c }"
      using hd by (simp add: qos2_step_def c0_def Let_def cmd_timer_def timer_cutdown_def)
    also have "mqtt_publish_packet_handle c0 (cmd_timer c0) = do {
        (rc, c) \<leftarrow> mqtt_ack_list_record c1 PUBREL pid 4 None;
        if rc \<noteq> MQTT_ACK_NODE_IS_EXIST_ERROR
        then do { (_, c) \<leftarrow> mqtt_deliver_message c ?t ?msg; Some (rc, timer', c) } else Some (rc, timer', c) }"
      using d(1) conn s(1) out by (simp add: mqtt_publish_packet_handle_def MQTT_SUCCESS_ERROR_def Let_def QOS2_def cong: if_cong)
    finally show ?thesis by (simp add: bind_assoc case_prod_unfold if_distrib [of "\<lambda>x. Option.bind x _"] cong: if_cong)
  qed
  have same_ready: "ready c'" if "client_ok c'" "mqtt_client_state c' = mqtt_client_state c1" "mqtt_write_lock c' = mqtt_write_lock c1"
      "tx c' = tx c1" "mqtt_cmd_timeout c' = mqtt_cmd_timeout c1" "allocs c' = []"
      "mqtt_interceptor_handler c' = mqtt_interceptor_handler c1" for c'
    using that f s(6) assms(1) by (simp add: ready_def smooth_def)
  have c1: "ready c1" "mqtt_network c1 = Some n" "mqtt_read_buf_size c1 = mqtt_read_buf_size c"
      "mqtt_ack_handler_list c1 = mqtt_ack_handler_list c" "delivered c1 = delivered c" "mqtt_read_buf c1 = Some ?buf"
    using same_ready [OF s(2)] f s(4) assms(3) by simp_all
  note rec = record_eq [OF sz, of PUBREL pid None]
  show ?thesis
  proof (cases "has_key (mqtt_ack_handler_list c) (PUBREL, pid)")
    case True
    with rec c1 s(7) step show ?thesis by (auto simp: has_key_def mqtt_errors)
  next
    case False
    let ?a = "new_ack c1 PUBREL pid 4 None"
    let ?c2 = "add_ack c1 ?a"
    have "c1\<lparr>allocs := []\<rparr> = c1" using s(4) by (cases c1) simp
    with False rec c1(4) s(4) have r2: "mqtt_ack_list_record c1 PUBREL pid 4 None = Some (MQTT_SUCCESS_ERROR, ?c2)"
      by (simp add: has_key_def alloc_ok_def)
    have ok2: "client_ok ?c2"
      using False c1(4) client_ok_wbuf [OF s(2)] by (intro client_ok_add_pub [OF s(2)]) auto
    have key: "has_key (mqtt_ack_handler_list ?c2) k \<longleftrightarrow> k = (PUBREL, pid) \<or> has_key (mqtt_ack_handler_list c) k" for k
      using c1(4) by (auto simp: has_key_def)
    obtain k where k: "strlen_at (drop (payload_at QOS2 ts ps) ?buf) = Some k"
      using strlen_at_ex [of "ps @ post"] d(5) assms(2) by auto
    have pl: "deref_block (Some (?buf, payload_at QOS2 ts ps)) (msg_payloadlen ?msg) = Some ps"
      using deref_seg [OF d(3)] plen by simp
    have rb: "mqtt_read_buf ?c2 = Some ?buf" using c1(6) by simp
    obtain rc buf where dl: "mqtt_deliver_message ?c2 ?t ?msg = Some (rc, ?c2
        \<lparr>delivered := delivered ?c2 @ (case receiver ?c2 ?t of None \<Rightarrow> []
            | Some h \<Rightarrow> [\<lparr>dl_handler = h, dl_topic = take (MQTT_TOPIC_LEN_MAX - 1) ts, dl_qos = msg_qos ?msg,
                         dl_id = msg_id ?msg, dl_payload = Some ps\<rparr>]), mqtt_read_buf := Some buf\<rparr>)"
        "length buf = length ?buf"
      using deliver_ok [OF ok2 rb refl d(2) _ pl k] by auto
    have "ready ?c2" using same_ready [OF ok2] s(4) by (simp add: add_ack_def)
    from receiver_ready [OF this, of ?t] obtain h where h: "receiver ?c2 ?t = Some h" by blast
    let ?c3 = "?c2\<lparr>delivered := delivered c @ [\<lparr>dl_handler = h, dl_topic = take (MQTT_TOPIC_LEN_MAX - 1) ts,
        dl_qos = QOS2, dl_id = pid, dl_payload = Some ps\<rparr>], mqtt_read_buf := Some buf\<rparr>"
    have st: "qos2_step sgnd (Message dup pid ts ps post) c = Some ?c3"
      using step r2 dl(1) h c1(5) by (simp add: mqtt_errors)
    have "length buf = unat (mqtt_read_buf_size ?c2)" using dl(2) assms(2) c1(3) by (simp add: add_ack_def)
    then have "client_ok ?c3" using client_ok_read ok2 by simp
    then have "ready ?c3" using same_ready s(4) by (simp add: add_ack_def)
    with st key False c1 s(7) show ?thesis
      by (intro exI [of _ ?c3]) (simp add: add_ack_def)
  qed
qed

text \<open>The answers to PUBREL and PUBREC.\<close>

lemma send_ack_ok:
  assumes "client_ok c" "mqtt_network c = Some n"
    and "take 4 (buf_bytes (mqtt_write_buf c)) = xs"
  shows "\<exists>rc c'. send_ack c 4 = Some (rc, c') \<and> client_ok c' \<and> same c c' \<and> allocs c' = allocs c \<and>
    (smooth c \<longrightarrow> rc = MQTT_SUCCESS_ERROR \<and> smooth c' \<and> now_us c' = now_us c \<and>
       wire c' = wire c @ [(net_socket n, xs)])"
  using send_ok [of c 4 n] client_ok_wbuf [OF assms(1)] assms by (auto simp: send_ack_def)

lemma same_unlock: "same c c' \<Longrightarrow> same (c\<lparr>mqtt_write_lock := l\<rparr>) (c'\<lparr>mqtt_write_lock := l\<rparr>)"
  by (cases c; cases c') (simp add: same_def)

lemma pubrel_answer:
  assumes "client_ok c" "\<not> mqtt_write_lock c" "mqtt_network c = Some n"
  shows "\<exists>rc c'. mqtt_publish_ack_packet c pid (msg_code PUBREL) = Some (rc, c') \<and> client_ok c' \<and>
    same_tables c c' \<and> allocs c' = allocs c \<and>
    (smooth c \<longrightarrow> rc = MQTT_SUCCESS_ERROR \<and> smooth c' \<and> wire c' = wire c @ [(net_socket n, ack_packet PUBCOMP 0 pid)])"
proof -
  let ?c1 = "c\<lparr>mqtt_write_lock := True\<rparr>"
  obtain wb where wb: "serialize_into ?c1 (\<lambda>buf n. MQTTSerialize_ack buf n PUBCOMP 0 pid) =
      Some (4, ?c1\<lparr>mqtt_write_buf := Some (ack_packet PUBCOMP 0 pid @ wb)\<rparr>)"
      "client_ok (?c1\<lparr>mqtt_write_buf := Some (ack_packet PUBCOMP 0 pid @ wb)\<rparr>)"
    using serialize_ack_into [of ?c1 PUBCOMP 0 pid] assms(1) by auto
  let ?c2 = "?c1\<lparr>mqtt_write_buf := Some (ack_packet PUBCOMP 0 pid @ wb)\<rparr>"
  obtain rc c3 where s: "send_ack ?c2 4 = Some (rc, c3)" "client_ok c3" "same ?c2 c3" "allocs c3 = allocs c"
      "smooth ?c2 \<longrightarrow> rc = MQTT_SUCCESS_ERROR \<and> smooth c3 \<and> now_us c3 = now_us ?c2 \<and>
         wire c3 = wire ?c2 @ [(net_socket n, ack_packet PUBCOMP 0 pid)]"
    using send_ack_ok [OF wb(2), of n "ack_packet PUBCOMP 0 pid"] assms(3) by (auto simp: buf_bytes_def)
  have "mqtt_publish_ack_packet c pid (msg_code PUBREL) = Some (rc, unlock_write c3)"
    using assms(2) wb(1) s(1) by (simp add: mqtt_publish_ack_packet_def lock_write_def)
  moreover have "same_tables c (unlock_write c3)"
  proof -
    have "c\<lparr>mqtt_write_lock := False\<rparr> = c" using assms(2) by (cases c) simp
    with same_unlock [OF s(3), of False]
    have "same (c\<lparr>mqtt_write_buf := Some (ack_packet PUBCOMP 0 pid @ wb)\<rparr>) (unlock_write c3)"
      by (cases c) (simp add: unlock_write_def)
    from same_tables_trans [OF same_tables_wbuf same_tables_same [OF this]] show ?thesis .
  qed
  ultimately show ?thesis
    using s(2,4,5) by (simp add: unlock_write_def smooth_def)
qed

lemma decode_ack_buf:
  assumes "mqtt_read_buf c = Some (ack_packet t d pid @ post)"
  shows "MQTTDeserialize_ack out (read_bytes c) n =
    Some (1, \<lparr>ao_packettype = msg_code t, ao_dup = take_bit 1 d, ao_packetid = pid\<rparr>)"
  using assms by (simp add: read_bytes_def buf_bytes_def decode_ack_packet)

lemma has_key_remove: "has_key (remove_key k as) j \<longleftrightarrow> j \<noteq> k \<and> has_key as j"
  by (rule ack_table.present_remove)

text \<open>Taking a publication's record out.\<close>

lemma unrecord_pub:
  assumes "client_ok c" "is_pub_ack t"
  shows "\<exists>h c'. mqtt_ack_list_unrecord c (msg_code t) pid = (h, c') \<and> client_ok c' \<and>
    mqtt_ack_handler_list c' = remove_key (t, pid) (mqtt_ack_handler_list c) \<and>
    (c' = c \<or> (\<exists>kept rest. c' = drop_ack kept rest c))"
proof -
  have ok: "acks_ok c" using assms(1) by (simp add: client_ok_def)
  note list = unrecord_table [OF ok, of t pid]
  show ?thesis
  proof (rule unrecord_cases [OF ok, of "msg_code t" pid])
    assume "mqtt_ack_list_unrecord c (msg_code t) pid = (None, c)"
    with list assms(1) show ?thesis by auto
  next
    fix kept a rest
    assume a: "mqtt_ack_handler_list c = kept @ a # rest" "matches (msg_code t) pid a"
      "mqtt_ack_list_unrecord c (msg_code t) pid = (Some (ah_handler a), drop_ack kept rest c)"
    then have "ah_type a = t" by (simp add: matches_key ack_key_def)
    moreover have "ack_wf (unat (mqtt_write_buf_size c)) a" using ok a(1) by (simp add: acks_ok_def)
    ultimately have "ah_handler a = None" using assms(2) by (auto simp: ack_wf_def is_pub_ack_def)
    from client_ok_drop_pub [OF assms(1) a(1) this] a(3) list show ?thesis by auto
  qed
qed

lemma release_step:
  assumes "ready c" "event_wf (unat (mqtt_read_buf_size c)) (Release pid post)" "mqtt_network c = Some n"
  shows "\<exists>c'. qos2_step sgnd (Release pid post) c = Some c' \<and> ready c' \<and>
    mqtt_read_buf_size c' = mqtt_read_buf_size c \<and> mqtt_network c' = Some n \<and>
    wire c' = wire c @ [(net_socket n, ack_packet PUBCOMP 0 pid)] \<and>
    (\<forall>k. has_key (mqtt_ack_handler_list c') k \<longleftrightarrow> k \<noteq> (PUBREL, pid) \<and> has_key (mqtt_ack_handler_list c) k) \<and>
    delivered c' = delivered c"
proof -
  let ?buf = "event_buffer (Release pid post)"
  define c0 where "c0 = c\<lparr>mqtt_read_buf := Some ?buf\<rparr>"
  have r: "client_ok c" "mqtt_client_state c = CLIENT_STATE_CONNECTED" "\<not> mqtt_write_lock c" "smooth c" "allocs c = []"
    using assms(1) by (simp_all add: ready_def)
  have ok0: "client_ok c0" using client_ok_read [OF r(1), of ?buf] assms(2) by (simp add: c0_def)
  have sm0: "smooth c0" using r(4) by (simp add: c0_def smooth_def)
  obtain rc c1 where s: "mqtt_publish_ack_packet c0 pid (msg_code PUBREL) = Some (rc, c1)" "client_ok c1"
      "same_tables c0 c1" "allocs c1 = []" "smooth c1" "wire c1 = wire c @ [(net_socket n, ack_packet PUBCOMP 0 pid)]"
    using pubrel_answer [OF ok0, of n pid] r(3,5) assms(3) sm0 by (auto simp: c0_def)
  note f = same_tables_fields [OF s(3), simplified c0_def, simplified]
  obtain h c2 where u: "mqtt_ack_list_unrecord c1 (msg_code PUBREL) pid = (h, c2)" "client_ok c2"
      "mqtt_ack_handler_list c2 = remove_key (PUBREL, pid) (mqtt_ack_handler_list c1)"
      "c2 = c1 \<or> (\<exists>kept rest. c2 = drop_ack kept rest c1)"
    using unrecord_pub [OF s(2), of PUBREL pid] by (auto simp: is_pub_ack_def)
  have conn: "mqtt_is_connected c0 = MQTT_SUCCESS_ERROR"
    using r(2) by (simp add: c0_def mqtt_is_connected_def mqtt_get_client_state_def)
  have hd: "rd ?buf 0 = Some (mk_header (msg_code PUBREL) 0 1 0)" by (simp add: event_buffer.simps)
  have dec: "MQTTDeserialize_ack (ack_out_uninit c0) (read_bytes c0) k =
      Some (1, \<lparr>ao_packettype = msg_code PUBREL, ao_dup = take_bit 1 0, ao_packetid = pid\<rparr>)" for k
    by (rule decode_ack_buf) (simp add: c0_def event_buffer.simps)
  have "mqtt_pubrec_and_pubrel_packet_handle c0 = Some (MQTT_SUCCESS_ERROR, c2)"
    using conn dec s(1) u(1) by (simp add: mqtt_pubrec_and_pubrel_packet_handle_def Let_def)
  then have st: "qos2_step sgnd (Release pid post) c = Some c2"
    using hd by (simp add: qos2_step_def c0_def with_timer_def)
  have fields: "mqtt_client_state c2 = mqtt_client_state c1" "mqtt_write_lock c2 = mqtt_write_lock c1" "tx c2 = tx c1"
      "mqtt_cmd_timeout c2 = mqtt_cmd_timeout c1" "allocs c2 = allocs c1" "wire c2 = wire c1"
      "mqtt_interceptor_handler c2 = mqtt_interceptor_handler c1" "mqtt_read_buf_size c2 = mqtt_read_buf_size c1"
      "mqtt_network c2 = mqtt_network c1" "delivered c2 = delivered c1"
    using u(4) by (auto simp: drop_ack_def)
  have "ready c2"
    using u(2) fields f s(4,5) r(2,3) assms(1) by (simp add: ready_def smooth_def)
  with st show ?thesis
    using fields f s(6) u(3) assms(3) by (simp add: has_key_remove)
qed

end
