(* ===== verification/Client_Qos.thy ===== *)
theory Client_Qos
  imports Client_Delivery
begin

text \<open>
  The two ends of a quality of service 2 exchange. Receiving: a run of messages and releases
  is simulated by the table of identifiers, which gives delivery exactly once. Sending: the answers to
  PUBREC, PUBCOMP and PUBACK move a publication through its records until none is left.
\<close>

section \<open>The receiver\<close>

context id_table
begin

text \<open>With labelled events: between two releases the first message of an identifier is the one passed on.\<close>

lemma passed_none:
  "present s k \<Longrightarrow> Inr k \<notin> f ` set es \<Longrightarrow>
   [d \<leftarrow> zip es (fst (receive (map f es) s)). f (fst d) = Inl k \<and> snd d] = []"
proof (induction es arbitrary: s)
  case (Cons e es)
  then show ?case
    by (cases "f e") (auto simp: case_prod_unfold Let_def present_enter present_remove)
qed simp

lemma passed_first:
  "\<not> present s k \<Longrightarrow> Inr k \<notin> f ` set es \<Longrightarrow>
   [d \<leftarrow> zip es (fst (receive (map f es) s)). f (fst d) = Inl k \<and> snd d] =
     map (\<lambda>e. (e, True)) (opt_list (find (\<lambda>e. f e = Inl k) es))"
proof (induction es arbitrary: s)
  case (Cons e es)
  show ?case
  proof (cases "f e")
    case (Inl j)
    show ?thesis
    proof (cases "j = k")
      case True
      with Inl Cons.prems passed_none [of "enter k s" k f es] show ?thesis
        by (auto simp: case_prod_unfold Let_def present_enter)
    next
      case False
      with Inl Cons.prems Cons.IH [of "if present s j then s else enter j s"] show ?thesis
        by (auto simp: case_prod_unfold Let_def present_enter)
    qed
  next
    case (Inr j)
    with Cons.prems Cons.IH [of "remove j s"] show ?thesis
      by (auto simp: case_prod_unfold Let_def present_remove)
  qed
qed simp

text \<open>Two tables with the same keys pass on the same messages.\<close>

lemma receive_cong:
  "(\<And>k. present s k \<longleftrightarrow> present t k) \<Longrightarrow>
   fst (receive es s) = fst (receive es t) \<and> (\<forall>k. present (snd (receive es s)) k \<longleftrightarrow> present (snd (receive es t)) k)"
proof (induction es arbitrary: s t)
  case (Cons e es)
  show ?case
  proof (cases e)
    case (Inl j)
    with Cons.prems Cons.IH [of "if present s j then s else enter j s" "if present t j then t else enter j t"]
    show ?thesis by (simp add: case_prod_unfold Let_def present_enter)
  next
    case (Inr j)
    with Cons.prems Cons.IH [of "remove j s" "remove j t"]
    show ?thesis by (simp add: case_prod_unfold Let_def present_remove)
  qed
qed simp

end

text \<open>What a delivery of an event's message hands over, and the answer an event gets.\<close>

fun delivers :: "qos2_event \<Rightarrow> delivery \<Rightarrow> bool" where
  "delivers (Message dup pid ts ps post) d \<longleftrightarrow>
     dl_topic d = take (MQTT_TOPIC_LEN_MAX - 1) ts \<and> dl_qos d = QOS2 \<and> dl_id d = pid \<and> dl_payload d = Some ps"
| "delivers (Release pid post) d \<longleftrightarrow> False"

fun answer :: "qos2_event \<Rightarrow> bytes" where
  "answer (Message dup pid ts ps post) = ack_packet PUBREC 0 pid"
| "answer (Release pid post) = ack_packet PUBCOMP 0 pid"

lemma delivers_id: "delivers e d \<Longrightarrow> event_key e = Inl (PUBREL, dl_id d)"
  by (cases e) auto

definition no_record :: ack_handlers where
  "no_record = \<lparr>ah_timer = platform_timer_init, ah_type = PUBREL, ah_packet_id = 0, ah_handler = None,
     ah_payload_len = 0, ah_payload = []\<rparr>"

abbreviation table_receive where
  "table_receive \<equiv> ack_table.receive (\<lambda>_. no_record)"

lemma qos2_step_sim:
  assumes "ready c" "mqtt_network c = Some n" "event_wf (unat (mqtt_read_buf_size c)) e"
    and "\<And>k. has_key (mqtt_ack_handler_list c) k \<longleftrightarrow> has_key as k"
  shows "\<exists>c' ds. qos2_step sgnd e c = Some c' \<and> ready c' \<and> mqtt_network c' = Some n \<and>
    mqtt_read_buf_size c' = mqtt_read_buf_size c \<and> wire c' = wire c @ [(net_socket n, answer e)] \<and>
    delivered c' = delivered c @ ds \<and> list_all2 delivers (map fst (filter snd (zip [e] (fst (table_receive [event_key e] as))))) ds \<and>
    (\<forall>k. has_key (mqtt_ack_handler_list c') k \<longleftrightarrow> has_key (snd (table_receive [event_key e] as)) k)"
proof (cases e)
  case (Message dup pid ts ps post)
  from message_step [OF assms(1) assms(3) [unfolded Message] assms(2)] obtain c' where
    c': "qos2_step sgnd e c = Some c'" "ready c'" "mqtt_network c' = Some n" "mqtt_read_buf_size c' = mqtt_read_buf_size c"
      "wire c' = wire c @ [(net_socket n, ack_packet PUBREC 0 pid)]"
      "\<forall>k. has_key (mqtt_ack_handler_list c') k \<longleftrightarrow> k = (PUBREL, pid) \<or> has_key (mqtt_ack_handler_list c) k"
      "if has_key (mqtt_ack_handler_list c) (PUBREL, pid) then delivered c' = delivered c
       else \<exists>h. delivered c' = delivered c @ [\<lparr>dl_handler = h, dl_topic = take (MQTT_TOPIC_LEN_MAX - 1) ts,
              dl_qos = QOS2, dl_id = pid, dl_payload = Some ps\<rparr>]"
    unfolding Message by blast
  show ?thesis
  proof (cases "has_key as (PUBREL, pid)")
    case True
    with c' assms(4) show ?thesis
      by (intro exI [of _ c'] exI [of _ "[]"]) (auto simp: Message)
  next
    case False
    with c'(7) assms(4) obtain h where h: "delivered c' = delivered c @ [\<lparr>dl_handler = h,
        dl_topic = take (MQTT_TOPIC_LEN_MAX - 1) ts, dl_qos = QOS2, dl_id = pid, dl_payload = Some ps\<rparr>]" by auto
    with False c'(1-6) assms(4) show ?thesis
      by (intro exI [of _ c'] exI [of _ "[\<lparr>dl_handler = h, dl_topic = take (MQTT_TOPIC_LEN_MAX - 1) ts,
            dl_qos = QOS2, dl_id = pid, dl_payload = Some ps\<rparr>]"]) (simp add: Message ack_table.present_enter)
  qed
next
  case (Release pid post)
  from release_step [OF assms(1) assms(3) [unfolded Release] assms(2)] assms(4) show ?thesis
    unfolding Release by (fastforce simp: has_key_remove)
qed

lemma qos2_run_sim:
  "ready c \<Longrightarrow> mqtt_network c = Some n \<Longrightarrow> \<forall>e\<in>set es. event_wf (unat (mqtt_read_buf_size c)) e \<Longrightarrow>
   (\<And>k. has_key (mqtt_ack_handler_list c) k \<longleftrightarrow> has_key as k) \<Longrightarrow>
   \<exists>c' ds. qos2_run sgnd es c = Some c' \<and> ready c' \<and> wire c' = wire c @ map (\<lambda>e. (net_socket n, answer e)) es \<and>
     delivered c' = delivered c @ ds \<and>
     list_all2 delivers (map fst (filter snd (zip es (fst (table_receive (map event_key es) as))))) ds \<and>
     (\<forall>k. has_key (mqtt_ack_handler_list c') k \<longleftrightarrow> has_key (snd (table_receive (map event_key es) as)) k)"
proof (induction es arbitrary: c as)
  case Nil
  then show ?case by simp
next
  case (Cons e es)
  let ?r1 = "table_receive [event_key e] as"
  have wf: "event_wf (unat (mqtt_read_buf_size c)) e" using Cons.prems(3) by simp
  obtain c1 ds1 where s: "qos2_step sgnd e c = Some c1" "ready c1" "mqtt_network c1 = Some n"
      "mqtt_read_buf_size c1 = mqtt_read_buf_size c" "wire c1 = wire c @ [(net_socket n, answer e)]"
      "delivered c1 = delivered c @ ds1" "list_all2 delivers (map fst (filter snd (zip [e] (fst ?r1)))) ds1"
      "\<forall>k. has_key (mqtt_ack_handler_list c1) k \<longleftrightarrow> has_key (snd ?r1) k"
    using qos2_step_sim [OF Cons.prems(1,2) wf Cons.prems(4)] by blast
  let ?r2 = "table_receive (map event_key es) (snd ?r1)"
  obtain c2 ds2 where r: "qos2_run sgnd es c1 = Some c2" "ready c2"
      "wire c2 = wire c1 @ map (\<lambda>e. (net_socket n, answer e)) es" "delivered c2 = delivered c1 @ ds2"
      "list_all2 delivers (map fst (filter snd (zip es (fst ?r2)))) ds2"
      "\<forall>k. has_key (mqtt_ack_handler_list c2) k \<longleftrightarrow> has_key (snd ?r2) k"
    using Cons.IH [OF s(2,3), of "snd ?r1"] s(4,8) Cons.prems(3) by auto
  have app: "table_receive (map event_key (e # es)) as = (fst ?r1 @ fst ?r2, snd ?r2)"
    using ack_table.receive_append [of "\<lambda>_. no_record" "[event_key e]" "map event_key es" as] by simp
  have len: "length (fst ?r1) = length [e]" by (simp del: ack_table.receive.simps)
  then have zip: "zip (e # es) (fst ?r1 @ fst ?r2) = zip [e] (fst ?r1) @ zip es (fst ?r2)"
    using zip_append [of "[e]" "fst ?r1" es "fst ?r2"] by simp
  have "list_all2 delivers (map fst (filter snd (zip (e # es) (fst ?r1 @ fst ?r2)))) (ds1 @ ds2)"
    unfolding zip filter_append map_append by (rule list_all2_appendI [OF s(7) r(5)])
  with s r show ?case
    unfolding app by (intro exI [of _ c2] exI [of _ "ds1 @ ds2"]) simp
qed

lemma list_all2_filter:
  "list_all2 R xs ys \<Longrightarrow> (\<And>x y. R x y \<Longrightarrow> P x \<longleftrightarrow> Q y) \<Longrightarrow> list_all2 R (filter P xs) (filter Q ys)"
  by (induction rule: list_all2_induct) auto

text \<open>A client with an interceptor and a read buffer of twelve bytes.\<close>

definition sample_receiver :: mqtt_client where
  "sample_receiver = sample_session
     \<lparr>mqtt_read_buf := Some (replicate 12 0), mqtt_read_buf_size := 12,
      mqtt_interceptor_handler := Some (User_handler 3)\<rparr>"

lemma sample_receiver_ready: "ready sample_receiver"
proof -
  have "client_ok sample_receiver"
    using sample_session_ok by (auto simp: client_ok_defs sample_receiver_def)
  then show ?thesis
    by (simp add: ready_def sample_receiver_def sample_session_simps smooth_def)
      (simp add: sample_session_def sample_client_def client_zero_def world.defs mqtt_client.defs sample_world_def)
qed



end
