(* ===== verification/Client_Receive.thy ===== *)
theory Client_Receive
  imports Client_Qos
begin

text \<open>
  The receiving path keeps the client's invariant, whatever bytes the network sends and whichever
  allocations fail: reading and draining, the handlers, the dispatcher, keep alive, and the loop that
  waits for a packet. Each operation has a rule for \<open>valid\<close> in the collection \<open>keep\<close>, of the same
  shape: from a client that meets the invariant its results meet it too and hold the write lock
  as before. \<open>held\<close> counts the lock, so that equations about it are equations of numbers.
\<close>

definition held :: "mqtt_client \<Rightarrow> nat" where
  "held c = (if mqtt_write_lock c then 1 else 0)"

definition tables :: "mqtt_client \<Rightarrow> ack_handlers list \<times> addr list \<times> (addr \<Rightarrow> message_handlers option) \<times> addr" where
  "tables c = (mqtt_ack_handler_list c, mqtt_msg_handler_list c, handlers c, next_addr c)"

lemma held_eq: "held c = 0 \<longleftrightarrow> \<not> mqtt_write_lock c" "held c = Suc 0 \<longleftrightarrow> mqtt_write_lock c"
  by (simp_all add: held_def)

lemma held_upd [simp]:
  "held (c\<lparr>mqtt_last_received := x6\<rparr>) = held c" "held (c\<lparr>mqtt_ping_outstanding := x5\<rparr>) = held c"
  "held (c\<lparr>mqtt_last_sent := x7\<rparr>) = held c" "held (c\<lparr>mqtt_packet_id := x4\<rparr>) = held c"
  "held (c\<lparr>allocs := x1\<rparr>) = held c" "held (c\<lparr>delivered := x8\<rparr>) = held c" "held (c\<lparr>mqtt_thread := x9\<rparr>) = held c"
  "held (c\<lparr>thread_live := x9\<rparr>) = held c"
  "held (c\<lparr>mqtt_client_state := x3\<rparr>) = held c" "held (c\<lparr>mqtt_read_buf := x2\<rparr>) = held c"
  by (simp_all add: held_def)

section \<open>Writers keep the length\<close>

lemma write_bytes_wlen [wlen]:
  "(\<And>q. length (fst q) = length (fst p) \<Longrightarrow> Q q) \<Longrightarrow> valid (write_bytes p xs) Q"
  by (rule valid_pure) (auto dest: write_bytes_length)

lemma serialize_ack_wlen [wlen]:
  "(\<And>n b. length b = length buf \<Longrightarrow> Q (n, b)) \<Longrightarrow> valid (MQTTSerialize_ack buf buflen t d pid) Q"
  by (auto simp: serialize_ack_eq emit_def intro!: wlen)

lemma serialize_zero_wlen:
  "(\<And>n b. length b = length buf \<Longrightarrow> Q (n, b)) \<Longrightarrow> valid (MQTTSerialize_zero buf buflen t) Q"
  by (auto simp: MQTTSerialize_zero_def writer MQTTPacket_encode_eq intro!: wlen)

section \<open>Reading\<close>

lemma recv_loop_frame:
  "recv_loop tmo buf ptr nleft w = Some (failed, left, buf', w') \<Longrightarrow> length buf' = length buf \<and> world.more w' = world.more w"
proof (induction nleft arbitrary: buf ptr w rule: less_induct)
  case (less nleft)
  obtain rc bs w1 where r: "recv nleft tmo w = ((rc, bs), w1)" by (metis surj_pair)
  note rc = recv_cases [OF r]
  show ?case
  proof (cases "nleft = 0 \<or> rc \<le> 0")
    case True
    with less.prems r rc show ?thesis
      by (subst (asm) recv_loop.simps) (auto split: if_splits)
  next
    case False
    with less.prems r obtain buf1 ptr1 where
      b: "write_bytes (buf, ptr) bs = Some (buf1, ptr1)" "recv_loop tmo buf1 ptr1 (nleft - nat rc) w1 = Some (failed, left, buf', w')"
      by (subst (asm) recv_loop.simps) (auto simp: bind_eq_Some_conv)
    have "nleft - nat rc < nleft" using False by simp
    from less.IH [OF this b(2)] write_bytes_length [OF b(1)] rc show ?thesis by simp
  qed
qed

lemma network_read_frame:
  "network_read n buf ptr len t w = Some (rc, buf', w') \<Longrightarrow> length buf' = length buf \<and> world.more w' = world.more w"
  by (clarsimp simp: network_read_def nettype_tcp_read_def platform_net_socket_recv_timeout_def bind_eq_Some_conv)
    (drule recv_loop_frame, simp)

lemma client_ok_env:
  assumes "client_ok c" "world.more c' = world.more c"
  shows "client_ok c'" "held c' = held c"
  using client_ok_same [OF same_more [OF assms(2)] assms(1)] same_fields(11) [OF same_more [OF assms(2)]]
  by (simp_all add: held_def)

lemma client_ok_buf:
  assumes "client_ok c" "length buf = length (buf_bytes (mqtt_read_buf c))"
  shows "client_ok (c\<lparr>mqtt_read_buf := map_option (\<lambda>_. buf) (mqtt_read_buf c)\<rparr>)"
proof -
  from assms(1) obtain rb where "mqtt_read_buf c = Some rb" "length rb = unat (mqtt_read_buf_size c)"
    by (auto simp: client_ok_defs)
  with assms client_ok_read [OF assms(1), of buf] show ?thesis by (simp add: buf_bytes_def)
qed

lemma read_into_valid [keep]:
  assumes "client_ok c" "\<And>rc c'. client_ok c' \<Longrightarrow> held c' = held c \<Longrightarrow> Q (rc, c')"
  shows "valid (network_read_into c ptr len t) Q"
proof (rule valid_pure)
  fix r
  assume "network_read_into c ptr len t = Some r"
  then obtain n rc buf c1 where r: "network_read n (buf_bytes (mqtt_read_buf c)) ptr len t c = Some (rc, buf, c1)"
      "r = (rc, c1\<lparr>mqtt_read_buf := map_option (\<lambda>_. buf) (mqtt_read_buf c1)\<rparr>)"
    by (auto simp: network_read_into_def bind_eq_Some_conv)
  from network_read_frame [OF r(1)] have f: "length buf = length (buf_bytes (mqtt_read_buf c1))" "world.more c1 = world.more c"
    using more_sel by metis+
  from client_ok_env [OF assms(1) f(2)] f(1) show "Q r"
    unfolding r(2) by (intro assms(2) client_ok_buf) (simp_all add: held_def)
qed

lemma read_byte_valid [keep]:
  assumes "client_ok c" "\<And>rc i c'. client_ok c' \<Longrightarrow> held c' = held c \<Longrightarrow> Q ((rc, i), c')"
  shows "valid (read_byte t c) Q"
proof -
  have "Q ((rc, i), c')" if "world.more c' = world.more c" for rc i c'
    using client_ok_env [OF assms(1) that] by (rule assms(2))
  then show ?thesis
    by (intro valid_pure) (auto simp: read_byte_def bind_eq_Some_conv dest!: network_read_frame)
qed

lemma decode_loop_valid:
  "client_ok c \<Longrightarrow> (\<And>k n c'. client_ok c' \<Longrightarrow> held c' = held c \<Longrightarrow> Q (k, n, c')) \<Longrightarrow>
   valid (mqtt_decode_loop t len m v c) Q"
proof (induction "5 - len" arbitrary: len m v c rule: less_induct)
  case less
  then show ?case
    by (subst mqtt_decode_loop.simps) (auto simp: Let_def intro!: keep less)
qed

lemma decode_packet_valid [keep]:
  "client_ok c \<Longrightarrow> (\<And>k n c'. client_ok c' \<Longrightarrow> held c' = held c \<Longrightarrow> Q (k, n, c')) \<Longrightarrow>
   valid (mqtt_decode_packet c t) Q"
  unfolding mqtt_decode_packet_def by (rule decode_loop_valid)

lemma drain_valid [keep]:
  assumes "client_ok c" "\<And>c'. client_ok c' \<Longrightarrow> held c' = held c \<Longrightarrow> Q c'"
  shows "valid (mqtt_packet_drain c timer packet_len) Q"
proof -
  define P where "P = (\<lambda>(timer :: platform_timer) (pl :: int) (total :: int) (b2r :: int) (c :: mqtt_client) (y :: mqtt_client).
    client_ok c \<longrightarrow> client_ok y \<and> held y = held c)"
  have "P timer pl total b2r c y" if "drain_loop timer pl total b2r c = Some y" for timer pl total b2r c y
  proof (rule drain_loop.raw_induct [where P = P, OF _ that])
    fix dl timer pl total b2r c y
    let ?body = "do {
       (read_len, c) \<leftarrow> network_read_into c 0 (nat b2r) (timer_remain c timer);
       let total_bytes_read = (if read_len \<noteq> 0 then total + read_len else total);
       let bytes2read =
         (if read_len \<noteq> 0
          then (if pl - total_bytes_read \<ge> uint (mqtt_read_buf_size c)
                then uint (mqtt_read_buf_size c) else pl - total_bytes_read)
          else b2r);
       if total_bytes_read < pl \<and> read_len \<noteq> 0
       then dl timer pl total_bytes_read bytes2read c
       else Some c
     }"
    assume IH: "\<And>timer pl total b2r c y. dl timer pl total b2r c = Some y \<Longrightarrow> P timer pl total b2r c y"
      and eq: "?body = Some y"
    have dl: "valid (dl timer pl t b c1) (\<lambda>y. client_ok y \<and> held y = held c)"
      if "client_ok c1" "held c1 = held c" for timer pl t b c1
      using IH [of timer pl t b c1] that by (auto simp: valid_def P_def)
    have "client_ok c \<longrightarrow> valid ?body (\<lambda>y. client_ok y \<and> held y = held c)"
      by (auto simp: Let_def intro!: keep dl)
    with eq show "P timer pl total b2r c y" unfolding P_def by (auto dest: validD)
  qed
  with assms show ?thesis by (auto simp: mqtt_packet_drain_def P_def intro!: valid_pure)
qed

lemma encode_buf_valid:
  assumes "client_ok c" "\<And>buf len. client_ok (c\<lparr>mqtt_read_buf := map_option (\<lambda>_. buf) (mqtt_read_buf c)\<rparr>) \<Longrightarrow> Q (buf, len)"
  shows "valid (MQTTPacket_encode (buf_bytes (mqtt_read_buf c), i) n) Q"
  using assms client_ok_buf [OF assms(1)]
  by (auto simp: MQTTPacket_encode_eq intro!: valid_pure dest!: write_bytes_length)

lemma read_packet_valid [keep]:
  "client_ok c \<Longrightarrow> (\<And>rc ty t c'. client_ok c' \<Longrightarrow> held c' = held c \<Longrightarrow> Q (rc, ty, t, c')) \<Longrightarrow>
   valid (mqtt_read_packet c) Q"
  by (auto simp: mqtt_read_packet_def Let_def intro!: keep encode_buf_valid valid_pure [of "rd _ _"])

section \<open>Writing and the tables\<close>

lemma serialize_into_valid:
  assumes "client_ok c" "\<And>buf n. valid (f buf n) (\<lambda>(len, b). length b = length buf)"
    and "\<And>len c'. client_ok c' \<Longrightarrow> held c' = held c \<Longrightarrow> tables c' = tables c \<Longrightarrow> Q (len, c')"
  shows "valid (serialize_into c f) Q"
proof (rule valid_pure)
  fix r
  assume "serialize_into c f = Some r"
  then obtain len buf where r: "f (buf_bytes (mqtt_write_buf c)) (unat (mqtt_write_buf_size c)) = Some (len, buf)"
      "r = (len, c\<lparr>mqtt_write_buf := map_option (\<lambda>_. buf) (mqtt_write_buf c)\<rparr>)"
    by (auto simp: serialize_into_def bind_eq_Some_conv)
  obtain wb where wb: "mqtt_write_buf c = Some wb" "length wb = unat (mqtt_write_buf_size c)"
    using client_ok_wbuf [OF assms(1)] by blast
  with validD [OF assms(2) r(1)] client_ok_write [OF assms(1), of buf] show "Q r"
    unfolding r(2) by (intro assms(3)) (simp_all add: buf_bytes_def held_def tables_def)
qed

lemma send_loop_frame: "send_loop len sent timer c = Some (s, c') \<Longrightarrow> world.more c' = world.more c"
proof (induction "len - sent" arbitrary: sent c rule: less_induct)
  case less
  show ?case
  proof (cases "sent < len \<and> \<not> timer_expired c timer")
    case False
    with less.prems show ?thesis by (subst (asm) send_loop.simps) auto
  next
    case True
    with less.prems obtain n bs where n: "mqtt_network c = Some n"
      "rd_block (buf_bytes (mqtt_write_buf c)) sent (len - sent) = Some bs"
      by (subst (asm) send_loop.simps) (auto simp: bind_eq_Some_conv)
    obtain rc c1 where w: "network_write n bs (timer_remain c timer) c = (rc, c1)" by fastforce
    then have m: "world.more c1 = world.more c"
      using send_some_cases [of "net_socket n" bs _ c rc c1] by (simp add: net_write_simps)
    have step: "send_loop len sent timer c =
        (if rc \<le> 0 then Some (sent, c1) else send_loop len (sent + nat rc) timer c1)"
      using True n w by (subst send_loop.simps) simp
    show ?thesis
    proof (cases "rc \<le> 0")
      case True
      with less.prems step m show ?thesis by simp
    next
      case False
      then have "0 < nat rc" by simp
      with True False have "len - (sent + nat rc) < len - sent" "send_loop len (sent + nat rc) timer c1 = Some (s, c')"
        using less.prems step by (linarith, simp)
      from less.hyps [OF this] m show ?thesis by simp
    qed
  qed
qed

lemma tables_upd [simp]: "tables (c\<lparr>mqtt_last_sent := x\<rparr>) = tables c"
  by (simp add: tables_def)

lemma tables_env:
  assumes "world.more c' = world.more c"
  shows "tables c' = tables c"
  by (simp add: tables_def same_fields [OF same_more [OF assms]])

lemma send_packet_valid [keep]:
  assumes "client_ok c"
    and "\<And>rc t c'. client_ok c' \<Longrightarrow> held c' = held c \<Longrightarrow> tables c' = tables c \<Longrightarrow> Q (rc, t, c')"
  shows "valid (mqtt_send_packet c len) Q"
proof -
  have "Q (rc, t, c')" "Q (rc, t, c'\<lparr>mqtt_last_sent := x\<rparr>)" if "world.more c' = world.more c" for rc t c' x
    using client_ok_env [OF assms(1) that] tables_env [OF that] by (auto intro!: assms(2))
  then show ?thesis
    by (intro valid_pure)
      (auto simp: mqtt_send_packet_def Let_def bind_eq_Some_conv dest!: send_loop_frame split: if_splits)
qed

lemma client_ok_network: "client_ok c \<Longrightarrow> client_ok (c\<lparr>mqtt_network := Some n\<rparr>)"
  by (simp add: client_ok_defs)

lemma release_network_valid [keep]:
  assumes "client_ok c" "\<And>c'. client_ok c' \<Longrightarrow> held c' = held c \<Longrightarrow> Q c'"
  shows "valid (release_network c) Q"
proof -
  have "client_ok (close_fd fd c)" for fd using client_ok_env(1) [OF assms(1)] by (simp add: close_fd_def)
  then have Q: "Q (close_fd fd c\<lparr>mqtt_network := Some n\<rparr>)" "Q (c\<lparr>mqtt_network := Some n\<rparr>)" for fd n
    using assms(1) by (auto intro!: assms(2) client_ok_network simp: held_def close_fd_def)
  show ?thesis
    by (auto simp: release_network_def network_release_def network_disconnect_def nettype_tcp_disconnect_def
        platform_net_socket_close_def Let_def Q intro!: valid_pure [of "mqtt_network c"])
qed

lemma lock_write_valid [keep]:
  "client_ok c \<Longrightarrow> (\<And>c'. client_ok c' \<Longrightarrow> held c = 0 \<Longrightarrow> held c' = 1 \<Longrightarrow> tables c' = tables c \<Longrightarrow> Q c') \<Longrightarrow>
   valid (lock_write c) Q"
  by (simp add: lock_write_def held_def tables_def)

lemma client_ok_unlock [simp]: "client_ok (unlock_write c) = client_ok c" "held (unlock_write c) = 0"
  by (simp_all add: unlock_write_def held_def)

lemma client_ok_set_state [simp]:
  "client_ok (mqtt_set_client_state c s) = client_ok c" "held (mqtt_set_client_state c s) = held c"
  by (simp_all add: mqtt_set_client_state_def held_def)

lemma keep_alive_valid [keep]:
  "client_ok c \<Longrightarrow> (\<And>rc c'. client_ok c' \<Longrightarrow> held c' = held c \<Longrightarrow> Q (rc, c')) \<Longrightarrow>
   valid (mqtt_keep_alive c) Q"
  by (auto simp: mqtt_keep_alive_def MQTTSerialize_pingreq_def Let_def
      intro!: keep serialize_into_valid serialize_zero_wlen)

section \<open>The tables\<close>

lemma hok_drop: "hok ms (s1 @ s2 @ s3) (u1 @ u2 @ u3) hp nx \<Longrightarrow> hok ms (s1 @ s3) (u1 @ u3) hp nx"
  by (auto simp: hok_def)

lemma client_ok_drop:
  assumes "client_ok c" "mqtt_ack_handler_list c = kept @ a # rest"
  shows "client_ok (drop_ack kept rest c)"
proof -
  have "refs t (kept @ a # rest) = refs t kept @ refs t [a] @ refs t rest" for t by simp
  with assms have "handlers_ok (drop_ack kept rest c)"
    by (auto simp: client_ok_def handlers_ok_def simp del: refs.simps intro: hok_drop)
  with acks_ok_drop [OF _ assms(2)] assms(1) show ?thesis by (simp add: client_ok_def)
qed

lemma held_drop [simp]: "held (drop_ack kept rest c) = held c" "held (free_handler p c) = held c" "held (add_ack c a) = held c"
  by (simp_all add: held_def)

lemma unrecord_keeps:
  assumes "client_ok c"
  shows "client_ok (snd (mqtt_ack_list_unrecord c ptype pid))" "held (snd (mqtt_ack_list_unrecord c ptype pid)) = held c"
  by (rule unrecord_cases [of c ptype pid]; use assms client_ok_drop in \<open>auto simp: client_ok_def\<close>)+

lemma record_valid:
  assumes "client_ok c" "t \<noteq> SUBACK" "t \<noteq> UNSUBACK"
    and "\<And>rc c'. client_ok c' \<Longrightarrow> held c' = held c \<Longrightarrow> Q (rc, c')"
  shows "valid (mqtt_ack_list_record c t pid plen None) Q"
proof (cases "unat plen \<le> length (buf_bytes (mqtt_write_buf c))")
  case True
  obtain wb where wb: "mqtt_write_buf c = Some wb" "length wb = unat (mqtt_write_buf_size c)"
    using client_ok_wbuf [OF assms(1)] by blast
  with True have plen: "unat plen \<le> unat (mqtt_write_buf_size c)" by (simp add: buf_bytes_def)
  have "client_ok (add_ack (c\<lparr>allocs := tl (allocs c)\<rparr>) (new_ack (c\<lparr>allocs := tl (allocs c)\<rparr>) t pid plen None))"
    if "\<not> has_key (mqtt_ack_handler_list c) (t, pid)"
    using that plen assms(1-3) by (intro client_ok_add_pub) simp_all
  moreover have "new_ack (c\<lparr>allocs := tl (allocs c)\<rparr>) t pid plen None = new_ack c t pid plen None"
    by (simp add: new_ack_def)
  ultimately show ?thesis using assms(1) by (auto simp: record_eq [OF True] has_key_def intro!: assms(4))
next
  case False
  then have "rd_block (buf_bytes (mqtt_write_buf c)) 0 (unat plen) = None" by (simp add: rd_block_def)
  with assms(1) show ?thesis
    by (simp add: mqtt_ack_list_record_def mqtt_ack_handler_create_def alloc_eq assms(4))
qed

lemma record_valid_pub [keep]:
  "client_ok c \<Longrightarrow> (\<And>rc c'. client_ok c' \<Longrightarrow> held c' = held c \<Longrightarrow> Q (rc, c')) \<Longrightarrow>
   valid (mqtt_ack_list_record c PUBREL pid plen None) Q"
  "client_ok c \<Longrightarrow> (\<And>rc c'. client_ok c' \<Longrightarrow> held c' = held c \<Longrightarrow> Q (rc, c')) \<Longrightarrow>
   valid (mqtt_ack_list_record c PUBCOMP pid plen None) Q"
  by (simp_all add: record_valid)

section \<open>The handlers\<close>

lemma deliver_valid [keep]:
  assumes "client_ok c" "\<And>rc c'. client_ok c' \<Longrightarrow> held c' = held c \<Longrightarrow> Q (rc, c')"
  shows "valid (mqtt_deliver_message c t msg) Q"
  using assms deliver_keeps(1,2) [of c t msg] by (intro valid_pure) (auto simp: held_def)

lemma puback_valid [keep]:
  "client_ok c \<Longrightarrow> (\<And>rc c'. client_ok c' \<Longrightarrow> held c' = held c \<Longrightarrow> Q (rc, c')) \<Longrightarrow>
   valid (mqtt_puback_and_pubcomp_packet_handle c) Q"
  using unrecord_keeps [of c]
  by (auto simp: mqtt_puback_and_pubcomp_packet_handle_def Let_def case_prod_unfold intro!: valid_pure [of "MQTTDeserialize_ack _ _ _"])

lemma send_ack_valid [keep]:
  "client_ok c \<Longrightarrow> (\<And>rc c'. client_ok c' \<Longrightarrow> held c' = held c \<Longrightarrow> Q (rc, c')) \<Longrightarrow> valid (send_ack c len) Q"
  by (auto simp: send_ack_def intro!: keep)

lemma publish_ack_valid [keep]:
  "client_ok c \<Longrightarrow> (\<And>rc c'. client_ok c' \<Longrightarrow> held c' = held c \<Longrightarrow> Q (rc, c')) \<Longrightarrow>
   valid (mqtt_publish_ack_packet c pid ty) Q"
  by (auto simp: mqtt_publish_ack_packet_def Let_def intro!: keep serialize_into_valid wlen)

lemma publish_send_ack_valid [keep]:
  "client_ok c \<Longrightarrow> (\<And>rc len t c'. client_ok c' \<Longrightarrow> held c' = held c \<Longrightarrow> Q (rc, len, t, c')) \<Longrightarrow>
   valid (publish_send_ack c qos pid timer) Q"
  by (auto simp: publish_send_ack_def Let_def intro!: keep serialize_into_valid wlen)

lemma publish_handle_valid [keep]:
  "client_ok c \<Longrightarrow> (\<And>rc t c'. client_ok c' \<Longrightarrow> held c' = held c \<Longrightarrow> Q (rc, t, c')) \<Longrightarrow>
   valid (mqtt_publish_packet_handle c timer) Q"
  by (auto simp: mqtt_publish_packet_handle_def Let_def intro!: keep valid_pure [of "MQTTDeserialize_publish _ _ _"])

lemma pubrec_handle_valid [keep]:
  "client_ok c \<Longrightarrow> (\<And>rc c'. client_ok c' \<Longrightarrow> held c' = held c \<Longrightarrow> Q (rc, c')) \<Longrightarrow>
   valid (mqtt_pubrec_and_pubrel_packet_handle c) Q"
  by (auto simp: mqtt_pubrec_and_pubrel_packet_handle_def Let_def case_prod_unfold unrecord_keeps
      intro!: keep valid_pure [of "MQTTDeserialize_ack _ _ _"])

text \<open>Freeing or installing the handler of a record that was just taken out.\<close>

lemma ack_type_match: "matches (msg_code t) pid a \<Longrightarrow> ah_type a = t"
  by (simp add: matches_key ack_key_def)

lemma destroy_dropped_valid:
  assumes "client_ok c" "mqtt_ack_handler_list c = kept @ a # rest" "ah_handler a = Some p"
    and "\<And>c'. client_ok c' \<Longrightarrow> held c' = held c \<Longrightarrow> Q c'"
  shows "valid (mqtt_msg_handler_destory p (drop_ack kept rest c)) Q"
  using client_ok_drop_free [OF assms(1-3)] destroy_live [of "drop_ack kept rest c" p] by (simp add: assms(4))

lemma suback_handle_valid [keep]:
  assumes "client_ok c" "\<And>rc c'. client_ok c' \<Longrightarrow> held c' = held c \<Longrightarrow> Q (rc, c')"
  shows "valid (mqtt_suback_packet_handle sgnd c) Q"
proof -
  have step: "valid (case case h of None \<Rightarrow> None | Some p \<Rightarrow> p of
        None \<Rightarrow> Some (MQTT_MEM_NOT_ENOUGH_ERROR, c1)
      | Some p \<Rightarrow>
          if nack then do { c \<leftarrow> mqtt_msg_handler_destory p c1; Some (MQTT_SUBSCRIBE_NOT_ACK_ERROR, c) }
          else mqtt_msg_handlers_install c1 (Some p)) Q"
    if "mqtt_ack_list_unrecord c (msg_code SUBACK) pid = (h, c1)" for h c1 nack pid
  proof (rule unrecord_cases [of c "msg_code SUBACK" pid])
    show "acks_ok c" using assms(1) by (simp add: client_ok_def)
  next
    assume "mqtt_ack_list_unrecord c (msg_code SUBACK) pid = (None, c)"
    with that assms show ?thesis by auto
  next
    fix kept a rest
    assume a: "mqtt_ack_handler_list c = kept @ a # rest" "matches (msg_code SUBACK) pid a"
      "mqtt_ack_list_unrecord c (msg_code SUBACK) pid = (Some (ah_handler a), drop_ack kept rest c)"
    then have t: "ah_type a = SUBACK" by (simp add: ack_type_match)
    show ?thesis
    proof (cases "ah_handler a")
      case None
      with a that client_ok_drop [OF assms(1) a(1)] show ?thesis by (auto intro!: assms(2))
    next
      case (Some p)
      obtain c' where "mqtt_msg_handlers_install (drop_ack kept rest c) (Some p) = Some (MQTT_SUCCESS_ERROR, c')"
          "client_ok c'" "mqtt_write_lock c' = mqtt_write_lock c"
        using install_spec [OF assms(1) a(1) t Some] by blast
      with a that Some show ?thesis
        by (auto intro!: assms(2) destroy_dropped_valid [OF assms(1) a(1)] simp: held_def)
    qed
  qed
  show ?thesis
    using assms step by (auto simp: mqtt_suback_packet_handle_def Let_def case_prod_unfold
        intro!: valid_pure [of "MQTTDeserialize_suback _ _ _ _ _"] valid_pure [of "arr _ _"])
qed

lemma unsuback_handle_valid [keep]:
  assumes "client_ok c" "\<And>rc c'. client_ok c' \<Longrightarrow> held c' = held c \<Longrightarrow> Q (rc, c')"
  shows "valid (mqtt_unsuback_packet_handle c) Q"
proof -
  have step: "valid (do {
      msg_handler \<leftarrow> h;
      case msg_handler of
        None \<Rightarrow> Some (MQTT_MEM_NOT_ENOUGH_ERROR, c1)
      | Some p \<Rightarrow> do { c \<leftarrow> mqtt_msg_handler_destory p c1; Some (MQTT_SUCCESS_ERROR, c) } }) Q"
    if "mqtt_ack_list_unrecord c (msg_code UNSUBACK) pid = (h, c1)" for h c1 pid
  proof (rule unrecord_cases [of c "msg_code UNSUBACK" pid])
    show "acks_ok c" using assms(1) by (simp add: client_ok_def)
  next
    assume "mqtt_ack_list_unrecord c (msg_code UNSUBACK) pid = (None, c)"
    with that show ?thesis by auto
  next
    fix kept a rest
    assume a: "mqtt_ack_handler_list c = kept @ a # rest"
      "mqtt_ack_list_unrecord c (msg_code UNSUBACK) pid = (Some (ah_handler a), drop_ack kept rest c)"
    with that client_ok_drop [OF assms(1) a(1)] show ?thesis
      by (cases "ah_handler a") (auto intro!: assms(2) destroy_dropped_valid [OF assms(1) a(1)])
  qed
  show ?thesis
    using assms step by (auto simp: mqtt_unsuback_packet_handle_def Let_def case_prod_unfold
        intro!: valid_pure [of "MQTTDeserialize_unsuback _ _ _"])
qed

section \<open>The dispatcher and the wait for a packet\<close>

lemma with_timer_valid:
  "valid r (\<lambda>(rc, c). Q (rc, timer, c)) \<Longrightarrow> valid (with_timer timer r) Q"
  by (cases r) (auto simp: with_timer_def)

lemma dispatch_valid [keep]:
  "client_ok c \<Longrightarrow> (\<And>rc t c'. client_ok c' \<Longrightarrow> held c' = held c \<Longrightarrow> Q (rc, t, c')) \<Longrightarrow>
   valid (dispatch sgnd ty timer c) Q"
  by (auto simp: dispatch_def intro!: keep with_timer_valid)

lemma packet_handle_valid [keep]:
  "client_ok c \<Longrightarrow> (\<And>rc t c'. client_ok c' \<Longrightarrow> held c' = held c \<Longrightarrow> Q (rc, t, c')) \<Longrightarrow>
   valid (mqtt_packet_handle sgnd c) Q"
  by (auto simp: mqtt_packet_handle_def intro!: keep with_timer_valid)

lemma wait_packet_valid [keep]:
  assumes "client_ok c" "\<And>rc c'. client_ok c' \<Longrightarrow> held c' = held c \<Longrightarrow> Q (rc, c')"
  shows "valid (mqtt_wait_packet sgnd c ty timer) Q"
proof -
  define P where "P = (\<lambda>(sgnd :: bool) (ty :: int) (rc :: int) (timer :: platform_timer) (c :: mqtt_client) (y :: int \<times> mqtt_client).
    client_ok c \<longrightarrow> client_ok (snd y) \<and> held (snd y) = held c)"
  have "P sgnd ty rc timer c y" if "wait_loop sgnd ty rc timer c = Some y" for sgnd ty rc timer c y
  proof (rule wait_loop.raw_induct [where P = P, OF _ that])
    fix wl sgnd ty rc timer c y
    let ?body = "if timer_expired c timer then Some (rc, c)
      else do {
        (rc, timer, c) \<leftarrow> mqtt_packet_handle sgnd c;
        if rc \<noteq> ty \<and> rc \<ge> 0 then wl sgnd ty rc timer c else Some (rc, c)
      }"
    assume IH: "\<And>sgnd ty rc timer c y. wl sgnd ty rc timer c = Some y \<Longrightarrow> P sgnd ty rc timer c y"
      and eq: "?body = Some y"
    have wl: "valid (wl sgnd ty rc timer c1) (\<lambda>y. client_ok (snd y) \<and> held (snd y) = held c)"
      if "client_ok c1" "held c1 = held c" for rc timer c1
      using IH [of sgnd ty rc timer c1] that by (auto simp: valid_def P_def)
    have "client_ok c \<longrightarrow> valid ?body (\<lambda>y. client_ok (snd y) \<and> held (snd y) = held c)"
      by (auto intro!: keep wl)
    with eq show "P sgnd ty rc timer c y" unfolding P_def by (auto dest: validD)
  qed
  then have "client_ok (snd y) \<and> held (snd y) = held c" if "mqtt_wait_packet sgnd c ty timer = Some y" for y
    using that assms(1) unfolding mqtt_wait_packet_def P_def by blast
  with assms(2) show ?thesis by (intro valid_pure) (metis prod.collapse)
qed

end
