(* ===== verification/Client_Requests.thy ===== *)
theory Client_Requests
  imports Client_Session Client_Receive
begin

text \<open>
  The requests of the application and the background loop: they keep the client's invariant, and in
  a connected client they do what they promise. The rules extend the collection \<open>keep\<close>.
\<close>

section \<open>Writers keep the length\<close>

lemma write_string_wlen [wlen]:
  assumes "\<And>q. length (fst q) = length (fst p) \<Longrightarrow> Q q"
  shows "valid (writeMQTTString p s) Q"
  using assms by (auto simp: writeMQTTString_def writer split: option.splits
      intro!: valid_pure [of "deref_block _ _"] wlen)

lemma subscribe_write_loop_wlen [wlen]:
  "(\<And>q. length (fst q) = length (fst p) \<Longrightarrow> Q q) \<Longrightarrow> valid (subscribe_write_loop fs qs i k p) Q"
  by (induction k arbitrary: i p) (auto simp: writer intro!: wlen valid_pure [of "arr _ _"])

lemma unsubscribe_write_loop_wlen [wlen]:
  "(\<And>q. length (fst q) = length (fst p) \<Longrightarrow> Q q) \<Longrightarrow> valid (unsubscribe_write_loop fs i k p) Q"
  by (induction k arbitrary: i p) (auto simp: writer intro!: wlen valid_pure [of "arr _ _"])

lemma encode_wlen [wlen]:
  "(\<And>q. length (fst q) = length (fst p) \<Longrightarrow> Q q) \<Longrightarrow> valid (MQTTPacket_encode p n) Q"
  by (auto simp: MQTTPacket_encode_eq intro!: wlen)

lemma serialize_wlen [wlen]:
  assumes "\<And>n b. length b = length buf \<Longrightarrow> Q (n, b)"
  shows "valid (MQTTSerialize_publish buf buflen dup qos ret pid t pl n) Q"
    "valid (MQTTSerialize_subscribe buf buflen dup pid cnt ts qs) Q"
    "valid (MQTTSerialize_unsubscribe buf buflen dup pid cnt ts) Q"
    "valid (MQTTSerialize_connect buf buflen opts) Q"
  using assms
  by (auto simp: MQTTSerialize_publish_def MQTTSerialize_subscribe_def MQTTSerialize_unsubscribe_def
      MQTTSerialize_connect_def Let_def writer split: prod.splits
      intro!: wlen valid_pure [of "deref_block _ _"] valid_pure [of "MQTTSerialize_subscribeLength _ _"]
        valid_pure [of "MQTTSerialize_unsubscribeLength _ _"])

section \<open>Recording requests\<close>

lemma set_dup_valid [keep]:
  assumes "client_ok c" "\<And>rc c'. client_ok c' \<Longrightarrow> held c' = held c \<Longrightarrow> Q (rc, c')"
  shows "valid (mqtt_set_publish_dup c dup) Q"
proof -
  obtain wb where wb: "mqtt_write_buf c = Some wb" "length wb = unat (mqtt_write_buf_size c)"
    using client_ok_wbuf [OF assms(1)] by blast
  have "Q (rc, c\<lparr>mqtt_write_buf := Some b\<rparr>)" if "length b = length wb" for rc b
    using client_ok_write [OF assms(1), of b] that wb(2) by (intro assms(2)) (simp_all add: held_def)
  with assms wb(1) show ?thesis
    by (auto simp: mqtt_set_publish_dup_def writer intro!: wlen valid_pure [of "readChar _ _"])
qed

lemma next_packet_id_ok [simp]:
  "client_ok (snd (mqtt_get_next_packet_id c)) = client_ok c" "held (snd (mqtt_get_next_packet_id c)) = held c"
  "tables (snd (mqtt_get_next_packet_id c)) = tables c"
  "mqtt_msg_handler_list (snd (mqtt_get_next_packet_id c)) = mqtt_msg_handler_list c"
  by (simp_all add: mqtt_get_next_packet_id_def Let_def tables_def)

lemma publish_locked_valid [keep]:
  "client_ok c \<Longrightarrow> (\<And>rc m c'. client_ok c' \<Longrightarrow> held c' = held c \<Longrightarrow> Q (rc, m, c')) \<Longrightarrow>
   valid (publish_locked c tf msg) Q"
  by (auto simp: publish_locked_def Let_def case_prod_unfold
      intro!: keep record_valid serialize_into_valid serialize_wlen)

lemma publish_valid [keep]:
  "client_ok c \<Longrightarrow> (\<And>rc m c'. client_ok c' \<Longrightarrow> held c' = held c \<Longrightarrow> Q (rc, m, c')) \<Longrightarrow>
   valid (mqtt_publish c tf msg) Q"
  by (auto simp: mqtt_publish_def Let_def split: option.splits
      intro!: keep valid_pure [of "strlen_at _"])

text \<open>A new message handler together with its record.\<close>

lemma client_ok_fresh: "client_ok c \<Longrightarrow> next_addr c \<le> p \<Longrightarrow> handlers c p = None"
  by (simp add: client_ok_def handlers_ok_def hok_def)

lemma create_record_valid:
  assumes "client_ok c"
    and "\<And>rc c'. client_ok c' \<Longrightarrow> held c' = held c \<Longrightarrow> mqtt_msg_handler_list c' = mqtt_msg_handler_list c \<Longrightarrow> Q (rc, c')"
  shows "valid (case mqtt_msg_handler_create c (Some f) qos h of (msg_handler, c) \<Rightarrow>
     case msg_handler of
       None \<Rightarrow> Some (MQTT_MEM_NOT_ENOUGH_ERROR, c)
     | Some p \<Rightarrow> mqtt_ack_list_record c SUBACK pid plen (Some p)) Q"
proof -
  let ?c1 = "c\<lparr>allocs := tl (allocs c)\<rparr>" and ?p = "next_addr c"
  let ?h = "\<lparr>mh_qos = qos, mh_topic_filter = Some f, mh_handler = h\<rparr>"
  let ?c2 = "?c1\<lparr>next_addr := Suc ?p, handlers := (handlers c)(?p \<mapsto> ?h)\<rparr>"
  have create: "mqtt_msg_handler_create c (Some f) qos h = (if alloc_ok c then (Some ?p, ?c2) else (None, ?c1))"
    by (simp add: mqtt_msg_handler_create_def alloc_eq Let_def)
  have hk: "hok (mqtt_msg_handler_list c) (refs SUBACK (mqtt_ack_handler_list c))
      (refs UNSUBACK (mqtt_ack_handler_list c)) (handlers c) ?p"
    using assms(1) by (simp add: client_ok_def handlers_ok_def)
  define c2 where "c2 = ?c2"
  have c2: "mqtt_ack_handler_list c2 = mqtt_ack_handler_list c" "mqtt_msg_handler_list c2 = mqtt_msg_handler_list c"
      "handlers c2 = (handlers c)(?p \<mapsto> ?h)" "next_addr c2 = Suc ?p" "held c2 = held c"
    by (simp_all add: c2_def held_def)
  have ok2: "client_ok c2"
    using assms(1) hok_leak [OF hk, of ?h] by (simp add: client_ok_defs c2_def)
  have rec: "valid (mqtt_ack_list_record c2 SUBACK pid plen (Some ?p)) Q"
  proof (cases "unat plen \<le> length (buf_bytes (mqtt_write_buf c2))")
    case True
    let ?c3 = "c2\<lparr>allocs := tl (allocs c2)\<rparr>" and ?a = "new_ack c2 SUBACK pid plen (Some ?p)"
    have pl: "unat plen \<le> unat (mqtt_write_buf_size c2)"
      using True client_ok_wbuf [OF ok2] by (auto simp: buf_bytes_def)
    have "client_ok (add_ack ?c3 ?a)" if "(SUBACK, pid) \<notin> ack_key ` set (mqtt_ack_handler_list c)"
    proof -
      have "acks_ok (add_ack ?c3 ?a)"
        using that new_ack_wf [OF ok2 pl, of "Some ?p" SUBACK] ok2 c2
        by (intro acks_ok_add) (simp_all add: client_ok_def acks_ok_def)
      moreover have "handlers_ok (add_ack ?c3 ?a)"
        using hok_new [OF hk, of ?h] c2 by (simp add: handlers_ok_def)
      moreover have "bufs_ok ?c3" using ok2 by (simp add: client_ok_def bufs_ok_def)
      ultimately show ?thesis by (simp add: client_ok_def)
    qed
    with ok2 c2 show ?thesis by (auto simp: record_eq [OF True] intro!: assms(2))
  next
    case False
    with ok2 c2 show ?thesis
      by (auto simp: mqtt_ack_list_record_def mqtt_ack_handler_create_def alloc_eq rd_block_def intro!: assms(2))
  qed
  show ?thesis
    using rec assms(1) by (auto simp: create c2_def [symmetric] intro!: assms(2))
qed

lemma tables_msgs: "tables c' = tables c \<Longrightarrow> mqtt_msg_handler_list c' = mqtt_msg_handler_list c"
  by (simp add: tables_def)

lemma unlock_msgs [simp]: "mqtt_msg_handler_list (unlock_write c) = mqtt_msg_handler_list c"
  by (simp add: unlock_write_def)

lemma subscribe_valid [keep]:
  "client_ok c \<Longrightarrow> (\<And>rc c'. client_ok c' \<Longrightarrow> held c' = held c \<Longrightarrow>
     mqtt_msg_handler_list c' = mqtt_msg_handler_list c \<Longrightarrow> Q (rc, c')) \<Longrightarrow>
   valid (mqtt_subscribe c (Some f) qos h) Q"
  by (auto simp: mqtt_subscribe_def Let_def case_prod_unfold dest!: tables_msgs
      intro!: keep serialize_into_valid serialize_wlen create_record_valid [unfolded case_prod_unfold])

text \<open>An installed handler that no pending UNSUBACK refers to gets a record.\<close>

lemma record_unsub_valid:
  assumes "client_ok c" "p \<in> set (mqtt_msg_handler_list c)" "p \<notin> set (refs UNSUBACK (mqtt_ack_handler_list c))"
    and "\<And>rc c'. client_ok c' \<Longrightarrow> held c' = held c \<Longrightarrow> Q (rc, c')"
  shows "valid (mqtt_ack_list_record c UNSUBACK pid plen (Some p)) Q"
proof (cases "unat plen \<le> length (buf_bytes (mqtt_write_buf c))")
  case True
  let ?c1 = "c\<lparr>allocs := tl (allocs c)\<rparr>" and ?a = "new_ack c UNSUBACK pid plen (Some p)"
  have pl: "unat plen \<le> unat (mqtt_write_buf_size c)"
    using True client_ok_wbuf [OF assms(1)] by (auto simp: buf_bytes_def)
  have "client_ok (add_ack ?c1 ?a)" if "(UNSUBACK, pid) \<notin> ack_key ` set (mqtt_ack_handler_list c)"
  proof -
    have "acks_ok (add_ack ?c1 ?a)"
      using that new_ack_wf [OF assms(1) pl, of "Some p" UNSUBACK] assms(1)
      by (intro acks_ok_add) (simp_all add: client_ok_def acks_ok_def)
    moreover have "handlers_ok (add_ack ?c1 ?a)"
      using hok_unsub [OF _ assms(2,3)] assms(1) by (simp add: client_ok_def handlers_ok_def)
    moreover have "bufs_ok ?c1" using assms(1) by (simp add: client_ok_def bufs_ok_def)
    ultimately show ?thesis by (simp add: client_ok_def)
  qed
  with assms(1) show ?thesis by (auto simp: record_eq [OF True] intro!: assms(4))
next
  case False
  with assms(1) show ?thesis
    by (auto simp: mqtt_ack_list_record_def mqtt_ack_handler_create_def alloc_eq rd_block_def intro!: assms(4))
qed

lemma get_handler_tables:
  assumes "tables c' = tables c"
  shows "mqtt_get_msg_handler c' t = mqtt_get_msg_handler c t"
proof -
  have "get_handler_loop c' t ps = get_handler_loop c t ps" for ps
    using assms by (induction ps) (simp_all add: tables_def cong: option.case_cong if_cong)
  with assms show ?thesis by (simp add: mqtt_get_msg_handler_def tables_def)
qed

lemma get_handler_mem: "mqtt_get_msg_handler c t = Some (Some p) \<Longrightarrow> p \<in> set (mqtt_msg_handler_list c)"
proof -
  have "get_handler_loop c t ps = Some (Some p) \<Longrightarrow> p \<in> set ps" for ps
    by (induction ps) (auto simp: bind_eq_Some_conv split: option.splits if_splits)
  then show "mqtt_get_msg_handler c t = Some (Some p) \<Longrightarrow> p \<in> set (mqtt_msg_handler_list c)"
    by (simp add: mqtt_get_msg_handler_def)
qed

text \<open>What unsubscribing needs: the handler it finds has no other unsubscribe request under way.\<close>

definition may_unsubscribe :: "mqtt_client \<Rightarrow> bytes \<Rightarrow> bool" where
  "may_unsubscribe c f \<longleftrightarrow> (\<forall>p. mqtt_get_msg_handler c (topic_str (Some f)) = Some (Some p) \<longrightarrow>
     p \<notin> set (refs UNSUBACK (mqtt_ack_handler_list c)))"

lemma may_unsubscribe_tables: "tables c' = tables c \<Longrightarrow> may_unsubscribe c' f = may_unsubscribe c f"
  using get_handler_tables [of c' c] by (simp add: may_unsubscribe_def) (simp add: tables_def)

lemma unsubscribe_valid [keep]:
  assumes "client_ok c" "may_unsubscribe c f" "\<And>rc c'. client_ok c' \<Longrightarrow> held c' = held c \<Longrightarrow> Q (rc, c')"
  shows "valid (mqtt_unsubscribe c (Some f)) Q"
proof -
  have find: "valid (do {
      msg_handler \<leftarrow> mqtt_get_msg_handler c1 (topic_str (Some f));
      case msg_handler of
        None \<Rightarrow> Some (MQTT_MEM_NOT_ENOUGH_ERROR, c1)
      | Some p \<Rightarrow> mqtt_ack_list_record c1 UNSUBACK pid plen (Some p) }) R"
    if "client_ok c1" "tables c1 = tables c" "\<And>rc c'. client_ok c' \<Longrightarrow> held c' = held c1 \<Longrightarrow> R (rc, c')" for c1 pid plen R
    using that may_unsubscribe_tables [OF that(2)] assms(2)
    by (auto simp: may_unsubscribe_def split: option.splits dest: get_handler_mem
        intro!: record_unsub_valid valid_pure [of "mqtt_get_msg_handler _ _"])
  show ?thesis
    using assms(1,3)
    by (auto simp: mqtt_unsubscribe_def Let_def case_prod_unfold
        intro!: keep serialize_into_valid serialize_wlen find [unfolded valid_bind])
qed

section \<open>Connection and background loop\<close>

lemma disconnect_valid [keep]:
  "client_ok c \<Longrightarrow> (\<And>rc c'. client_ok c' \<Longrightarrow> held c' = held c \<Longrightarrow> Q (rc, c')) \<Longrightarrow> valid (mqtt_disconnect c) Q"
  by (auto simp: mqtt_disconnect_def MQTTSerialize_disconnect_def Let_def
      intro!: keep serialize_into_valid serialize_zero_wlen)

lemma scan_valid [keep]:
  assumes "client_ok c" "held c = 0" "\<And>c'. client_ok c' \<Longrightarrow> held c' = 0 \<Longrightarrow> Q c'"
  shows "valid (mqtt_ack_list_scan c flag) Q"
proof -
  obtain n where n: "mqtt_network c = Some n" using assms(1) by (auto simp: client_ok_defs)
  have l: "\<not> mqtt_write_lock c" using assms(2) by (simp add: held_eq)
  from scan_loop_ok [OF assms(1) l n, of "[]" _ flag] obtain c' where
    "scan_loop flag [] (mqtt_ack_handler_list c) c = Some c'" "client_ok c'" "\<not> mqtt_write_lock c'"
    by (auto simp: scan_post_def)
  with assms show ?thesis by (auto simp: mqtt_ack_list_scan_def held_eq)
qed

lemma clean_session_valid [keep]:
  assumes "client_ok c" "\<And>c'. client_ok c' \<Longrightarrow> held c' = held c \<Longrightarrow> Q c'"
  shows "valid (mqtt_clean_session c) Q"
proof -
  have h: "hok (mqtt_msg_handler_list c) (refs SUBACK (mqtt_ack_handler_list c)) (refs UNSUBACK (mqtt_ack_handler_list c))
      (handlers c) (next_addr c)"
    using assms(1) by (simp add: client_ok_def handlers_ok_def)
  let ?c = "c\<lparr>mqtt_ack_handler_list := [], mqtt_ack_handler_number := 0, mqtt_msg_handler_list := [],
      mqtt_client_state := CLIENT_STATE_INVALID,
      handlers := (handlers c) |` (- set (mqtt_msg_handler_list c @ refs SUBACK (mqtt_ack_handler_list c)))\<rparr>"
  have "client_ok ?c"
    using assms(1) h by (auto simp: client_ok_def bufs_ok_def acks_ok_def handlers_ok_def hok_def restrict_map_def)
  then have "Q ?c" by (rule assms(2)) (simp add: held_def)
  then show ?thesis by (simp add: clean_session_eq [OF assms(1)])
qed

lemma connect_wait_valid [keep]:
  "client_ok c \<Longrightarrow> (\<And>rc c'. client_ok c' \<Longrightarrow> held c' = held c \<Longrightarrow> Q (rc, c')) \<Longrightarrow>
   valid (connect_wait sgnd timer c) Q"
  by (auto simp: connect_wait_def Let_def intro!: keep valid_pure [of "MQTTDeserialize_connack _ _ _"])

lemma alloc_keeps [simp]:
  "client_ok (snd (platform_memory_alloc c)) = client_ok c" "held (snd (platform_memory_alloc c)) = held c"
  by (simp_all add: alloc_eq)

lemma connect_exit_valid [keep]:
  "client_ok c \<Longrightarrow> (\<And>rc c'. client_ok c' \<Longrightarrow> held c' = held c \<Longrightarrow> Q (rc, c')) \<Longrightarrow> valid (connect_exit rc c) Q"
  by (auto simp: connect_exit_def platform_thread_init_def pthread_create_def Let_def case_prod_unfold intro!: keep)

lemma network_connect_frame: "network_connect n w = (rc, n', w') \<Longrightarrow> world.more w' = world.more w"
proof -
  have "connect_addrs as ret w = (rc, w') \<Longrightarrow> world.more w' = world.more w" for as ret rc and w w' :: "'a world_scheme"
    by (induction as ret w rule: connect_addrs.induct) (auto simp: close_fd_def)
  then show "network_connect n w = (rc, n', w') \<Longrightarrow> world.more w' = world.more w"
    by (fastforce simp: network_connect_def nettype_tcp_connect_def platform_net_socket_connect_def Let_def
        split: prod.splits list.splits option.splits if_splits)
qed

lemma connect_valid [keep]:
  assumes "client_ok c" "\<And>rc c'. client_ok c' \<Longrightarrow> held c' = held c \<Longrightarrow> Q (rc, c')"
  shows "valid (mqtt_connect sgnd c) Q"
proof -
  obtain n where n: "mqtt_network c = Some n" using assms(1) by (auto simp: client_ok_defs)
  let ?n = "n\<lparr>net_socket := -1, net_host := mqtt_host c, net_port := mqtt_port c\<rparr>"
  let ?c1 = "c\<lparr>mqtt_network := Some ?n\<rparr>"
  obtain rc n2 c2 where nc: "network_connect ?n ?c1 = (rc, n2, c2)" by (metis surj_pair)
  have "client_ok ?c1" using client_ok_network [OF assms(1)] .
  from client_ok_env [OF this network_connect_frame [OF nc]]
  have c2: "client_ok (c2\<lparr>mqtt_network := Some n2\<rparr>)" "held (c2\<lparr>mqtt_network := Some n2\<rparr>) = held c"
    using client_ok_network by (simp_all add: held_def)
  with assms n nc show ?thesis
    by (auto simp: mqtt_connect_def mqtt_connect_with_results_def network_init_def Let_def
        intro!: keep serialize_into_valid serialize_wlen valid_pure [of "mqtt_connect_data _"])
qed

lemma resubscribe_loop_valid:
  "client_ok c \<Longrightarrow> set ps \<subseteq> set (mqtt_msg_handler_list c) \<Longrightarrow>
   (\<And>rc c'. client_ok c' \<Longrightarrow> held c' = held c \<Longrightarrow> Q (rc, c')) \<Longrightarrow> valid (resubscribe_loop ps rc c) Q"
proof (induction ps arbitrary: rc c)
  case (Cons p ps)
  have "live_filter (handlers c) p"
    using Cons.prems(1,2) hok_live [of "mqtt_msg_handler_list c"] by (auto simp: client_ok_def handlers_ok_def)
  then obtain h f where "handlers c p = Some h" "mh_topic_filter h = Some f" by (auto simp: live_filter_def)
  with Cons.prems show ?case by (auto intro!: subscribe_valid Cons.IH)
qed simp

lemma try_resubscribe_valid [keep]:
  "client_ok c \<Longrightarrow> (\<And>rc c'. client_ok c' \<Longrightarrow> held c' = held c \<Longrightarrow> Q (rc, c')) \<Longrightarrow> valid (mqtt_try_resubscribe c) Q"
  by (auto simp: mqtt_try_resubscribe_def intro!: resubscribe_loop_valid)

lemma try_do_reconnect_valid [keep]:
  "client_ok c \<Longrightarrow> held c = 0 \<Longrightarrow> (\<And>rc c'. client_ok c' \<Longrightarrow> held c' = 0 \<Longrightarrow> Q (rc, c')) \<Longrightarrow>
   valid (mqtt_try_do_reconnect sgnd c) Q"
  by (auto simp: mqtt_try_do_reconnect_def intro!: keep)

lemma sleep_keeps [simp]: "client_ok (mqtt_sleep_ms c ms) = client_ok c" "held (mqtt_sleep_ms c ms) = held c"
  by (simp_all add: mqtt_sleep_ms_def usleep_us_def held_def)

text \<open>The reconnect callback may change the client as the setters do, which keeps the invariant.\<close>

lemma try_reconnect_valid:
  assumes "client_ok c" "held c = 0" "\<And>f d c. client_ok c \<and> held c = 0 \<Longrightarrow> client_ok (callback f d c) \<and> held (callback f d c) = 0"
    and "\<And>rc c'. client_ok c' \<Longrightarrow> held c' = 0 \<Longrightarrow> Q (rc, c')"
  shows "valid (mqtt_try_reconnect sgnd callback c) Q"
  using assms by (auto simp: mqtt_try_reconnect_def Let_def split: option.splits intro!: keep)

end
