(* ===== verification/Client_Reachable.thy ===== *)
theory Client_Reachable
  imports Client_Requests
begin

text \<open>
  The client as a state machine. A step is one call of the application, one turn of the background
  loop, or a change of the environment (the clock, what the network brings, what it accepts, which
  allocations succeed). The invariant holds in every state that is reachable from a leased client.

  The guards of the steps are what the code needs and does not check: a filter that is not null, no
  second unsubscribe request for a handler whose first is pending, buffers that could be allocated,
  a write buffer of at least four bytes that is not exchanged while packets wait for acknowledgements.
\<close>

section \<open>Steps\<close>

datatype client_op =
    Publish "bytes option" mqtt_message | Subscribe bytes nat "message_handler option" | Unsubscribe bytes
  | Connect | Disconnect | Receive | Keep_alive | Scan u8 | Reconnect | Clean | Configure | Read_buffer u32 | Write_buffer u32
  | End_thread | Environment

text \<open>The setters that only store a value.\<close>

definition configured :: "mqtt_client \<Rightarrow> mqtt_client \<Rightarrow> bool" where
  "configured c c' \<longleftrightarrow>
     (\<exists>t. Some c' \<in> {snd (mqtt_set_client_id (Some c) t), snd (mqtt_set_user_name (Some c) t),
        snd (mqtt_set_password (Some c) t), snd (mqtt_set_host (Some c) t), snd (mqtt_set_port (Some c) t),
        snd (mqtt_set_ca (Some c) t)}) \<or>
     (\<exists>t. Some c' \<in> {snd (mqtt_set_reconnect_data (Some c) t), snd (mqtt_set_reconnect_handler (Some c) t)}) \<or>
     (\<exists>t. Some c' \<in> {snd (mqtt_set_will_flag (Some c) t), snd (mqtt_set_clean_session (Some c) t),
        snd (mqtt_set_version (Some c) t), snd (mqtt_set_cmd_timeout (Some c) t),
        snd (mqtt_set_reconnect_try_duration (Some c) t)}) \<or>
     (\<exists>t. Some c' = snd (mqtt_set_keep_alive_interval (Some c) t)) \<or>
     (\<exists>t. Some c' = snd (mqtt_set_interceptor_handler (Some c) t)) \<or>
     (\<exists>t q r m. Some c' = snd (mqtt_set_will_options (Some c) t q r m))"

inductive client_step :: "mqtt_client \<Rightarrow> client_op \<Rightarrow> mqtt_client \<Rightarrow> bool" where
  publish: "mqtt_publish c t msg = Some (rc, msg', c') \<Longrightarrow> client_step c (Publish t msg) c'"
| subscribe: "mqtt_subscribe c (Some f) qos h = Some (rc, c') \<Longrightarrow> client_step c (Subscribe f qos h) c'"
| unsubscribe: "mqtt_unsubscribe c (Some f) = Some (rc, c') \<Longrightarrow> may_unsubscribe c f \<Longrightarrow> client_step c (Unsubscribe f) c'"
| connect: "mqtt_connect sgnd c = Some (rc, c') \<Longrightarrow> client_step c Connect c'"
| disconnect: "mqtt_disconnect c = Some (rc, c') \<Longrightarrow> client_step c Disconnect c'"
| receive: "mqtt_packet_handle sgnd c = Some (rc, timer, c') \<Longrightarrow> client_step c Receive c'"
| keep_alive: "mqtt_keep_alive c = Some (rc, c') \<Longrightarrow> client_step c Keep_alive c'"
| scan: "mqtt_ack_list_scan c flag = Some c' \<Longrightarrow> client_step c (Scan flag) c'"
| reconnect: "mqtt_try_do_reconnect sgnd c = Some (rc, c') \<Longrightarrow> client_step c Reconnect c'"
| clean: "mqtt_clean_session c = Some c' \<Longrightarrow> client_step c Clean c'"
| configure: "configured c c' \<Longrightarrow> client_step c Configure c'"
| read_buffer: "mqtt_set_read_buf_size (Some c) sz = (r, Some c') \<Longrightarrow> mqtt_read_buf c' \<noteq> None \<Longrightarrow>
    client_step c (Read_buffer sz) c'"
| write_buffer: "mqtt_set_write_buf_size (Some c) sz = (r, Some c') \<Longrightarrow> mqtt_write_buf c' \<noteq> None \<Longrightarrow> 4 \<le> sz \<Longrightarrow>
    mqtt_ack_handler_list c = [] \<Longrightarrow> client_step c (Write_buffer sz) c'"
| end_thread: "end_thread c = Some c' \<Longrightarrow> client_step c End_thread c'"
| environment: "world.more c' = world.more c \<Longrightarrow> client_step c Environment c'"

inductive_cases receive_stepE: "client_step c Receive c'"
inductive_cases clean_stepE: "client_step c Clean c'"
inductive_simps publish_step [simp]: "client_step c (Publish t msg) c'"
inductive_simps environment_step [simp]: "client_step c Environment c'"

inductive reachable :: "mqtt_client \<Rightarrow> bool" where
  leased: "mqtt_lease w = (Some c, w') \<Longrightarrow> mqtt_read_buf c \<noteq> None \<Longrightarrow> mqtt_write_buf c \<noteq> None \<Longrightarrow> reachable c"
| step: "reachable c \<Longrightarrow> client_step c op c' \<Longrightarrow> reachable c'"

section \<open>The invariant\<close>

lemma buf_size_range: "3 \<le> mqtt_buf_size sz" "mqtt_buf_size sz < 268435455"
  by (auto simp: mqtt_buf_size_def MQTT_MIN_PAYLOAD_SIZE_def MQTT_MAX_PAYLOAD_SIZE_def MQTT_DEFAULT_BUF_SIZE_def
      word_le_nat_alt word_less_nat_alt not_le)

lemma set_read_buf_keeps:
  assumes "client_ok c" "mqtt_set_read_buf_size (Some c) sz = (r, Some c')" "mqtt_read_buf c' \<noteq> None"
  shows "client_ok c'" "held c' = held c"
  using assms
  by (auto simp: mqtt_set_read_buf_size_def mqtt_read_buf_malloc_def alloc_eq Let_def client_ok_defs held_def
      split: if_splits)

lemma set_write_buf_keeps:
  assumes "client_ok c" "mqtt_set_write_buf_size (Some c) sz = (r, Some c')" "mqtt_write_buf c' \<noteq> None" "4 \<le> sz"
    and "mqtt_ack_handler_list c = []"
  shows "client_ok c'" "held c' = held c"
proof -
  have "4 \<le> mqtt_buf_size sz" using assms(4) by (simp add: mqtt_buf_size_def MQTT_DEFAULT_BUF_SIZE_def word_le_nat_alt)
  then have "4 \<le> unat (mqtt_buf_size sz)" "unat (mqtt_buf_size sz) < 268435455"
    using buf_size_range(2) [of sz] by (simp_all add: word_le_nat_alt word_less_nat_alt)
  with assms show "client_ok c'" "held c' = held c"
    by (auto simp: mqtt_set_write_buf_size_def mqtt_write_buf_malloc_def alloc_eq Let_def client_ok_defs held_def
        split: if_splits)
qed

lemma set_define_eq [simp]: "snd (MQTT_CLIENT_SET_DEFINE upd get res (Some c) t) = Some (upd t c)"
  by (simp add: MQTT_CLIENT_SET_DEFINE_def Let_def)

lemma client_ok_config [simp]:
  "client_ok (c\<lparr>mqtt_client_id := v0\<rparr>) = client_ok c" "held (c\<lparr>mqtt_client_id := v0\<rparr>) = held c"
  "client_ok (c\<lparr>mqtt_user_name := v1\<rparr>) = client_ok c" "held (c\<lparr>mqtt_user_name := v1\<rparr>) = held c"
  "client_ok (c\<lparr>mqtt_password := v2\<rparr>) = client_ok c" "held (c\<lparr>mqtt_password := v2\<rparr>) = held c"
  "client_ok (c\<lparr>mqtt_host := v3\<rparr>) = client_ok c" "held (c\<lparr>mqtt_host := v3\<rparr>) = held c"
  "client_ok (c\<lparr>mqtt_port := v4\<rparr>) = client_ok c" "held (c\<lparr>mqtt_port := v4\<rparr>) = held c"
  "client_ok (c\<lparr>mqtt_ca := v5\<rparr>) = client_ok c" "held (c\<lparr>mqtt_ca := v5\<rparr>) = held c"
  "client_ok (c\<lparr>mqtt_reconnect_data := v6\<rparr>) = client_ok c" "held (c\<lparr>mqtt_reconnect_data := v6\<rparr>) = held c"
  "client_ok (c\<lparr>mqtt_reconnect_handler := v7\<rparr>) = client_ok c" "held (c\<lparr>mqtt_reconnect_handler := v7\<rparr>) = held c"
  "client_ok (c\<lparr>mqtt_will_flag := v8\<rparr>) = client_ok c" "held (c\<lparr>mqtt_will_flag := v8\<rparr>) = held c"
  "client_ok (c\<lparr>mqtt_clean_session_flag := v9\<rparr>) = client_ok c" "held (c\<lparr>mqtt_clean_session_flag := v9\<rparr>) = held c"
  "client_ok (c\<lparr>mqtt_version := v10\<rparr>) = client_ok c" "held (c\<lparr>mqtt_version := v10\<rparr>) = held c"
  "client_ok (c\<lparr>mqtt_cmd_timeout := v11\<rparr>) = client_ok c" "held (c\<lparr>mqtt_cmd_timeout := v11\<rparr>) = held c"
  "client_ok (c\<lparr>mqtt_reconnect_try_duration := v12\<rparr>) = client_ok c" "held (c\<lparr>mqtt_reconnect_try_duration := v12\<rparr>) = held c"
  "client_ok (c\<lparr>mqtt_keep_alive_interval := v13\<rparr>) = client_ok c" "held (c\<lparr>mqtt_keep_alive_interval := v13\<rparr>) = held c"
  "client_ok (c\<lparr>mqtt_interceptor_handler := v14\<rparr>) = client_ok c" "held (c\<lparr>mqtt_interceptor_handler := v14\<rparr>) = held c"
  "client_ok (c\<lparr>mqtt_will_options := v15\<rparr>) = client_ok c" "held (c\<lparr>mqtt_will_options := v15\<rparr>) = held c"
  by (simp_all add: client_ok_defs held_def)

lemmas setters = mqtt_set_client_id_def mqtt_set_user_name_def mqtt_set_password_def mqtt_set_host_def mqtt_set_port_def
  mqtt_set_ca_def mqtt_set_reconnect_data_def mqtt_set_reconnect_handler_def mqtt_set_will_flag_def
  mqtt_set_clean_session_def mqtt_set_version_def mqtt_set_cmd_timeout_def mqtt_set_reconnect_try_duration_def
  mqtt_set_keep_alive_interval_def mqtt_set_interceptor_handler_def

lemma set_will_options_keeps:
  "Some c' = snd (mqtt_set_will_options (Some c) t q r m) \<Longrightarrow> client_ok c \<Longrightarrow> client_ok c' \<and> held c' = held c"
  by (cases t) (simp_all add: mqtt_set_will_options_def alloc_eq Let_def split: if_splits)

lemma configured_keeps:
  assumes "configured c c'" "client_ok c"
  shows "client_ok c' \<and> held c' = held c"
  using assms(1) unfolding configured_def setters set_define_eq
  by (elim disjE exE) (use assms(2) set_will_options_keeps in \<open>force+\<close>)

lemma valid_result:
  "m1 = Some c' \<Longrightarrow> valid m1 P \<Longrightarrow> P c'"
  "m2 = Some (rc, c') \<Longrightarrow> valid m2 (\<lambda>(rc, c'). P c') \<Longrightarrow> P c'"
  "m3 = Some (rc, x, c') \<Longrightarrow> valid m3 (\<lambda>(rc, x, c'). P c') \<Longrightarrow> P c'"
  by (simp_all add: valid_def)

lemma step_keeps:
  assumes "client_step c op c'" "client_ok c" "held c = 0"
  shows "client_ok c' \<and> held c' = 0"
  using assms(1)
proof cases
  case publish
  show ?thesis by (rule valid_result(3) [OF publish(2)]) (use assms in \<open>auto intro!: keep\<close>)
next
  case subscribe
  show ?thesis by (rule valid_result(2) [OF subscribe(2)]) (use assms in \<open>auto intro!: keep\<close>)
next
  case unsubscribe
  show ?thesis by (rule valid_result(2) [OF unsubscribe(2)]) (use assms unsubscribe(3) in \<open>auto intro!: keep\<close>)
next
  case connect
  show ?thesis by (rule valid_result(2) [OF connect(2)]) (use assms in \<open>auto intro!: keep\<close>)
next
  case disconnect
  show ?thesis by (rule valid_result(2) [OF disconnect(2)]) (use assms in \<open>auto intro!: keep\<close>)
next
  case receive
  show ?thesis by (rule valid_result(3) [OF receive(2)]) (use assms in \<open>auto intro!: keep\<close>)
next
  case keep_alive
  show ?thesis by (rule valid_result(2) [OF keep_alive(2)]) (use assms in \<open>auto intro!: keep\<close>)
next
  case scan
  show ?thesis by (rule valid_result(1) [OF scan(2)]) (use assms in \<open>auto intro!: keep\<close>)
next
  case reconnect
  show ?thesis by (rule valid_result(2) [OF reconnect(2)]) (use assms in \<open>auto intro!: keep\<close>)
next
  case clean
  show ?thesis by (rule valid_result(1) [OF clean(2)]) (use assms in \<open>auto intro!: keep\<close>)
next
  case configure
  with assms(2,3) configured_keeps show ?thesis by simp
next
  case read_buffer
  with assms(2,3) set_read_buf_keeps [OF assms(2)] show ?thesis by simp
next
  case write_buffer
  with assms(2,3) set_write_buf_keeps [OF assms(2)] show ?thesis by simp
next
  case end_thread
  with assms(2,3) show ?thesis by (auto simp: end_thread_def held_def split: if_splits)
next
  case environment
  from client_ok_env [OF assms(2) environment(2)] assms(3) show ?thesis by simp
qed

text \<open>Creation: either there is no client, or a client in its initial state.\<close>

lemma buf_malloc_eq:
  "snd (mqtt_read_buf_malloc (Some c) sz) = Some (c\<lparr>mqtt_read_buf_size := mqtt_buf_size sz, allocs := tl (allocs c),
     mqtt_read_buf := if alloc_ok c then Some (replicate (unat (mqtt_buf_size sz)) 0) else None\<rparr>)"
  "snd (mqtt_write_buf_malloc (Some c) sz) = Some (c\<lparr>mqtt_write_buf_size := mqtt_buf_size sz, allocs := tl (allocs c),
     mqtt_write_buf := if alloc_ok c then Some (replicate (unat (mqtt_buf_size sz)) 0) else None\<rparr>)"
  by (simp_all add: mqtt_read_buf_malloc_def mqtt_write_buf_malloc_def alloc_eq alloc_ok_def Let_def)

lemma default_buf [simp]: "mqtt_buf_size MQTT_DEFAULT_BUF_SIZE = 1024"
  by (simp add: mqtt_buf_size_def MQTT_DEFAULT_BUF_SIZE_def)

lemma init_result:
  assumes "mqtt_init c = (MQTT_SUCCESS_ERROR, c')"
  shows "mqtt_client_state c' = CLIENT_STATE_INITIALIZED" "mqtt_packet_id c' = 1" "mqtt_ack_handler_list c' = []"
    "mqtt_msg_handler_list c' = []" "handlers c' = handlers c" "mqtt_write_lock c' = False"
    "mqtt_network c' = Some network_zero" "mqtt_ack_handler_number c' = 0" "mqtt_read_buf_size c' = 1024"
    "mqtt_write_buf_size c' = 1024" "mqtt_read_buf c' \<in> {None, Some (replicate 1024 0)}"
    "mqtt_write_buf c' \<in> {None, Some (replicate 1024 0)}" "mqtt_thread c' = mqtt_thread c"
  using assms unfolding mqtt_init_def alloc_eq Let_def case_prod_unfold buf_malloc_eq option.sel
  by (simp_all add: mqtt_errors split: if_splits) (auto split: if_splits)

lemma lease_result:
  assumes "mqtt_lease w = (Some c, w')"
  obtains c0 where "mqtt_init c0 = (MQTT_SUCCESS_ERROR, c)" "handlers c0 = (\<lambda>_. None)" "mqtt_thread c0 = False"
proof -
  let ?c0 = "client_zero (snd (platform_memory_alloc w))"
  have "mqtt_init ?c0 = (MQTT_SUCCESS_ERROR, c)"
    using assms by (cases "mqtt_init ?c0") (simp add: mqtt_lease_def Let_def case_prod_unfold split: if_splits)
  moreover have "handlers ?c0 = (\<lambda>_. None)" "mqtt_thread ?c0 = False"
    by (simp_all add: client_zero_def world.defs mqtt_client.defs)
  ultimately show ?thesis by (rule that)
qed

lemma lease_ok:
  assumes "mqtt_lease w = (Some c, w')" "mqtt_read_buf c \<noteq> None" "mqtt_write_buf c \<noteq> None"
  shows "client_ok c \<and> held c = 0"
  using assms(1)
proof (rule lease_result)
  fix c0
  assume a: "mqtt_init c0 = (MQTT_SUCCESS_ERROR, c)" "handlers c0 = (\<lambda>_. None)"
  note r = init_result [OF a(1)]
  from r assms(2,3) a(2) show ?thesis
    by (auto simp: client_ok_defs hok_def held_def)
qed

lemma reachable_keeps: "reachable c \<Longrightarrow> client_ok c \<and> held c = 0"
  by (induction rule: reachable.induct) (auto dest: lease_ok step_keeps)

section \<open>Properties\<close>

definition sample_leased :: mqtt_client where
  "sample_leased = the (fst (mqtt_lease sample_world))"

lemma sample_lease: "mqtt_lease sample_world = (Some sample_leased, snd (mqtt_lease sample_world))"
proof -
  have "fst (mqtt_lease sample_world) \<noteq> None"
    by (simp add: mqtt_lease_def mqtt_init_def alloc_eq alloc_ok_def sample_world_def client_zero_def world.defs
        mqtt_client.defs Let_def case_prod_unfold buf_malloc_eq mqtt_errors)
  then show ?thesis by (cases "mqtt_lease sample_world") (auto simp: sample_leased_def)
qed

lemma sample_leased_bufs: "mqtt_read_buf sample_leased \<noteq> None" "mqtt_write_buf sample_leased \<noteq> None"
  by (simp_all add: sample_leased_def mqtt_lease_def mqtt_init_def alloc_eq alloc_ok_def sample_world_def client_zero_def
      world.defs mqtt_client.defs Let_def case_prod_unfold buf_malloc_eq mqtt_errors)



text \<open>\<^bold>\<open>Property C28 (lease_well_formed).\<close> \<open>mqtt_lease\<close> gives a client exactly when the first two
  allocations succeed. The client is in the state INITIALIZED with empty tables and packet identifier
  one, and it meets the invariant exactly when both of its buffers were allocated too, which the
  function does not check.\<close>

theorem lease_well_formed:
  "(fst (mqtt_lease w) = None \<longleftrightarrow> \<not> (alloc_ok w \<and> alloc_ok (w\<lparr>allocs := tl (allocs w)\<rparr>))) \<and>
   (case fst (mqtt_lease w) of None \<Rightarrow> True | Some c \<Rightarrow>
     mqtt_client_state c = CLIENT_STATE_INITIALIZED \<and> mqtt_packet_id c = 1 \<and> mqtt_ack_handler_list c = [] \<and>
     mqtt_msg_handler_list c = [] \<and> (client_ok c \<longleftrightarrow> mqtt_read_buf c \<noteq> None \<and> mqtt_write_buf c \<noteq> None))"
proof -
  have al: "alloc_ok (client_zero w) = alloc_ok w" for w
    by (simp add: alloc_ok_def client_zero_def world.defs mqtt_client.defs)
  have init: "fst (mqtt_init c) = (if alloc_ok c then MQTT_SUCCESS_ERROR else MQTT_MEM_NOT_ENOUGH_ERROR)" for c
    by (simp add: mqtt_init_def alloc_eq Let_def case_prod_unfold)
  have none: "fst (mqtt_lease w) = None \<longleftrightarrow> \<not> (alloc_ok w \<and> alloc_ok (w\<lparr>allocs := tl (allocs w)\<rparr>))"
    using init [of "client_zero (w\<lparr>allocs := tl (allocs w)\<rparr>)"]
    by (simp add: mqtt_lease_def alloc_eq Let_def case_prod_unfold al mqtt_errors)
  have "mqtt_client_state c = CLIENT_STATE_INITIALIZED \<and> mqtt_packet_id c = 1 \<and> mqtt_ack_handler_list c = [] \<and>
      mqtt_msg_handler_list c = [] \<and> (client_ok c \<longleftrightarrow> mqtt_read_buf c \<noteq> None \<and> mqtt_write_buf c \<noteq> None)"
    if "fst (mqtt_lease w) = Some c" for c
  proof -
    from that have l: "mqtt_lease w = (Some c, snd (mqtt_lease w))" by (cases "mqtt_lease w") simp
    have "client_ok c \<Longrightarrow> mqtt_read_buf c \<noteq> None \<and> mqtt_write_buf c \<noteq> None" by (auto simp: client_ok_defs)
    with lease_ok [OF l] have "client_ok c \<longleftrightarrow> mqtt_read_buf c \<noteq> None \<and> mqtt_write_buf c \<noteq> None" by blast
    moreover obtain c0 where "mqtt_init c0 = (MQTT_SUCCESS_ERROR, c)" by (rule lease_result [OF l])
    note init_result(1-4) [OF this]
    ultimately show ?thesis by blast
  qed
  with none show ?thesis by (simp split: option.splits)
qed

end
