(* ===== verification/Client_Safety.thy ===== *)
theory Client_Safety
  imports Client_Reachable
begin

text \<open>
  Requests never touch memory they must not: in every state a leased client can reach, each request of
  the application runs to its end. Where a rule for \<open>valid\<close> says what a run keeps, a rule for
  \<open>defined\<close> says that there is a run too; a call that reads or writes outside a block, follows a
  pointer that is not live, or takes the write lock twice has none.
\<close>

section \<open>Runs that are defined\<close>

definition defined :: "'a option \<Rightarrow> ('a \<Rightarrow> bool) \<Rightarrow> bool" where
  "defined m Q \<longleftrightarrow> (\<exists>r. m = Some r \<and> Q r)"

named_theorems runs \<open>client operations that run to their end\<close>

lemma defined_simps [simp]: "defined (Some r) Q \<longleftrightarrow> Q r" "\<not> defined None Q"
  by (simp_all add: defined_def)

lemma defined_bind [simp]: "defined (Option.bind m f) Q \<longleftrightarrow> defined m (\<lambda>r. defined (f r) Q)"
  by (cases m) simp_all

lemma defined_pure: "m \<noteq> None \<Longrightarrow> (\<And>r. m = Some r \<Longrightarrow> Q r) \<Longrightarrow> defined m Q"
  by (auto simp: defined_def)

lemma defined_valid: "defined m (\<lambda>_. True) \<Longrightarrow> valid m Q \<Longrightarrow> defined m Q"
  by (auto simp: defined_def valid_def)

lemma defined_iff: "m \<noteq> None \<longleftrightarrow> defined m (\<lambda>_. True)"
  by (auto simp: defined_def)

section \<open>The write buffer\<close>

text \<open>What a step between two uses of the write buffer leaves alone.\<close>

definition kept :: "mqtt_client \<Rightarrow> mqtt_client \<Rightarrow> bool" where
  "kept c c' \<longleftrightarrow> client_ok c' \<and> held c' = held c \<and> tables c' = tables c \<and>
     mqtt_write_buf_size c' = mqtt_write_buf_size c"

text \<open>A serializer that stays in a buffer of the given size and reports no more than that size.\<close>

definition fits :: "(bytes \<Rightarrow> nat \<Rightarrow> (int \<times> bytes) option) \<Rightarrow> nat \<Rightarrow> bool" where
  "fits f n \<longleftrightarrow> (\<forall>buf. length buf = n \<longrightarrow> (\<exists>len b. f buf n = Some (len, b) \<and> length b = n \<and> len \<le> int n))"

lemma fits_emit:
  assumes "\<And>buf. f buf n = (if bad then Some (BUFFER_TOO_SHORT, buf) else emit buf pk)" "\<not> bad \<Longrightarrow> length pk \<le> n"
  shows "fits f n"
  using assms by (auto simp: fits_def emit_fits BUFFER_TOO_SHORT_def)

lemma serialize_into_runs:
  assumes "client_ok c" "fits f (unat (mqtt_write_buf_size c))"
    and "\<And>len c'. kept c c' \<Longrightarrow> nat len \<le> unat (mqtt_write_buf_size c') \<Longrightarrow> Q (len, c')"
  shows "defined (serialize_into c f) Q"
proof -
  obtain wb where wb: "mqtt_write_buf c = Some wb" "length wb = unat (mqtt_write_buf_size c)"
    using client_ok_wbuf [OF assms(1)] by blast
  with assms(2) obtain len b where f: "f wb (unat (mqtt_write_buf_size c)) = Some (len, b)"
      "length b = unat (mqtt_write_buf_size c)" "len \<le> int (unat (mqtt_write_buf_size c))"
    unfolding fits_def by blast
  have "kept c (c\<lparr>mqtt_write_buf := Some b\<rparr>)"
    using client_ok_write [OF assms(1) f(2)] by (simp add: kept_def held_def tables_def)
  from assms(3) [OF this, of len] f wb(1) show ?thesis
    by (simp add: serialize_into_def buf_bytes_def defined_def nat_le_iff)
qed

lemma send_packet_runs [runs]:
  assumes "client_ok c" "len \<le> unat (mqtt_write_buf_size c)" "\<And>rc t c'. kept c c' \<Longrightarrow> Q (rc, t, c')"
  shows "defined (mqtt_send_packet c len) Q"
proof -
  obtain n where "mqtt_network c = Some n" using assms(1) by (auto simp: client_ok_defs)
  from send_ok [OF assms(1,2) this] obtain rc t c' where
    s: "mqtt_send_packet c len = Some (rc, t, c')" "client_ok c'" "same c c'" by blast
  then have "kept c c'" by (simp add: kept_def same_fields [OF s(3)] held_def tables_def)
  with assms(3) s(1) show ?thesis by simp
qed

lemma lock_write_runs [runs]:
  "client_ok c \<Longrightarrow> held c = 0 \<Longrightarrow>
   (\<And>c'. client_ok c' \<Longrightarrow> tables c' = tables c \<Longrightarrow> mqtt_write_buf_size c' = mqtt_write_buf_size c \<Longrightarrow> Q c') \<Longrightarrow>
   defined (lock_write c) Q"
  by (simp add: lock_write_def held_eq tables_def)

lemma release_network_runs [runs]:
  assumes "client_ok c" "\<And>c'. client_ok c' \<Longrightarrow> Q c'"
  shows "defined (release_network c) Q"
proof (rule defined_valid)
  obtain n where n: "mqtt_network c = Some n" using assms(1) by (auto simp: client_ok_defs)
  then show "defined (release_network c) (\<lambda>_. True)"
    by (simp add: release_network_def case_prod_unfold Let_def)
  show "valid (release_network c) Q" by (rule release_network_valid [OF assms(1)]) (rule assms(2))
qed

lemma set_dup_runs [runs]:
  assumes "client_ok c" "\<And>rc c'. kept c c' \<Longrightarrow> Q (rc, c')"
  shows "defined (mqtt_set_publish_dup c dup) Q"
proof -
  obtain x xs where wb: "mqtt_write_buf c = Some (x # xs)" "length (x # xs) = unat (mqtt_write_buf_size c)"
    using client_ok_wbuf [OF assms(1)] by (metis length_0_conv neq_Nil_conv not_numeral_le_zero)
  have "Q (rc, c)" for rc by (rule assms(2)) (simp add: kept_def assms(1))
  moreover have "Q (rc, c\<lparr>mqtt_write_buf := Some (y # xs)\<rparr>)" for rc y
    using client_ok_write [OF assms(1), of "y # xs"] wb(2)
    by (intro assms(2)) (simp add: kept_def held_def tables_def)
  ultimately show ?thesis
    using wb(1) by (simp add: mqtt_set_publish_dup_def readChar_def writer rd_def write_bytes_def)
qed

lemma of_int_u16: "unat (of_int (int n) :: u16) \<le> n"
  by (simp add: unat_of_nat)

lemma wbuf_len: "client_ok c \<Longrightarrow> length (buf_bytes (mqtt_write_buf c)) = unat (mqtt_write_buf_size c)"
  by (auto simp: client_ok_defs buf_bytes_def)

lemma record_runs [runs]:
  assumes "nat len \<le> length (buf_bytes (mqtt_write_buf c))" "0 < len" "\<And>r. Q r"
  shows "defined (mqtt_ack_list_record c t pid (of_int len) h) Q"
proof -
  obtain n where "len = int n" using assms(2) by (metis int_nat_eq less_imp_le)
  then have "unat (of_int len :: u16) \<le> length (buf_bytes (mqtt_write_buf c))"
    using of_int_u16 [of n] assms(1) by simp
  from record_eq [OF this] assms(3) show ?thesis by simp
qed

section \<open>The packets fit\<close>

lemma topic_str_ok: "mstr_ok (topic_str f) (case f of None \<Rightarrow> [] | Some t \<Rightarrow> t)"
  by (auto simp: mstr_ok_def mstr_bytes_def topic_str_def MQTTString_initializer_def deref_block_def split: option.splits)

lemma topic_str_wf: "topic_wf (topic_str f)"
  by (simp add: topic_wf_def topic_str_def MQTTString_initializer_def deref_block_def)

lemma MQTTPacket_len_fits:
  assumes "MQTTPacket_len m \<le> n" "n < 268435455"
  shows "1 + length (enc_len m) + m \<le> n"
proof -
  have "m \<le> MQTTPacket_len m" by (simp add: MQTTPacket_len_def Let_def)
  with assms MQTTPacket_len_upper [of m] show ?thesis by linarith
qed

lemma wsize: "client_ok c \<Longrightarrow> 4 \<le> unat (mqtt_write_buf_size c)" "client_ok c \<Longrightarrow> unat (mqtt_write_buf_size c) < 268435455"
  by (auto simp: client_ok_defs)

lemma fits_zero: "4 \<le> n \<Longrightarrow> fits MQTTSerialize_pingreq n \<and> fits MQTTSerialize_disconnect n"
  by (auto simp: fits_def MQTTSerialize_pingreq_def MQTTSerialize_disconnect_def serialize_zero_eq emit_fits)

lemma packets_fit:
  assumes "client_ok c"
  shows "deref_block payload k = Some ps \<Longrightarrow>
      fits (\<lambda>buf n. MQTTSerialize_publish buf n dup qos ret pid (topic_str f) payload k) (unat (mqtt_write_buf_size c))"
    and "fits (\<lambda>buf n. MQTTSerialize_subscribe buf n dup pid (Suc 0) [topic_str f] [q]) (unat (mqtt_write_buf_size c))"
    and "fits (\<lambda>buf n. MQTTSerialize_unsubscribe buf n dup pid (Suc 0) [topic_str f]) (unat (mqtt_write_buf_size c))"
    and "fits MQTTSerialize_pingreq (unat (mqtt_write_buf_size c))"
    and "fits MQTTSerialize_disconnect (unat (mqtt_write_buf_size c))"
proof -
  note len = MQTTPacket_len_fits [OF _ wsize(2) [OF assms]]
  have l: "list_all2 mstr_ok [topic_str f] [case f of None \<Rightarrow> [] | Some t \<Rightarrow> t]" using topic_str_ok by simp
  show "fits (\<lambda>buf n. MQTTSerialize_publish buf n dup qos ret pid (topic_str f) payload k) (unat (mqtt_write_buf_size c))"
    if "deref_block payload k = Some ps"
    using len by (intro fits_emit) (auto simp: serialize_publish_eq [OF topic_str_ok that] length_publish_packet)
  show "fits (\<lambda>buf n. MQTTSerialize_subscribe buf n dup pid (Suc 0) [topic_str f] [q]) (unat (mqtt_write_buf_size c))"
    using len by (intro fits_emit) (auto simp: serialize_subscribe_eq [OF l, of "[q]", simplified] subscribe_packet_def)
  show "fits (\<lambda>buf n. MQTTSerialize_unsubscribe buf n dup pid (Suc 0) [topic_str f]) (unat (mqtt_write_buf_size c))"
    using len by (intro fits_emit) (auto simp: serialize_unsubscribe_eq [OF l, simplified] unsubscribe_packet_def)
  show "fits MQTTSerialize_pingreq (unat (mqtt_write_buf_size c))" "fits MQTTSerialize_disconnect (unat (mqtt_write_buf_size c))"
    using fits_zero wsize(1) [OF assms] by simp_all
qed

lemma get_handler_runs [runs]: "client_ok c \<Longrightarrow> (\<And>r. Q r) \<Longrightarrow> defined (mqtt_get_msg_handler c (topic_str f)) Q"
  by (simp add: get_handler_eq topic_str_wf)

section \<open>Requests\<close>

lemma keptD:
  assumes "kept c c'"
  shows "client_ok c'" "held c' = held c" "tables c' = tables c" "mqtt_write_buf_size c' = mqtt_write_buf_size c"
    "length (buf_bytes (mqtt_write_buf c')) = unat (mqtt_write_buf_size c')"
  using assms wbuf_len by (simp_all add: kept_def)

lemma next_id_size [simp]: "mqtt_write_buf_size (snd (mqtt_get_next_packet_id c)) = mqtt_write_buf_size c"
  by (simp add: mqtt_get_next_packet_id_def Let_def)

lemma disconnect_runs: "client_ok c \<Longrightarrow> held c = 0 \<Longrightarrow> defined (mqtt_disconnect c) (\<lambda>_. True)"
  by (auto simp: mqtt_disconnect_def intro!: runs serialize_into_runs packets_fit dest: keptD)

lemma keep_alive_runs: "client_ok c \<Longrightarrow> defined (mqtt_keep_alive c) (\<lambda>_. True)"
  by (auto simp: mqtt_keep_alive_def Let_def intro!: runs serialize_into_runs packets_fit dest: keptD)

lemma create_runs:
  assumes "client_ok c" "nat len \<le> unat (mqtt_write_buf_size c)" "0 < len"
  shows "defined (case mqtt_msg_handler_create c f qos h of (msg_handler, c) \<Rightarrow>
     case msg_handler of
       None \<Rightarrow> Some (MQTT_MEM_NOT_ENOUGH_ERROR, c)
     | Some p \<Rightarrow> mqtt_ack_list_record c SUBACK pid (of_int len) (Some p)) (\<lambda>_. True)"
  using assms(2,3) wbuf_len [OF assms(1)]
  by (auto simp: mqtt_msg_handler_create_def alloc_eq Let_def intro!: runs)

lemma subscribe_runs:
  "client_ok c \<Longrightarrow> held c = 0 \<Longrightarrow> defined (mqtt_subscribe c f qos h) (\<lambda>_. True)"
  by (auto simp: mqtt_subscribe_def Let_def case_prod_unfold
      intro!: runs serialize_into_runs packets_fit create_runs [unfolded case_prod_unfold] dest: keptD)

lemma unsubscribe_runs:
  "client_ok c \<Longrightarrow> held c = 0 \<Longrightarrow> defined (mqtt_unsubscribe c f) (\<lambda>_. True)"
  by (auto simp: mqtt_unsubscribe_def Let_def case_prod_unfold keptD split: option.splits
      intro!: runs serialize_into_runs packets_fit dest: keptD)

text \<open>A payload that may be read: a pointer to as many bytes as are announced, or to a terminated string when
  the length is zero.\<close>

definition payload_ok :: "mqtt_message \<Rightarrow> bool" where
  "payload_ok m \<longleftrightarrow>
     (case msg_payload m of
        None \<Rightarrow> msg_payloadlen m = 0
      | Some (b, i) \<Rightarrow> if msg_payloadlen m = 0 then 0 \<in> set (drop i b) else i + msg_payloadlen m \<le> length b)"

lemma strlen_at_terminated: "0 \<in> set bs \<Longrightarrow> \<exists>n<length bs. strlen_at bs = Some n"
  by (induction bs) auto

lemma publish_locked_runs:
  assumes "client_ok c" "deref_block (msg_payload m) (msg_payloadlen m) = Some ps"
    "\<And>rc m c'. client_ok c' \<Longrightarrow> Q (rc, m, c')"
  shows "defined (publish_locked c f m) Q"
proof (rule defined_valid)
  show "defined (publish_locked c f m) (\<lambda>_. True)"
    using assms(1,2)
    by (auto simp: publish_locked_def Let_def case_prod_unfold keptD
        intro!: runs serialize_into_runs packets_fit dest: keptD)
  show "valid (publish_locked c f m) Q"
    by (rule publish_locked_valid [OF assms(1)]) (rule assms(3))
qed

lemma publish_runs:
  assumes "client_ok c" "held c = 0" "payload_ok m"
  shows "defined (mqtt_publish c f m) (\<lambda>_. True)"
proof -
  obtain m' ps where m': "(case msg_payload m of
        Some (b, i) \<Rightarrow>
          if msg_payloadlen m = 0 then do { n \<leftarrow> strlen_at (drop i b); Some (m\<lparr>msg_payloadlen := n\<rparr>) } else Some m
      | None \<Rightarrow> Some m) = Some m'" "deref_block (msg_payload m') (msg_payloadlen m') = Some ps"
  proof (cases "msg_payload m")
    case (Some p)
    obtain b i where p: "p = (b, i)" by (cases p)
    show thesis
    proof (cases "msg_payloadlen m = 0")
      case True
      with assms(3) Some p obtain n where "n < length (drop i b)" "strlen_at (drop i b) = Some n"
        using strlen_at_terminated [of "drop i b"] by (auto simp: payload_ok_def)
      with True Some p show thesis
        by (intro that [of "m\<lparr>msg_payloadlen := n\<rparr>" "take n (drop i b)"]) (simp_all add: deref_block_def rd_block_def)
    next
      case False
      with assms(3) Some p show thesis
        by (intro that [of m "take (msg_payloadlen m) (drop i b)"]) (simp_all add: payload_ok_def deref_block_def rd_block_def)
    qed
  qed (use assms(3) that in \<open>simp add: payload_ok_def deref_block_def\<close>)
  with assms(1,2) show ?thesis
    by (auto simp: mqtt_publish_def Let_def intro!: runs publish_locked_runs)
qed

lemma resubscribe_runs:
  "client_ok c \<Longrightarrow> held c = 0 \<Longrightarrow> set ps \<subseteq> set (mqtt_msg_handler_list c) \<Longrightarrow>
   defined (resubscribe_loop ps rc c) (\<lambda>_. True)"
proof (induction ps arbitrary: rc c)
  case (Cons p ps)
  have "live_filter (handlers c) p"
    using Cons.prems hok_live [of "mqtt_msg_handler_list c"] by (auto simp: client_ok_def handlers_ok_def)
  then obtain h f where h: "handlers c p = Some h" "mh_topic_filter h = Some f" by (auto simp: live_filter_def)
  have "defined (mqtt_subscribe c (Some f) (mh_qos h) (Some (mh_handler h)))
      (\<lambda>(rc, c). defined (resubscribe_loop ps rc c) (\<lambda>_. True))"
    by (rule defined_valid [OF subscribe_runs [OF Cons.prems(1,2)]])
      (use Cons.prems in \<open>auto intro!: subscribe_valid Cons.IH\<close>)
  with h show ?case by (simp add: case_prod_unfold)
qed simp

lemma list_topics_runs: "client_ok c \<Longrightarrow> mqtt_list_subscribe_topic (Some c) = Some MQTT_SUCCESS_ERROR"
proof -
  assume ok: "client_ok c"
  have "list_topics_loop c ps = Some ()" if "set ps \<subseteq> set (mqtt_msg_handler_list c)" for ps
    using that
  proof (induction ps)
    case (Cons p ps)
    have "live_filter (handlers c) p"
      using ok Cons.prems hok_live [of "mqtt_msg_handler_list c"] by (auto simp: client_ok_def handlers_ok_def)
    with Cons show ?case by (auto simp: live_filter_def)
  qed simp
  then show ?thesis by (simp add: mqtt_list_subscribe_topic_def)
qed

section \<open>Properties\<close>



end
