(* ===== verification/Client_Protocol.thy ===== *)
theory Client_Protocol
  imports Client_Requests
begin

text \<open>
  Requests and their answers together: a publication with quality of service 1 or 2 from the call to
  the last acknowledgement, a subscription from the request to the delivery of a message, and
  the end of a subscription.
\<close>

section \<open>Sending a serialized packet\<close>

lemma send_request:
  assumes "client_ok c" "mqtt_network c = Some n" "0 < length pk" "length pk \<le> unat (mqtt_write_buf_size c)"
    and "\<And>buf. length buf = unat (mqtt_write_buf_size c) \<Longrightarrow>
      f buf (unat (mqtt_write_buf_size c)) = Some (int (length pk), pk @ drop (length pk) buf)"
  shows "\<exists>c1 rc timer c2. serialize_into c f = Some (int (length pk), c1) \<and>
    mqtt_send_packet c1 (length pk) = Some (rc, timer, c2) \<and> client_ok c2 \<and> same_tables c c2 \<and>
    allocs c2 = allocs c \<and> take (length pk) (buf_bytes (mqtt_write_buf c2)) = pk \<and>
    (rc = MQTT_SUCCESS_ERROR \<or> rc = MQTT_SEND_PACKET_ERROR) \<and>
    (smooth c \<longrightarrow> rc = MQTT_SUCCESS_ERROR \<and> smooth c2 \<and> now_us c2 = now_us c \<and>
       wire c2 = wire c @ [(net_socket n, pk)])"
proof -
  obtain wb where wb: "mqtt_write_buf c = Some wb" "length wb = unat (mqtt_write_buf_size c)"
    using client_ok_wbuf [OF assms(1)] by blast
  let ?wb = "pk @ drop (length pk) wb"
  let ?c1 = "c\<lparr>mqtt_write_buf := Some ?wb\<rparr>"
  have ok: "client_ok ?c1" using client_ok_write [OF assms(1), of ?wb] wb(2) assms(4) by simp
  have ser: "serialize_into c f = Some (int (length pk), ?c1)"
    using assms(5) [of wb] wb by (simp add: serialize_into_def buf_bytes_def)
  obtain rc timer c2 where s: "mqtt_send_packet ?c1 (length pk) = Some (rc, timer, c2)" "client_ok c2" "same ?c1 c2"
      "allocs c2 = allocs c" "rc = MQTT_SUCCESS_ERROR \<or> rc = MQTT_SEND_PACKET_ERROR"
      "smooth ?c1 \<and> 0 < length pk \<longrightarrow> rc = MQTT_SUCCESS_ERROR \<and> smooth c2 \<and> now_us c2 = now_us ?c1 \<and>
         wire c2 = wire ?c1 @ [(net_socket n, take (length pk) (buf_bytes (mqtt_write_buf ?c1)))]"
    using send_ok [OF ok, of "length pk" n] assms(2,4) by auto
  have "same_tables c c2"
    by (rule same_tables_trans [OF same_tables_wbuf same_tables_same [OF s(3)]])
  moreover have "take (length pk) (buf_bytes (mqtt_write_buf c2)) = pk"
    using same_fields(1) [OF s(3)] by (simp add: buf_bytes_def)
  moreover have "smooth ?c1 = smooth c" by (simp add: smooth_def)
  ultimately show ?thesis
    using ser s assms(3) by (intro exI [of _ ?c1] exI [of _ rc] exI [of _ timer] exI [of _ c2]) (simp add: buf_bytes_def)
qed

section \<open>Publishing\<close>

lemma set_dup_publish:
  assumes "client_ok c" "take (length (publish_packet d qos r pid ts ps)) (buf_bytes (mqtt_write_buf c)) = publish_packet d qos r pid ts ps"
  shows "\<exists>wb. mqtt_set_publish_dup c d' = Some (MQTT_SUCCESS_ERROR, c\<lparr>mqtt_write_buf := Some wb\<rparr>) \<and>
    length wb = unat (mqtt_write_buf_size c) \<and>
    take (length (publish_packet d qos r pid ts ps)) wb = publish_packet d' qos r pid ts ps"
proof -
  obtain wb where wb: "mqtt_write_buf c = Some wb" "length wb = unat (mqtt_write_buf_size c)"
    using client_ok_wbuf [OF assms(1)] by blast
  define tail where "tail = enc_len (publish_rem qos ts ps) @ publish_body qos pid ts ps"
  have pk: "publish_packet x qos r pid ts ps = mk_header (msg_code PUBLISH) x qos r # tail" for x
    by (simp add: publish_packet_def tail_def)
  from assms(2) wb(1) obtain rest where rest: "wb = mk_header (msg_code PUBLISH) d qos r # rest" "take (length tail) rest = tail"
    by (cases wb) (auto simp: pk buf_bytes_def)
  have "mqtt_set_publish_dup c d' = Some (MQTT_SUCCESS_ERROR, c\<lparr>mqtt_write_buf := Some (mk_header (msg_code PUBLISH) d' qos r # rest)\<rparr>)"
    using wb(1) by (simp add: mqtt_set_publish_dup_def readChar_def rd_def rest(1) writer write_bytes_def hdr_set_dup_mk)
  then show ?thesis
    using wb(2) rest by (intro exI [of _ "mk_header (msg_code PUBLISH) d' qos r # rest"]) (simp add: pk)
qed

definition pub_ack :: "nat \<Rightarrow> msgTypes" where
  "pub_ack qos = (if qos = QOS1 then PUBACK else PUBREC)"

text \<open>The identifier the next request gets.\<close>

definition next_id :: "mqtt_client \<Rightarrow> u16" where
  "next_id c = fst (mqtt_get_next_packet_id c)"

lemma next_id_eq: "mqtt_get_next_packet_id c = (next_id c, c\<lparr>mqtt_packet_id := next_id c\<rparr>)"
  by (simp add: next_id_def mqtt_get_next_packet_id_def Let_def)

lemma topic_str_some [simp]: "topic_str (Some ts) = cstr ts"
  by (simp add: topic_str_def cstr_def)

lemma next_id_upd [simp]: "next_id (c\<lparr>mqtt_write_lock := l\<rparr>) = next_id c"
  by (simp add: next_id_def mqtt_get_next_packet_id_def Let_def)

lemma serialize_publish_ok:
  assumes "deref_block pl n = Some ps" "MQTTPacket_len (publish_rem qos ts ps) \<le> sz" "sz < 268435455"
    and "length buf = sz"
  shows "MQTTSerialize_publish buf sz d qos r pid (cstr ts) pl n =
      Some (int (length (publish_packet d qos r pid ts ps)),
        publish_packet d qos r pid ts ps @ drop (length (publish_packet d qos r pid ts ps)) buf)"
    and "length (publish_packet d qos r pid ts ps) \<le> sz"
proof -
  have "publish_rem qos ts ps < 268435456" using assms(2,3) by (simp add: MQTTPacket_len_def split: if_splits)
  from length_publish_packet_le [OF this] assms(2) show le: "length (publish_packet d qos r pid ts ps) \<le> sz"
    using order_trans by blast
  show "MQTTSerialize_publish buf sz d qos r pid (cstr ts) pl n =
      Some (int (length (publish_packet d qos r pid ts ps)),
        publish_packet d qos r pid ts ps @ drop (length (publish_packet d qos r pid ts ps)) buf)"
    using serialize_publish_eq [of "cstr ts" ts pl n ps buf sz d qos r pid] assms le by (simp add: emit_fits)
qed

lemma publish_ok:
  assumes "client_ok c" "mqtt_client_state c = CLIENT_STATE_CONNECTED" "\<not> mqtt_write_lock c" "smooth c" "alloc_ok c"
    and "mqtt_network c = Some n" "msg_qos msg = QOS1 \<or> msg_qos msg = QOS2" "\<not> mqtt_ack_handler_is_maximum c"
    and "msg_payload msg = Some pl" "msg_payloadlen msg \<noteq> 0" "deref_block (Some pl) (msg_payloadlen msg) = Some ps"
    and "MQTTPacket_len (publish_rem (msg_qos msg) ts ps) \<le> unat (mqtt_write_buf_size c)"
    and "\<not> has_key (mqtt_ack_handler_list c) (pub_ack (msg_qos msg), next_id c)"
  defines "pk d \<equiv> publish_packet d (msg_qos msg) (msg_retained msg) (next_id c) ts ps"
  shows "\<exists>c' a. mqtt_publish c (Some ts) msg = Some (MQTT_SUCCESS_ERROR, msg\<lparr>msg_id := next_id c, msg_payloadlen := 0\<rparr>, c') \<and>
    client_ok c' \<and> \<not> mqtt_write_lock c' \<and> wire c' = wire c @ [(net_socket n, pk 0)] \<and>
    mqtt_ack_handler_list c' = mqtt_ack_handler_list c @ [a] \<and> ack_key a = (pub_ack (msg_qos msg), next_id c) \<and>
    ah_payload a = take (length (pk 1) mod 65536) (pk 1) \<and> mqtt_packet_id c' = next_id c \<and>
    mqtt_client_state c' = CLIENT_STATE_CONNECTED \<and> smooth c' \<and> allocs c' = tl (allocs c) \<and> mqtt_network c' = Some n \<and>
    mqtt_read_buf_size c' = mqtt_read_buf_size c \<and> mqtt_interceptor_handler c' = mqtt_interceptor_handler c \<and>
    delivered c' = delivered c"
proof -
  let ?qos = "msg_qos msg" and ?id = "next_id c"
  define c2 where "c2 = c\<lparr>mqtt_write_lock := True, mqtt_packet_id := ?id\<rparr>"
  have sz: "unat (mqtt_write_buf_size c2) < 268435455" "unat (mqtt_write_buf_size c2) = unat (mqtt_write_buf_size c)"
    using assms(1) by (simp_all add: client_ok_defs c2_def)
  note ser = serialize_publish_ok [OF assms(11), of ?qos ts "unat (mqtt_write_buf_size c2)", unfolded sz(2), OF assms(12) sz(1) [unfolded sz(2)]]
  have len: "length (pk d) = length (pk 0)" for d by (simp add: pk_def publish_packet_def)
  have le: "length (pk 0) \<le> unat (mqtt_write_buf_size c2)" using ser(2) client_ok_wbuf [OF assms(1)] sz(2) unfolding pk_def by metis
  have pos: "0 < length (pk 0)" by (simp add: pk_def publish_packet_def)
  obtain c3a rc timer c3 where s: "serialize_into c2 (\<lambda>buf n. MQTTSerialize_publish buf n 0 ?qos (msg_retained msg) ?id (cstr ts)
        (Some pl) (msg_payloadlen msg)) = Some (int (length (pk 0)), c3a)"
      "mqtt_send_packet c3a (length (pk 0)) = Some (rc, timer, c3)" "client_ok c3" "same_tables c2 c3" "allocs c3 = allocs c2"
      "take (length (pk 0)) (buf_bytes (mqtt_write_buf c3)) = pk 0"
      "smooth c2 \<longrightarrow> rc = MQTT_SUCCESS_ERROR \<and> smooth c3 \<and> now_us c3 = now_us c2 \<and> wire c3 = wire c2 @ [(net_socket n, pk 0)]"
    using send_request [of c2 n "pk 0", OF _ _ pos le, of "\<lambda>buf n. MQTTSerialize_publish buf n 0 ?qos (msg_retained msg) ?id (cstr ts)
        (Some pl) (msg_payloadlen msg)"] ser(1) assms(1,6) sz(2) by (auto simp: c2_def pk_def)
  have sm: "smooth c2" using assms(4) by (simp add: c2_def smooth_def)
  note f = same_tables_fields [OF s(4), simplified c2_def, simplified]
  obtain wb where wb: "mqtt_set_publish_dup c3 1 = Some (MQTT_SUCCESS_ERROR, c3\<lparr>mqtt_write_buf := Some wb\<rparr>)"
      "length wb = unat (mqtt_write_buf_size c3)" "take (length (pk 0)) wb = pk 1"
    using set_dup_publish [OF s(3), of 0 ?qos "msg_retained msg" ?id ts ps 1] s(6) by (auto simp: pk_def)
  define c4 where "c4 = c3\<lparr>mqtt_write_buf := Some wb\<rparr>"
  have ok4: "client_ok c4" using client_ok_write [OF s(3) wb(2)] by (simp add: c4_def)
  let ?plen = "of_int (int (length (pk 0))) :: u16"
  have plen: "unat ?plen = length (pk 0) mod 65536" by (simp add: unat_of_nat)
  have fit: "unat ?plen \<le> length (buf_bytes (mqtt_write_buf c4))" "unat ?plen \<le> unat (mqtt_write_buf_size c4)"
    using le wb(2) f unfolding plen by (auto simp: c4_def buf_bytes_def c2_def intro: order_trans [OF mod_less_eq_dividend])
  let ?a = "new_ack c4 (pub_ack ?qos) ?id ?plen None"
  let ?c5 = "add_ack (c4\<lparr>allocs := tl (allocs c4)\<rparr>) ?a"
  have al: "alloc_ok c4" using assms(5) s(5) by (simp add: c4_def c2_def alloc_ok_def)
  have nk: "\<not> has_key (mqtt_ack_handler_list c4) (pub_ack ?qos, ?id)" using assms(13) f by (simp add: c4_def)
  have rec: "mqtt_ack_list_record c4 (pub_ack ?qos) ?id ?plen None = Some (MQTT_SUCCESS_ERROR, ?c5)"
    using record_eq [OF fit(1), of "pub_ack ?qos" ?id None] al nk by (simp add: has_key_def)
  have ok5: "client_ok ?c5"
  proof -
    have "client_ok (add_ack (c4\<lparr>allocs := tl (allocs c4)\<rparr>) (new_ack (c4\<lparr>allocs := tl (allocs c4)\<rparr>) (pub_ack ?qos) ?id ?plen None))"
      using nk fit(2) ok4 by (intro client_ok_add_pub) (auto simp: pub_ack_def)
    then show ?thesis by (simp add: new_ack_def)
  qed
  have pay: "ah_payload ?a = take (length (pk 1) mod 65536) (pk 1)"
  proof -
    have "take (length (pk 0) mod 65536) wb = take (length (pk 0) mod 65536) (take (length (pk 0)) wb)"
      by (simp add: min_def)
    then show ?thesis using wb(3) len [of 1] by (simp add: unat_of_nat c4_def buf_bytes_def)
  qed
  have "publish_locked (c\<lparr>mqtt_write_lock := True\<rparr>) (Some ts) msg = Some (MQTT_SUCCESS_ERROR, msg\<lparr>msg_id := ?id\<rparr>, ?c5)"
  proof -
    have mx: "\<not> mqtt_ack_handler_is_maximum (c\<lparr>mqtt_write_lock := True\<rparr>)" using assms(8) by (simp add: mqtt_ack_handler_is_maximum_def)
    show ?thesis
      using assms(7,9) mx s(1,2,7) sm pos rec wb(1)
      by (auto simp: publish_locked_def next_id_eq c2_def [symmetric] c4_def [symmetric] pub_ack_def QOS0_def QOS1_def QOS2_def)
  qed
  moreover have "msg_payloadlen msg \<le> unat (mqtt_write_buf_size c)"
  proof -
    have "length ps = msg_payloadlen msg"
      using assms(11) by (auto simp: deref_block_def dest: rd_block_length split: option.splits prod.splits if_splits)
    with assms(12) show ?thesis by (simp add: publish_rem_def MQTTPacket_len_def split: if_splits)
  qed
  ultimately have "mqtt_publish c (Some ts) msg = Some (MQTT_SUCCESS_ERROR, msg\<lparr>msg_id := ?id, msg_payloadlen := 0\<rparr>, unlock_write ?c5)"
    using assms(2,3,9,10) by (simp add: mqtt_publish_def mqtt_get_client_state_def lock_write_def mqtt_errors split: prod.split)
  moreover have "smooth (unlock_write ?c5)" using s(7) sm by (simp add: smooth_def unlock_write_def c4_def)
  ultimately show ?thesis
    using ok5 pay f s(5,7) sm assms(2,6)
    by (intro exI [of _ "unlock_write ?c5"] exI [of _ ?a]) (simp add: unlock_write_def add_ack_def c4_def c2_def)
qed

declare msg_code.simps [simp del]

section \<open>Packets that arrive\<close>

text \<open>A packet stands in the read buffer and is dispatched, as \<open>mqtt_packet_handle\<close> does.\<close>

definition arrive :: "bool \<Rightarrow> bytes \<Rightarrow> mqtt_client \<Rightarrow> (int \<times> mqtt_client) option" where
  "arrive sgnd buf c =
     do {
       header \<leftarrow> rd buf 0;
       (rc, _, c) \<leftarrow> dispatch sgnd (hdr_type header) (cmd_timer c) (c\<lparr>mqtt_read_buf := Some buf\<rparr>);
       Some (rc, c)
     }"

text \<open>A connected client in a kind environment, and what a step leaves alone.\<close>

definition calm :: "mqtt_client \<Rightarrow> bool" where
  "calm c \<longleftrightarrow> client_ok c \<and> mqtt_client_state c = CLIENT_STATE_CONNECTED \<and> \<not> mqtt_write_lock c \<and> smooth c \<and> allocs c = []"

definition follows :: "mqtt_client \<Rightarrow> mqtt_client \<Rightarrow> bool" where
  "follows c c' \<longleftrightarrow> calm c' \<and> mqtt_network c' = mqtt_network c \<and> mqtt_read_buf_size c' = mqtt_read_buf_size c \<and>
     mqtt_write_buf_size c' = mqtt_write_buf_size c \<and> mqtt_packet_id c' = mqtt_packet_id c \<and>
     handlers c' = handlers c \<and> mqtt_msg_handler_list c' = mqtt_msg_handler_list c \<and>
     mqtt_interceptor_handler c' = mqtt_interceptor_handler c \<and> delivered c' = delivered c"

lemma calmD: "calm c \<Longrightarrow> client_ok c" "calm c \<Longrightarrow> mqtt_client_state c = CLIENT_STATE_CONNECTED"
  "calm c \<Longrightarrow> \<not> mqtt_write_lock c" "calm c \<Longrightarrow> smooth c" "calm c \<Longrightarrow> allocs c = []" "calm c \<Longrightarrow> alloc_ok c"
  by (simp_all add: calm_def alloc_ok_def)

lemma calm_connected: "calm c \<Longrightarrow> mqtt_is_connected c = MQTT_SUCCESS_ERROR"
  by (simp add: calm_def mqtt_is_connected_def mqtt_get_client_state_def)

lemma calm_read:
  assumes "calm c" "length buf = unat (mqtt_read_buf_size c)"
  shows "calm (c\<lparr>mqtt_read_buf := Some buf\<rparr>)"
  using assms client_ok_read [of c buf] by (simp add: calm_def smooth_def)

lemma followsD: "follows c c' \<Longrightarrow> calm c'" "follows c c' \<Longrightarrow> mqtt_network c' = mqtt_network c"
  "follows c c' \<Longrightarrow> mqtt_read_buf_size c' = mqtt_read_buf_size c" "follows c c' \<Longrightarrow> mqtt_packet_id c' = mqtt_packet_id c"
  by (simp_all add: follows_def)

lemma follows_trans: "follows a b \<Longrightarrow> follows b c \<Longrightarrow> follows a c"
  by (simp add: follows_def)

text \<open>The answer to PUBREC: a PUBREL and a record that waits for PUBCOMP.\<close>

lemma pubrec_answer:
  assumes "calm c" "mqtt_network c = Some n" "\<not> has_key (mqtt_ack_handler_list c) (PUBCOMP, pid)"
  shows "\<exists>c' a. mqtt_publish_ack_packet c pid (msg_code PUBREC) = Some (MQTT_SUCCESS_ERROR, c') \<and> follows c c' \<and>
    mqtt_read_buf c' = mqtt_read_buf c \<and>
    mqtt_ack_handler_list c' = mqtt_ack_handler_list c @ [a] \<and> ack_key a = (PUBCOMP, pid) \<and>
    ah_payload a = ack_packet PUBREL 0 pid \<and> wire c' = wire c @ [(net_socket n, ack_packet PUBREL 0 pid)]"
proof -
  let ?c1 = "c\<lparr>mqtt_write_lock := True\<rparr>"
  note r = calmD [OF assms(1)]
  obtain wb where wb: "serialize_into ?c1 (\<lambda>buf n. MQTTSerialize_ack buf n PUBREL 0 pid) =
      Some (4, ?c1\<lparr>mqtt_write_buf := Some (ack_packet PUBREL 0 pid @ wb)\<rparr>)"
      "client_ok (?c1\<lparr>mqtt_write_buf := Some (ack_packet PUBREL 0 pid @ wb)\<rparr>)"
      "length (ack_packet PUBREL 0 pid @ wb) = unat (mqtt_write_buf_size ?c1)"
    using serialize_ack_into [of ?c1 PUBREL 0 pid] r(1) by auto
  define c2 where "c2 = ?c1\<lparr>mqtt_write_buf := Some (ack_packet PUBREL 0 pid @ wb)\<rparr>"
  let ?a = "new_ack c2 PUBCOMP pid 4 None"
  let ?c3 = "add_ack c2 ?a"
  have c2: "client_ok c2" "allocs c2 = []" "\<not> has_key (mqtt_ack_handler_list c2) (PUBCOMP, pid)" "smooth c2"
    using wb(2) r assms(3) by (simp_all add: c2_def smooth_def)
  have sz: "unat (4 :: u16) \<le> length (buf_bytes (mqtt_write_buf c2))" "unat (4 :: u16) \<le> unat (mqtt_write_buf_size c2)"
    using client_ok_wbuf [OF c2(1)] by (auto simp: buf_bytes_def)
  have "c2\<lparr>allocs := []\<rparr> = c2" using c2(2) by (cases c2) simp
  with c2 record_eq [OF sz(1), of PUBCOMP pid None]
  have rec: "mqtt_ack_list_record c2 PUBCOMP pid 4 None = Some (MQTT_SUCCESS_ERROR, ?c3)"
    by (simp add: alloc_ok_def has_key_def)
  have ok3: "client_ok ?c3" using c2 sz(2) by (intro client_ok_add_pub) auto
  have net: "mqtt_network ?c3 = Some n" using assms(2) by (simp add: c2_def)
  have pay: "take 4 (buf_bytes (mqtt_write_buf ?c3)) = ack_packet PUBREL 0 pid" by (simp add: c2_def buf_bytes_def)
  obtain rc c4 where s: "send_ack ?c3 4 = Some (rc, c4)" "client_ok c4" "same ?c3 c4" "allocs c4 = []"
      "rc = MQTT_SUCCESS_ERROR" "smooth c4" "wire c4 = wire c @ [(net_socket n, ack_packet PUBREL 0 pid)]"
    using send_ack_ok [OF ok3 net pay] c2 by (auto simp: smooth_def add_ack_def c2_def)
  note f = same_fields [OF s(3), simplified]
  have "mqtt_publish_ack_packet c pid (msg_code PUBREC) = Some (MQTT_SUCCESS_ERROR, unlock_write c4)"
    using r(3) wb(1) rec s(1,5) by (simp add: mqtt_publish_ack_packet_def lock_write_def c2_def)
  moreover have "follows c (unlock_write c4)"
    using s(2,4,6) f r(2) by (simp add: follows_def calm_def unlock_write_def smooth_def c2_def add_ack_def)
  moreover have "ah_payload ?a = ack_packet PUBREL 0 pid" by (simp add: c2_def buf_bytes_def)
  ultimately show ?thesis
    using f s(7) by (intro exI [of _ "unlock_write c4"] exI [of _ ?a]) (simp add: unlock_write_def c2_def)
qed

lemma remove_absent: "\<not> has_key as k \<Longrightarrow> remove_key k as = as"
  by (induction as) (auto simp: has_key_def remove_key_def)

lemma remove_last: "\<not> has_key as k \<Longrightarrow> ack_key a = k \<Longrightarrow> remove_key k (as @ [a]) = as"
  using remove_absent [of as k] by (simp add: remove_key_def)

lemma unrecord_follows:
  assumes "calm c" "is_pub_ack t"
  shows "\<exists>h c'. mqtt_ack_list_unrecord c (msg_code t) pid = (h, c') \<and> follows c c' \<and> wire c' = wire c \<and>
    mqtt_ack_handler_list c' = remove_key (t, pid) (mqtt_ack_handler_list c)"
proof -
  obtain h c' where u: "mqtt_ack_list_unrecord c (msg_code t) pid = (h, c')" "client_ok c'"
      "mqtt_ack_handler_list c' = remove_key (t, pid) (mqtt_ack_handler_list c)"
      "c' = c \<or> (\<exists>kept rest. c' = drop_ack kept rest c)"
    using unrecord_pub [OF calmD(1) [OF assms(1)] assms(2)] by blast
  have "follows c c' \<and> wire c' = wire c"
    using u(4,2) assms(1) by (auto simp: follows_def calm_def smooth_def drop_ack_def)
  with u show ?thesis by blast
qed

lemma pubrec_arrives:
  assumes "calm c" "mqtt_network c = Some n" "\<not> has_key (mqtt_ack_handler_list c) (PUBCOMP, pid)"
    and "length (ack_packet PUBREC d pid @ post) = unat (mqtt_read_buf_size c)"
  shows "\<exists>c' a. arrive sgnd (ack_packet PUBREC d pid @ post) c = Some (MQTT_SUCCESS_ERROR, c') \<and> follows c c' \<and>
    mqtt_ack_handler_list c' = remove_key (PUBREC, pid) (mqtt_ack_handler_list c) @ [a] \<and>
    ack_key a = (PUBCOMP, pid) \<and> ah_payload a = ack_packet PUBREL 0 pid \<and>
    wire c' = wire c @ [(net_socket n, ack_packet PUBREL 0 pid)]"
proof -
  define c0 where "c0 = c\<lparr>mqtt_read_buf := Some (ack_packet PUBREC d pid @ post)\<rparr>"
  have c0: "calm c0" "follows c c0" "mqtt_network c0 = Some n" "mqtt_ack_handler_list c0 = mqtt_ack_handler_list c"
      "wire c0 = wire c"
    using calm_read [OF assms(1,4)] assms(2) by (simp_all add: c0_def follows_def)
  obtain c1 a where a: "mqtt_publish_ack_packet c0 pid (msg_code PUBREC) = Some (MQTT_SUCCESS_ERROR, c1)" "follows c0 c1"
      "mqtt_ack_handler_list c1 = mqtt_ack_handler_list c @ [a]" "ack_key a = (PUBCOMP, pid)"
      "ah_payload a = ack_packet PUBREL 0 pid" "wire c1 = wire c @ [(net_socket n, ack_packet PUBREL 0 pid)]"
    using pubrec_answer [OF c0(1,3), of pid] assms(3) c0(4,5) by auto
  obtain h c2 where u: "mqtt_ack_list_unrecord c1 (msg_code PUBREC) pid = (h, c2)" "follows c1 c2" "wire c2 = wire c1"
      "mqtt_ack_handler_list c2 = remove_key (PUBREC, pid) (mqtt_ack_handler_list c1)"
    using unrecord_follows [OF followsD(1) [OF a(2)], of PUBREC pid] by (auto simp: is_pub_ack_def)
  have dec: "MQTTDeserialize_ack (ack_out_uninit c0) (read_bytes c0) k =
      Some (1, \<lparr>ao_packettype = msg_code PUBREC, ao_dup = take_bit 1 d, ao_packetid = pid\<rparr>)" for k
    by (rule decode_ack_buf) (simp add: c0_def)
  have "mqtt_pubrec_and_pubrel_packet_handle c0 = Some (MQTT_SUCCESS_ERROR, c2)"
    using calm_connected [OF c0(1)] dec a(1) u(1)
    by (simp add: mqtt_pubrec_and_pubrel_packet_handle_def Let_def)
  then have "arrive sgnd (ack_packet PUBREC d pid @ post) c = Some (MQTT_SUCCESS_ERROR, c2)"
    by (simp add: arrive_def c0_def [symmetric] with_timer_def)
  moreover have "remove_key (PUBREC, pid) [a] = [a]" using a(4) by (simp add: remove_key_def)
  ultimately show ?thesis
    using a u follows_trans [OF c0(2) follows_trans [OF a(2) u(2)]]
    by (intro exI [of _ c2] exI [of _ a]) (simp add: remove_key_def)
qed

lemma ack_arrives:
  assumes "calm c" "t = PUBACK \<or> t = PUBCOMP"
    and "length (ack_packet t d pid @ post) = unat (mqtt_read_buf_size c)"
  shows "\<exists>c'. arrive sgnd (ack_packet t d pid @ post) c = Some (MQTT_SUCCESS_ERROR, c') \<and> follows c c' \<and>
    mqtt_ack_handler_list c' = remove_key (t, pid) (mqtt_ack_handler_list c) \<and> wire c' = wire c"
proof -
  define c0 where "c0 = c\<lparr>mqtt_read_buf := Some (ack_packet t d pid @ post)\<rparr>"
  have c0: "calm c0" "follows c c0" "mqtt_ack_handler_list c0 = mqtt_ack_handler_list c" "wire c0 = wire c"
    using calm_read [OF assms(1,3)] by (simp_all add: c0_def follows_def)
  obtain h c2 where u: "mqtt_ack_list_unrecord c0 (msg_code t) pid = (h, c2)" "follows c0 c2" "wire c2 = wire c0"
      "mqtt_ack_handler_list c2 = remove_key (t, pid) (mqtt_ack_handler_list c0)"
    using unrecord_follows [OF c0(1), of t pid] assms(2) by (auto simp: is_pub_ack_def)
  have dec: "MQTTDeserialize_ack (ack_out_uninit c0) (read_bytes c0) k =
      Some (1, \<lparr>ao_packettype = msg_code t, ao_dup = take_bit 1 d, ao_packetid = pid\<rparr>)" for k
    by (rule decode_ack_buf) (simp add: c0_def)
  have "mqtt_puback_and_pubcomp_packet_handle c0 = Some (MQTT_SUCCESS_ERROR, c2)"
    using calm_connected [OF c0(1)] dec u(1) by (simp add: mqtt_puback_and_pubcomp_packet_handle_def Let_def)
  then have "arrive sgnd (ack_packet t d pid @ post) c = Some (MQTT_SUCCESS_ERROR, c2)"
    using assms(2) by (auto simp: arrive_def c0_def [symmetric] with_timer_def)
  then show ?thesis using u c0 follows_trans [OF c0(2) u(2)] by auto
qed

text \<open>A PUBREC whose PUBREL is already out is not answered again.\<close>

lemma pubrec_again:
  assumes "calm c" "has_key (mqtt_ack_handler_list c) (PUBCOMP, pid)" "\<not> has_key (mqtt_ack_handler_list c) (PUBREC, pid)"
    and "length (ack_packet PUBREC d pid @ post) = unat (mqtt_read_buf_size c)"
  shows "\<exists>c'. arrive sgnd (ack_packet PUBREC d pid @ post) c = Some (MQTT_SUCCESS_ERROR, c') \<and> follows c c' \<and>
    mqtt_ack_handler_list c' = mqtt_ack_handler_list c \<and> wire c' = wire c"
proof -
  define c0 where "c0 = c\<lparr>mqtt_read_buf := Some (ack_packet PUBREC d pid @ post)\<rparr>"
  have c0: "calm c0" "follows c c0" "mqtt_ack_handler_list c0 = mqtt_ack_handler_list c" "wire c0 = wire c"
    using calm_read [OF assms(1,4)] by (simp_all add: c0_def follows_def)
  note r = calmD [OF c0(1)]
  obtain wb where wb: "serialize_into (c0\<lparr>mqtt_write_lock := True\<rparr>) (\<lambda>buf n. MQTTSerialize_ack buf n PUBREL 0 pid) =
      Some (4, c0\<lparr>mqtt_write_lock := True, mqtt_write_buf := Some (ack_packet PUBREL 0 pid @ wb)\<rparr>)"
      "client_ok (c0\<lparr>mqtt_write_lock := True, mqtt_write_buf := Some (ack_packet PUBREL 0 pid @ wb)\<rparr>)"
    using serialize_ack_into [of "c0\<lparr>mqtt_write_lock := True\<rparr>" PUBREL 0 pid] r(1) by auto
  define c1 where "c1 = c0\<lparr>mqtt_write_lock := True, mqtt_write_buf := Some (ack_packet PUBREL 0 pid @ wb)\<rparr>"
  have sz: "unat (4 :: u16) \<le> length (buf_bytes (mqtt_write_buf c1))"
    by (simp add: c1_def buf_bytes_def)
  have rec: "mqtt_ack_list_record c1 PUBCOMP pid 4 None = Some (MQTT_ACK_NODE_IS_EXIST_ERROR, c1)"
    using record_eq [OF sz, of PUBCOMP pid None] assms(2) c0(3) by (simp add: c1_def has_key_def)
  let ?c2 = "unlock_write c1"
  have pa: "mqtt_publish_ack_packet c0 pid (msg_code PUBREC) = Some (MQTT_ACK_NODE_IS_EXIST_ERROR, ?c2)"
    using r(3) wb(1) rec by (simp add: mqtt_publish_ack_packet_def lock_write_def c1_def mqtt_errors)
  have f2: "follows c0 ?c2" "mqtt_ack_handler_list ?c2 = mqtt_ack_handler_list c" "wire ?c2 = wire c"
    using client_ok_unlock(1) [of c1] wb(2) c0 r by (simp_all add: follows_def calm_def unlock_write_def smooth_def c1_def)
  obtain h c3 where u: "mqtt_ack_list_unrecord ?c2 (msg_code PUBREC) pid = (h, c3)" "follows ?c2 c3" "wire c3 = wire ?c2"
      "mqtt_ack_handler_list c3 = remove_key (PUBREC, pid) (mqtt_ack_handler_list ?c2)"
    using unrecord_follows [OF followsD(1) [OF f2(1)], of PUBREC pid] by (auto simp: is_pub_ack_def)
  have dec: "MQTTDeserialize_ack (ack_out_uninit c0) (read_bytes c0) k =
      Some (1, \<lparr>ao_packettype = msg_code PUBREC, ao_dup = take_bit 1 d, ao_packetid = pid\<rparr>)" for k
    by (rule decode_ack_buf) (simp add: c0_def)
  have "mqtt_pubrec_and_pubrel_packet_handle c0 = Some (MQTT_SUCCESS_ERROR, c3)"
    using calm_connected [OF c0(1)] dec pa u(1) by (simp add: mqtt_pubrec_and_pubrel_packet_handle_def Let_def)
  then have "arrive sgnd (ack_packet PUBREC d pid @ post) c = Some (MQTT_SUCCESS_ERROR, c3)"
    by (simp add: arrive_def c0_def [symmetric] with_timer_def)
  then show ?thesis
    using u f2 remove_absent [OF assms(3)] follows_trans [OF c0(2) follows_trans [OF f2(1) u(2)]] by auto
qed

section \<open>A publication from the call to its last acknowledgement\<close>

text \<open>What a publication with quality of service 1 or 2 asks of the client.\<close>

definition may_publish :: "mqtt_client \<Rightarrow> bytes \<Rightarrow> mqtt_message \<Rightarrow> bytes \<Rightarrow> bool" where
  "may_publish c ts msg ps \<longleftrightarrow> calm c \<and> \<not> mqtt_ack_handler_is_maximum c \<and> ps \<noteq> [] \<and>
     (\<exists>pl. msg_payload msg = Some pl \<and> deref_block (Some pl) (msg_payloadlen msg) = Some ps) \<and>
     MQTTPacket_len (publish_rem (msg_qos msg) ts ps) \<le> unat (mqtt_write_buf_size c)"

lemma may_publish_ok:
  assumes "may_publish c ts msg ps" "mqtt_network c = Some n" "msg_qos msg = QOS1 \<or> msg_qos msg = QOS2"
    and "\<not> has_key (mqtt_ack_handler_list c) (pub_ack (msg_qos msg), next_id c)"
  defines "pk d \<equiv> publish_packet d (msg_qos msg) (msg_retained msg) (next_id c) ts ps"
  shows "\<exists>c' a. mqtt_publish c (Some ts) msg = Some (MQTT_SUCCESS_ERROR, msg\<lparr>msg_id := next_id c, msg_payloadlen := 0\<rparr>, c') \<and>
    calm c' \<and> mqtt_network c' = Some n \<and> mqtt_read_buf_size c' = mqtt_read_buf_size c \<and>
    wire c' = wire c @ [(net_socket n, pk 0)] \<and>
    mqtt_ack_handler_list c' = mqtt_ack_handler_list c @ [a] \<and> ack_key a = (pub_ack (msg_qos msg), next_id c) \<and>
    ah_payload a = take (length (pk 1) mod 65536) (pk 1)"
proof -
  obtain pl where pl: "msg_payload msg = Some pl" "deref_block (Some pl) (msg_payloadlen msg) = Some ps"
    using assms(1) by (auto simp: may_publish_def)
  have c: "calm c" "\<not> mqtt_ack_handler_is_maximum c"
      "MQTTPacket_len (publish_rem (msg_qos msg) ts ps) \<le> unat (mqtt_write_buf_size c)"
    using assms(1) by (simp_all add: may_publish_def)
  have "msg_payloadlen msg \<noteq> 0"
    using pl(2) assms(1) by (auto simp: may_publish_def deref_block_def rd_block_def split: option.splits prod.splits if_splits)
  from publish_ok [OF calmD(1-4,6) [OF c(1)] assms(2,3) c(2) pl(1) this pl(2) c(3) assms(4)] calmD(5) [OF c(1)]
  show ?thesis unfolding pk_def calm_def by auto
qed

text \<open>A client for the witnesses, with a message.\<close>

definition sample_message :: mqtt_message where
  "sample_message = \<lparr>msg_qos = 1, msg_retained = 0, msg_dup = 0, msg_id = 0, msg_payloadlen = 2,
     msg_payload = Some ([104, 105], 0)\<rparr>"

lemma sample_session_calm: "calm sample_session"
  by (simp add: calm_def sample_session_ok sample_session_simps smooth_def)
    (simp add: sample_session_def sample_client_def client_zero_def world.defs mqtt_client.defs sample_world_def)

lemma sample_may_publish: "may_publish sample_session [97] (sample_message\<lparr>msg_qos := q\<rparr>) [104, 105]"
  if "q = 1 \<or> q = 2"
proof -
  have "\<not> mqtt_ack_handler_is_maximum sample_session" by code_simp
  with that show ?thesis
    by (auto simp: may_publish_def sample_session_calm sample_session_simps sample_message_def publish_rem_def
        MQTTPacket_len_def deref_block_def rd_block_def QOS0_def)
qed

text \<open>\<^bold>\<open>Property C6 (qos1_publish_completes).\<close> A QoS 1 publication goes out with the duplicate flag clear under the
  next packet identifier; a copy with the flag set is kept, cut to the length modulo 65536 the record can
  hold; and the PUBACK with that identifier removes exactly this record.\<close>

theorem qos1_publish_completes:
  assumes "may_publish c ts msg ps" "mqtt_network c = Some n" "msg_qos msg = QOS1"
    and "\<not> has_key (mqtt_ack_handler_list c) (PUBACK, next_id c)"
    and "length (ack_packet PUBACK 0 (next_id c) @ post) = unat (mqtt_read_buf_size c)"
  shows "\<exists>msg' c1 a c2. mqtt_publish c (Some ts) msg = Some (MQTT_SUCCESS_ERROR, msg', c1) \<and>
    wire c1 = wire c @ [(net_socket n, publish_packet 0 QOS1 (msg_retained msg) (next_id c) ts ps)] \<and>
    mqtt_ack_handler_list c1 = mqtt_ack_handler_list c @ [a] \<and> ack_key a = (PUBACK, next_id c) \<and>
    (let pk = publish_packet 1 QOS1 (msg_retained msg) (next_id c) ts ps
     in ah_payload a = take (length pk mod 65536) pk) \<and>
    arrive sgnd (ack_packet PUBACK 0 (next_id c) @ post) c1 = Some (MQTT_SUCCESS_ERROR, c2) \<and>
    mqtt_ack_handler_list c2 = mqtt_ack_handler_list c \<and> wire c2 = wire c1"
proof -
  have t: "pub_ack (msg_qos msg) = PUBACK" using assms(3) by (simp add: pub_ack_def)
  obtain c1 a where p: "mqtt_publish c (Some ts) msg = Some (MQTT_SUCCESS_ERROR, msg\<lparr>msg_id := next_id c, msg_payloadlen := 0\<rparr>, c1)"
      "calm c1" "mqtt_read_buf_size c1 = mqtt_read_buf_size c"
      "wire c1 = wire c @ [(net_socket n, publish_packet 0 QOS1 (msg_retained msg) (next_id c) ts ps)]"
      "mqtt_ack_handler_list c1 = mqtt_ack_handler_list c @ [a]" "ack_key a = (PUBACK, next_id c)"
      "ah_payload a = take (length (publish_packet 1 QOS1 (msg_retained msg) (next_id c) ts ps) mod 65536)
         (publish_packet 1 QOS1 (msg_retained msg) (next_id c) ts ps)"
    using may_publish_ok [OF assms(1,2)] assms(3,4) t by auto
  obtain c2 where "arrive sgnd (ack_packet PUBACK 0 (next_id c) @ post) c1 = Some (MQTT_SUCCESS_ERROR, c2)"
      "mqtt_ack_handler_list c2 = remove_key (PUBACK, next_id c) (mqtt_ack_handler_list c1)" "wire c2 = wire c1"
    using ack_arrives [OF p(2), of PUBACK 0 "next_id c" post sgnd] assms(5) p(3) by auto
  with p remove_last [OF assms(4) p(6)] show ?thesis by (auto simp: Let_def)
qed

theorem qos1_publish_completes_witness:
  "\<exists>msg' c1 a c2. mqtt_publish sample_session (Some [97]) (sample_message\<lparr>msg_qos := 1\<rparr>) = Some (MQTT_SUCCESS_ERROR, msg', c1) \<and>
    wire c1 = wire sample_session @ [(5, publish_packet 0 QOS1 0 1 [97] [104, 105])] \<and>
    mqtt_ack_handler_list c1 = mqtt_ack_handler_list sample_session @ [a] \<and> ack_key a = (PUBACK, 1) \<and>
    (let pk = publish_packet 1 QOS1 0 1 [97] [104, 105] in ah_payload a = take (length pk mod 65536) pk) \<and>
    arrive False (ack_packet PUBACK 0 1 @ [0, 0, 0, 0]) c1 = Some (MQTT_SUCCESS_ERROR, c2) \<and>
    mqtt_ack_handler_list c2 = mqtt_ack_handler_list sample_session \<and> wire c2 = wire c1"
proof -
  have id: "next_id sample_session = 1" by code_simp
  have "\<not> has_key (mqtt_ack_handler_list sample_session) (PUBACK, next_id sample_session)"
    "length (ack_packet PUBACK 0 (next_id sample_session) @ [0, 0, 0, 0]) = unat (mqtt_read_buf_size sample_session)"
    "msg_qos (sample_message\<lparr>msg_qos := 1\<rparr>) = QOS1"
    by code_simp+
  from qos1_publish_completes [OF sample_may_publish sample_session_simps(1) this(3,1,2), of False]
  show ?thesis by (simp add: id sample_message_def network_zero_def)
qed

text \<open>\<^bold>\<open>Property C5 (qos2_publish_completes).\<close> A QoS 2 publication: after PUBREC the client sends PUBREL and waits for PUBCOMP
  in place of PUBREC, a repeated PUBREC changes and sends nothing, and after PUBCOMP no record of the message is
  left and every other record is as it was.\<close>

theorem qos2_publish_completes:
  assumes "may_publish c ts msg ps" "mqtt_network c = Some n" "msg_qos msg = QOS2"
    and "\<not> has_key (mqtt_ack_handler_list c) (PUBREC, next_id c)" "\<not> has_key (mqtt_ack_handler_list c) (PUBCOMP, next_id c)"
    and "Suc (Suc (Suc (Suc (length post)))) = unat (mqtt_read_buf_size c)"
  defines "pubrec \<equiv> ack_packet PUBREC 0 (next_id c) @ post" and "pubcomp \<equiv> ack_packet PUBCOMP 0 (next_id c) @ post"
  shows "\<exists>msg' c1 c2 c3 c4 a b. mqtt_publish c (Some ts) msg = Some (MQTT_SUCCESS_ERROR, msg', c1) \<and>
    arrive sgnd pubrec c1 = Some (MQTT_SUCCESS_ERROR, c2) \<and> arrive sgnd pubrec c2 = Some (MQTT_SUCCESS_ERROR, c3) \<and>
    arrive sgnd pubcomp c3 = Some (MQTT_SUCCESS_ERROR, c4) \<and>
    mqtt_ack_handler_list c1 = mqtt_ack_handler_list c @ [a] \<and> ack_key a = (PUBREC, next_id c) \<and>
    mqtt_ack_handler_list c2 = mqtt_ack_handler_list c @ [b] \<and> ack_key b = (PUBCOMP, next_id c) \<and>
    ah_payload b = ack_packet PUBREL 0 (next_id c) \<and>
    mqtt_ack_handler_list c3 = mqtt_ack_handler_list c2 \<and> mqtt_ack_handler_list c4 = mqtt_ack_handler_list c \<and>
    wire c4 = wire c @ [(net_socket n, publish_packet 0 QOS2 (msg_retained msg) (next_id c) ts ps),
      (net_socket n, ack_packet PUBREL 0 (next_id c))]"
proof -
  have t: "pub_ack (msg_qos msg) = PUBREC" using assms(3) by (simp add: pub_ack_def QOS1_def QOS2_def)
  obtain c1 a where p: "mqtt_publish c (Some ts) msg = Some (MQTT_SUCCESS_ERROR, msg\<lparr>msg_id := next_id c, msg_payloadlen := 0\<rparr>, c1)"
      "calm c1" "mqtt_network c1 = Some n" "mqtt_read_buf_size c1 = mqtt_read_buf_size c"
      "wire c1 = wire c @ [(net_socket n, publish_packet 0 QOS2 (msg_retained msg) (next_id c) ts ps)]"
      "mqtt_ack_handler_list c1 = mqtt_ack_handler_list c @ [a]" "ack_key a = (PUBREC, next_id c)"
    using may_publish_ok [OF assms(1,2)] assms(3,4) t by auto
  have "\<not> has_key (mqtt_ack_handler_list c1) (PUBCOMP, next_id c)" using assms(5) p(6,7) by (auto simp: has_key_def)
  from pubrec_arrives [OF p(2,3) this, of 0 post sgnd] remove_last [OF assms(4) p(7)] p(4,6) assms(6)
  obtain c2 b where q: "arrive sgnd pubrec c1 = Some (MQTT_SUCCESS_ERROR, c2)" "follows c1 c2"
      "mqtt_ack_handler_list c2 = mqtt_ack_handler_list c @ [b]" "ack_key b = (PUBCOMP, next_id c)"
      "ah_payload b = ack_packet PUBREL 0 (next_id c)" "wire c2 = wire c1 @ [(net_socket n, ack_packet PUBREL 0 (next_id c))]"
    by (auto simp: pubrec_def)
  have key: "has_key (mqtt_ack_handler_list c2) (PUBCOMP, next_id c)" "\<not> has_key (mqtt_ack_handler_list c2) (PUBREC, next_id c)"
    using q(3,4) assms(4) by (auto simp: has_key_def)
  obtain c3 where r: "arrive sgnd pubrec c2 = Some (MQTT_SUCCESS_ERROR, c3)" "follows c2 c3"
      "mqtt_ack_handler_list c3 = mqtt_ack_handler_list c2" "wire c3 = wire c2"
    using pubrec_again [OF followsD(1) [OF q(2)] key, of 0 post sgnd] followsD(3) [OF q(2)] p(4) assms(6)
    by (auto simp: pubrec_def)
  obtain c4 where "arrive sgnd pubcomp c3 = Some (MQTT_SUCCESS_ERROR, c4)" "wire c4 = wire c3"
      "mqtt_ack_handler_list c4 = remove_key (PUBCOMP, next_id c) (mqtt_ack_handler_list c3)"
    using ack_arrives [OF followsD(1) [OF r(2)], of PUBCOMP 0 "next_id c" post sgnd] followsD(3) [OF q(2)]
      followsD(3) [OF r(2)] p(4) assms(6) by (auto simp: pubcomp_def)
  with p q r remove_last [OF assms(5) q(4)] show ?thesis
    by (intro exI [of _ "msg\<lparr>msg_id := next_id c, msg_payloadlen := 0\<rparr>"] exI [of _ c1] exI [of _ c2] exI [of _ c3]
        exI [of _ c4] exI [of _ a] exI [of _ b]) simp
qed

theorem qos2_publish_completes_witness:
  "\<exists>msg' c1 c2 c3 c4 a b. mqtt_publish sample_session (Some [97]) (sample_message\<lparr>msg_qos := 2\<rparr>) = Some (MQTT_SUCCESS_ERROR, msg', c1) \<and>
    arrive False (ack_packet PUBREC 0 1 @ [0, 0, 0, 0]) c1 = Some (MQTT_SUCCESS_ERROR, c2) \<and>
    arrive False (ack_packet PUBREC 0 1 @ [0, 0, 0, 0]) c2 = Some (MQTT_SUCCESS_ERROR, c3) \<and>
    arrive False (ack_packet PUBCOMP 0 1 @ [0, 0, 0, 0]) c3 = Some (MQTT_SUCCESS_ERROR, c4) \<and>
    mqtt_ack_handler_list c1 = mqtt_ack_handler_list sample_session @ [a] \<and> ack_key a = (PUBREC, 1) \<and>
    mqtt_ack_handler_list c2 = mqtt_ack_handler_list sample_session @ [b] \<and> ack_key b = (PUBCOMP, 1) \<and>
    ah_payload b = ack_packet PUBREL 0 1 \<and>
    mqtt_ack_handler_list c3 = mqtt_ack_handler_list c2 \<and>
    mqtt_ack_handler_list c4 = mqtt_ack_handler_list sample_session \<and>
    wire c4 = wire sample_session @ [(5, publish_packet 0 QOS2 0 1 [97] [104, 105]), (5, ack_packet PUBREL 0 1)]"
proof -
  have id: "next_id sample_session = 1" by code_simp
  have "\<not> has_key (mqtt_ack_handler_list sample_session) (PUBREC, next_id sample_session)"
    "\<not> has_key (mqtt_ack_handler_list sample_session) (PUBCOMP, next_id sample_session)"
    "Suc (Suc (Suc (Suc (length [0 :: u8, 0, 0, 0])))) = unat (mqtt_read_buf_size sample_session)"
    "msg_qos (sample_message\<lparr>msg_qos := 2\<rparr>) = QOS2"
    by code_simp+
  from qos2_publish_completes [OF sample_may_publish sample_session_simps(1) this(4,1,2,3), of False]
  show ?thesis by (simp add: id sample_message_def network_zero_def)
qed

end
