(* ===== verification/Client_Subscription.thy ===== *)
theory Client_Subscription
  imports Client_Protocol
begin

text \<open>
  A subscription from the request over the SUBACK to the delivery of a message, and its end: the
  unsubscribe request, the UNSUBACK, and what a second or an unexpected UNSUBACK does.
\<close>

section \<open>Topic names and filters\<close>

definition name_str :: "bytes \<Rightarrow> MQTTString" where
  "name_str ts = \<lparr>cstring = None, lenstring_len = length ts, lenstring_data = Some (ts, 0)\<rparr>"

text \<open>Whether a filter takes a topic name.\<close>

definition filter_takes :: "bytes \<Rightarrow> bytes \<Rightarrow> bool" where
  "filter_takes f ts \<longleftrightarrow> f = ts \<or> mqtt_topic_is_matched f (name_str ts) = Some True"

lemma accepts_name:
  assumes "cstring t = None" "lenstring_len t = length ts" "deref_block (lenstring_data t) (length ts) = Some ts"
  shows "accepts t f \<longleftrightarrow> filter_takes f ts"
proof -
  have "deref_block (Some (ts, 0)) (length ts) = Some ts"
    by (cases ts) (simp_all add: deref_block_def rd_block_def)
  with assms show ?thesis
    by (auto simp: accepts_def filter_takes_def name_str_def MQTTPacket_equals_def mqtt_topic_is_matched_def)
qed

section \<open>The request\<close>

lemma serialize_subscribe_one:
  assumes "MQTTPacket_len (length (subscribe_body pid [(f, q)])) \<le> size_buf" "size_buf < 268435455" "length buf = size_buf"
  defines "pk \<equiv> subscribe_packet 0 pid [(f, q)]"
  shows "MQTTSerialize_subscribe buf size_buf 0 pid 1 [cstr f] [q] = Some (int (length pk), pk @ drop (length pk) buf)"
    and "length pk \<le> size_buf"
proof -
  let ?n = "length (subscribe_body pid [(f, q)])"
  have n: "?n < 268435456" using assms(1,2) by (simp add: MQTTPacket_len_def split: if_splits)
  have "length pk \<le> MQTTPacket_len ?n"
    using MQTTPacket_len_upper [OF n] by (simp add: pk_def subscribe_packet_def)
  with assms(1) show le: "length pk \<le> size_buf" by simp
  have "mstr_ok (cstr f) f" by (simp add: mstr_ok_def mstr_bytes_def cstr_def MQTTString_initializer_def)
  with serialize_subscribe_eq [of "[cstr f]" "[f]" "[q]" buf size_buf 0 pid] assms(1,3) le
  show "MQTTSerialize_subscribe buf size_buf 0 pid 1 [cstr f] [q] = Some (int (length pk), pk @ drop (length pk) buf)"
    by (simp add: emit_fits pk_def)
qed

text \<open>Another packet identifier, new handlers and records: what a request leaves alone.\<close>

definition requests :: "mqtt_client \<Rightarrow> mqtt_client \<Rightarrow> bool" where
  "requests c c' \<longleftrightarrow> calm c' \<and> mqtt_network c' = mqtt_network c \<and> mqtt_read_buf_size c' = mqtt_read_buf_size c \<and>
     mqtt_packet_id c' = next_id c \<and> mqtt_msg_handler_list c' = mqtt_msg_handler_list c \<and>
     mqtt_interceptor_handler c' = mqtt_interceptor_handler c \<and> delivered c' = delivered c"

lemma requestsD: "requests c c' \<Longrightarrow> calm c'" "requests c c' \<Longrightarrow> mqtt_network c' = mqtt_network c"
  "requests c c' \<Longrightarrow> mqtt_read_buf_size c' = mqtt_read_buf_size c"
  "requests c c' \<Longrightarrow> mqtt_msg_handler_list c' = mqtt_msg_handler_list c"
  "requests c c' \<Longrightarrow> mqtt_interceptor_handler c' = mqtt_interceptor_handler c" "requests c c' \<Longrightarrow> delivered c' = delivered c"
  by (simp_all add: requests_def)

lemma subscribe_ok:
  assumes "calm c" "mqtt_network c = Some n" "\<not> has_key (mqtt_ack_handler_list c) (SUBACK, next_id c)"
    and "MQTTPacket_len (length (subscribe_body (next_id c) [(f, int qos)])) \<le> unat (mqtt_write_buf_size c)"
  defines "pk \<equiv> subscribe_packet 0 (next_id c) [(f, int qos)]"
  shows "\<exists>c' a. mqtt_subscribe c (Some f) qos (Some h) = Some (MQTT_SUCCESS_ERROR, c') \<and> requests c c' \<and>
    wire c' = wire c @ [(net_socket n, pk)] \<and> mqtt_ack_handler_list c' = mqtt_ack_handler_list c @ [a] \<and>
    ack_key a = (SUBACK, next_id c) \<and> ah_handler a = Some (next_addr c) \<and>
    handlers c' = (handlers c)(next_addr c \<mapsto> \<lparr>mh_qos = qos, mh_topic_filter = Some f, mh_handler = h\<rparr>)"
proof -
  note r = calmD [OF assms(1)]
  let ?id = "next_id c"
  let ?f = "\<lambda>buf n. MQTTSerialize_subscribe buf n 0 ?id (Suc 0) [cstr f] [int qos]"
  define c2 where "c2 = c\<lparr>mqtt_write_lock := True, mqtt_packet_id := ?id\<rparr>"
  have sz: "unat (mqtt_write_buf_size c2) < 268435455" "unat (mqtt_write_buf_size c2) = unat (mqtt_write_buf_size c)"
    using r(1) by (simp_all add: client_ok_defs c2_def)
  note ser = serialize_subscribe_one [of ?id f "int qos" "unat (mqtt_write_buf_size c2)", unfolded sz(2), OF assms(4) sz(1) [unfolded sz(2)]]
  have le: "length pk \<le> unat (mqtt_write_buf_size c2)" using ser(2) client_ok_wbuf [OF r(1)] sz(2) unfolding pk_def by metis
  have pos: "0 < length pk" by (simp add: pk_def subscribe_packet_def)
  obtain c3a rc timer c3 where s: "serialize_into c2 ?f = Some (int (length pk), c3a)"
      "mqtt_send_packet c3a (length pk) = Some (rc, timer, c3)" "client_ok c3" "same_tables c2 c3" "allocs c3 = []"
      "rc = MQTT_SUCCESS_ERROR" "smooth c3" "now_us c3 = now_us c2" "wire c3 = wire c @ [(net_socket n, pk)]"
    using send_request [of c2 n pk, OF _ _ pos le, of ?f] ser(1) assms(2) r sz(2) by (auto simp: c2_def pk_def smooth_def)
  note f = same_tables_fields [OF s(4), simplified c2_def, simplified]
  let ?p = "next_addr c" and ?plen = "of_int (int (length pk)) :: u16"
  let ?h = "\<lparr>mh_qos = qos, mh_topic_filter = Some f, mh_handler = h\<rparr>"
  define c4 where "c4 = c3\<lparr>next_addr := Suc ?p, handlers := (handlers c)(?p \<mapsto> ?h)\<rparr>"
  have al: "x\<lparr>allocs := []\<rparr> = x" if "allocs x = []" for x :: mqtt_client using that by (cases x) simp
  have create: "mqtt_msg_handler_create c3 (Some f) qos h = (Some ?p, c4)"
    using s(5) al [of c3] f by (simp add: mqtt_msg_handler_create_def alloc_eq alloc_ok_def c4_def Let_def)
  have fit: "unat ?plen \<le> length (buf_bytes (mqtt_write_buf c4))"
    using le client_ok_wbuf [OF s(3)] f
    by (auto simp: unat_of_nat c4_def c2_def buf_bytes_def intro: order_trans [OF mod_less_eq_dividend])
  let ?a = "new_ack c4 SUBACK ?id ?plen (Some ?p)"
  have rec: "mqtt_ack_list_record c4 SUBACK ?id ?plen (Some ?p) = Some (MQTT_SUCCESS_ERROR, add_ack c4 ?a)"
  proof -
    have e: "allocs c4 = []" and "mqtt_ack_handler_list c4 = mqtt_ack_handler_list c" using s(5) f by (simp_all add: c4_def)
    with record_eq [OF fit, of SUBACK ?id "Some ?p"] assms(3) show ?thesis
      by (simp add: alloc_ok_def has_key_def al [OF e])
  qed
  have eq: "mqtt_subscribe c (Some f) qos (Some h) = Some (MQTT_SUCCESS_ERROR, unlock_write (add_ack c4 ?a))"
    using r(2,3) s(1,2,6) pos create rec
    by (simp add: mqtt_subscribe_def mqtt_get_client_state_def lock_write_def next_id_eq c2_def [symmetric])
  have "valid (mqtt_subscribe c (Some f) qos (Some h)) (\<lambda>(rc, c'). client_ok c')"
    using r(1) by (auto intro!: subscribe_valid)
  with eq have "client_ok (unlock_write (add_ack c4 ?a))" by (auto dest: validD)
  moreover have "calm (unlock_write (add_ack c4 ?a)) = client_ok (unlock_write (add_ack c4 ?a))"
    using f s(5,7) r(2) by (simp add: calm_def smooth_def unlock_write_def add_ack_def c4_def)
  ultimately have "requests c (unlock_write (add_ack c4 ?a))"
    using f by (simp add: requests_def) (simp add: unlock_write_def add_ack_def c4_def)
  moreover have "wire (unlock_write (add_ack c4 ?a)) = wire c3" "handlers (unlock_write (add_ack c4 ?a)) = handlers c4"
      "mqtt_ack_handler_list (unlock_write (add_ack c4 ?a)) = mqtt_ack_handler_list c @ [?a]"
      "handlers c4 = (handlers c)(?p \<mapsto> ?h)"
    using f by (simp_all add: unlock_write_def add_ack_def c4_def)
  ultimately show ?thesis
    using eq s(9) by (intro exI [of _ "unlock_write (add_ack c4 ?a)"] exI [of _ ?a]) simp
qed

section \<open>The acknowledgement\<close>

lemma rd_suback [simp]: "rd (suback_packet pid cs @ post) 0 = Some (mk_header (msg_code SUBACK) 0 0 0)"
  by (simp add: rd_def suback_packet_def)

lemma dispatch_suback [simp]:
  "dispatch sgnd (msg_code SUBACK) timer c = with_timer timer (mqtt_suback_packet_handle sgnd c)"
  "dispatch sgnd (msg_code UNSUBACK) timer c = with_timer timer (mqtt_unsuback_packet_handle c)"
  by (simp_all add: dispatch_def msg_code.simps)

lemma decode_suback_buf:
  assumes "mqtt_read_buf c = Some (suback_packet pid [q] @ post)"
  shows "MQTTDeserialize_suback sgnd 1 \<lparr>sa_packetid = j, sa_count = 0, sa_granted = [0]\<rparr> (read_bytes c) m =
    Some (1, \<lparr>sa_packetid = pid, sa_count = 1, sa_granted = [char_val sgnd q]\<rparr>)"
proof -
  note d = decode_suback_packet [of "[q]", where pid = pid and post = post]
  show ?thesis
    using suback_loop_fill [OF d(2), of "\<lparr>sa_packetid = pid, sa_count = 0, sa_granted = [0]\<rparr>" 1 sgnd] assms
    by (simp add: read_bytes_def buf_bytes_def d(1) arr_fill_def)
qed

text \<open>
  The SUBACK of a pending subscription installs its handler, unless the handlers have one for the same filter
  already or the return code reads as 0x80; then the handler is freed. Through a signed \<open>char\<close> no
  return code reads as 0x80.
\<close>

definition suback_result :: "bool \<Rightarrow> u8 \<Rightarrow> addr \<Rightarrow> mqtt_client \<Rightarrow> int \<times> addr list \<times> (addr \<Rightarrow> message_handlers option)" where
  "suback_result sgnd q p c =
     (if char_val sgnd q = 128 then (MQTT_SUBSCRIBE_NOT_ACK_ERROR, mqtt_msg_handler_list c, (handlers c)(p := None))
      else if filter_of (handlers c) p \<in> filter_of (handlers c) ` set (mqtt_msg_handler_list c)
      then (MQTT_SUCCESS_ERROR, mqtt_msg_handler_list c, (handlers c)(p := None))
      else (MQTT_SUCCESS_ERROR, mqtt_msg_handler_list c @ [p], handlers c))"

lemma suback_arrives:
  assumes "calm c" "mqtt_ack_handler_list c = kept @ a # rest" "ack_key a = (SUBACK, pid)" "ah_handler a = Some p"
    and "length (suback_packet pid [q] @ post) = unat (mqtt_read_buf_size c)"
  shows "\<exists>rc c'. arrive sgnd (suback_packet pid [q] @ post) c = Some (rc, c') \<and> calm c' \<and>
    mqtt_network c' = mqtt_network c \<and> mqtt_read_buf_size c' = mqtt_read_buf_size c \<and>
    mqtt_interceptor_handler c' = mqtt_interceptor_handler c \<and> delivered c' = delivered c \<and> wire c' = wire c \<and>
    mqtt_ack_handler_list c' = kept @ rest \<and> (rc, mqtt_msg_handler_list c', handlers c') = suback_result sgnd q p c"
proof -
  define c0 where "c0 = c\<lparr>mqtt_read_buf := Some (suback_packet pid [q] @ post)\<rparr>"
  have c0: "calm c0" "mqtt_ack_handler_list c0 = kept @ a # rest"
    using calm_read [OF assms(1,5)] assms(2) by (simp_all add: c0_def)
  have un: "mqtt_ack_list_unrecord c0 (msg_code SUBACK) pid = (Some (Some p), drop_ack kept rest c0)"
    using unrecord_present [OF _ c0(2)] calmD(1) [OF c0(1)] assms(3,4) by (simp add: matches_key client_ok_def)
  have ty: "ah_type a = SUBACK" using assms(3) by (simp add: ack_key_def)
  have dec: "MQTTDeserialize_suback sgnd 1 \<lparr>sa_packetid = junk16 c0, sa_count = 0, sa_granted = [0]\<rparr> (read_bytes c0) m =
      Some (1, \<lparr>sa_packetid = pid, sa_count = 1, sa_granted = [char_val sgnd q]\<rparr>)" for m
    by (rule decode_suback_buf) (simp add: c0_def)
  have handle: "mqtt_suback_packet_handle sgnd c0 =
      (if char_val sgnd q = 128
       then do { c \<leftarrow> mqtt_msg_handler_destory p (drop_ack kept rest c0); Some (MQTT_SUBSCRIBE_NOT_ACK_ERROR, c) }
       else mqtt_msg_handlers_install (drop_ack kept rest c0) (Some p))"
    using calm_connected [OF c0(1)] dec un
    by (simp add: mqtt_suback_packet_handle_def arr_def SUBFAIL_def cong: if_cong)
  note free = client_ok_drop_free [OF calmD(1) [OF c0(1)] c0(2) assms(4)]
  have live: "mqtt_msg_handler_destory p (drop_ack kept rest c0) = Some (free_handler p (drop_ack kept rest c0))"
    using destroy_live [of "drop_ack kept rest c0" p] free(1) by simp
  have np: "p \<notin> set (mqtt_msg_handler_list c0)"
    using calmD(1) [OF c0(1)] c0(2) assms(4) ty by (auto simp: client_ok_def handlers_ok_def hok_def)
  have idem: "remove1 p (mqtt_msg_handler_list c0) = mqtt_msg_handler_list c0" using np by (simp add: remove1_idem)
  obtain ci where ins: "mqtt_msg_handlers_install (drop_ack kept rest c0) (Some p) = Some (MQTT_SUCCESS_ERROR, ci)" "client_ok ci"
      "ci = (if filter_of (handlers c0) p \<in> filter_of (handlers c0) ` set (mqtt_msg_handler_list c0)
          then free_handler p (drop_ack kept rest c0)
          else (drop_ack kept rest c0)\<lparr>mqtt_msg_handler_list := mqtt_msg_handler_list c0 @ [p]\<rparr>)"
    using install_spec [OF calmD(1) [OF c0(1)] c0(2) ty assms(4)] by blast
  define c1 where "c1 = (if char_val sgnd q = 128 then free_handler p (drop_ack kept rest c0) else ci)"
  have h: "mqtt_suback_packet_handle sgnd c0 = Some (fst (suback_result sgnd q p c), c1)"
    using handle live ins(1) by (simp add: c1_def suback_result_def)
  have shape: "calm c1" "mqtt_network c1 = mqtt_network c" "mqtt_read_buf_size c1 = mqtt_read_buf_size c"
      "mqtt_interceptor_handler c1 = mqtt_interceptor_handler c" "delivered c1 = delivered c" "wire c1 = wire c"
      "mqtt_ack_handler_list c1 = kept @ rest"
      "(mqtt_msg_handler_list c1, handlers c1) = snd (suback_result sgnd q p c)"
    using ins(2,3) free(3) c0(1) idem
    by (auto simp: c1_def calm_def smooth_def drop_ack_def free_handler_def suback_result_def c0_def)
  have "arrive sgnd (suback_packet pid [q] @ post) c = Some (fst (suback_result sgnd q p c), c1)"
    using h by (simp add: arrive_def c0_def [symmetric] with_timer_def)
  with shape show ?thesis
    by (intro exI [of _ "fst (suback_result sgnd q p c)"] exI [of _ c1]) (simp add: prod_eq_iff)
qed

section \<open>The delivery\<close>

lemma find_last: "find P xs = None \<Longrightarrow> P y \<Longrightarrow> find P (xs @ [y]) = Some y"
  by (induction xs) (auto split: if_splits)

text \<open>The handler that gets a message on a topic name.\<close>

definition taker :: "mqtt_client \<Rightarrow> bytes \<Rightarrow> message_handler option" where
  "taker c ts =
     (case find (\<lambda>p. filter_takes (the (filter_of (handlers c) p)) ts) (mqtt_msg_handler_list c) of
        Some p \<Rightarrow> Some (mh_handler (the (handlers c p)))
      | None \<Rightarrow> mqtt_interceptor_handler c)"

lemma receiver_name:
  assumes "cstring t = None" "lenstring_len t = length ts" "deref_block (lenstring_data t) (length ts) = Some ts"
  shows "receiver c t = taker c ts"
  using accepts_name [OF assms] by (simp add: receiver_def taker_def)

lemma message0_arrives:
  assumes "calm c" "length ts < 65536" "publish_rem QOS0 ts ps < 268435456" "0 \<in> set post"
    and "length (publish_packet dup QOS0 ret pid ts ps @ post) = unat (mqtt_read_buf_size c)"
  shows "\<exists>buf. arrive sgnd (publish_packet dup QOS0 ret pid ts ps @ post) c = Some (MQTT_SUCCESS_ERROR, c
      \<lparr>mqtt_read_buf := Some buf,
       delivered := delivered c @ (case taker c ts of
          None \<Rightarrow> []
        | Some h \<Rightarrow> [\<lparr>dl_handler = h, dl_topic = take (MQTT_TOPIC_LEN_MAX - 1) ts, dl_qos = QOS0, dl_id = junk16 c,
                     dl_payload = Some ps\<rparr>])\<rparr>) \<and> length buf = unat (mqtt_read_buf_size c)"
proof -
  let ?buf = "publish_packet dup QOS0 ret pid ts ps @ post"
  define c0 where "c0 = c\<lparr>mqtt_read_buf := Some ?buf\<rparr>"
  have c0: "calm c0" "mqtt_read_buf c0 = Some ?buf" using calm_read [OF assms(1,5)] by (simp_all add: c0_def)
  have "QOS0 < 4" by (simp add: QOS0_def)
  note d = decode_publish_packet [OF assms(2) this assms(3) refl, where dup = dup and retained = ret and pid = pid and post = post]
  let ?t = "\<lparr>cstring = None, lenstring_len = length ts, lenstring_data = Some (?buf, topic_at QOS0 ts ps)\<rparr>"
  let ?msg = "\<lparr>msg_qos = QOS0, msg_retained = take_bit 1 ret, msg_dup = take_bit 1 dup, msg_id = junk16 c,
    msg_payloadlen = nat (int (length ps) mod 4294967296), msg_payload = Some (?buf, payload_at QOS0 ts ps)\<rparr>"
  have plen: "nat (int (length ps) mod 4294967296) = length ps"
    using assms(3) by (simp add: publish_rem_def nat_mod_distrib)
  have pl: "deref_block (Some (?buf, payload_at QOS0 ts ps)) (msg_payloadlen ?msg) = Some ps"
    using deref_seg [OF d(3)] plen by simp
  obtain k where k: "strlen_at (drop (payload_at QOS0 ts ps) ?buf) = Some k"
    using strlen_at_ex [of "ps @ post"] d(5) assms(4) by auto
  have tk: "receiver c0 ?t = taker c ts"
    using receiver_name [of ?t ts c0] deref_seg [OF d(2)] by (simp add: taker_def c0_def cong: option.case_cong)
  obtain rc buf where dl: "mqtt_deliver_message c0 ?t ?msg = Some (rc, c0
      \<lparr>delivered := delivered c0 @ (case taker c ts of None \<Rightarrow> []
          | Some h \<Rightarrow> [\<lparr>dl_handler = h, dl_topic = take (MQTT_TOPIC_LEN_MAX - 1) ts, dl_qos = msg_qos ?msg,
                       dl_id = msg_id ?msg, dl_payload = Some ps\<rparr>]), mqtt_read_buf := Some buf\<rparr>)" (is "_ = Some (rc, ?c1)")
      "length buf = length ?buf"
    using deliver_ok [OF calmD(1) [OF c0(1)] c0(2) refl d(2) _ pl k] tk by auto
  have out: "publish_out_uninit c0 = publish_out_uninit c" "read_bytes c0 = ?buf" "po_packetid (publish_out_uninit c) = junk16 c"
    by (simp_all add: c0_def publish_out_uninit_def read_bytes_def buf_bytes_def)
  have "mqtt_publish_packet_handle c0 (cmd_timer c) = Some (MQTT_SUCCESS_ERROR, cmd_timer c, ?c1)"
    using d(1) calm_connected [OF c0(1)] out dl(1)
    by (simp add: mqtt_publish_packet_handle_def publish_send_ack_def QOS0_def QOS2_def MQTT_SUCCESS_ERROR_def Let_def cong: if_cong)
  then have "arrive sgnd ?buf c = Some (MQTT_SUCCESS_ERROR, ?c1)"
    by (simp add: arrive_def c0_def [symmetric])
  then show ?thesis
    using dl(2) assms(5) by (intro exI [of _ buf]) (simp add: c0_def cong: option.case_cong)
qed

text \<open>A packet that comes in over the socket and has a handler arrives in this sense, followed by the keep-alive step.\<close>

lemma packet_handle_arrive:
  assumes "mqtt_network c = Some n" "mqtt_read_buf c = Some buf" "length buf = unat (mqtt_read_buf_size c)"
    and "prompt (rx c)" "stream (rx c) = pk @ rest" "pk = h # enc_len (length body) @ body"
    and "length body < 268435456" "length pk \<le> length buf" "handled (hdr_type h)"
  shows "\<exists>es. stream es = rest \<and> prompt es \<and>
    map_option (\<lambda>(rc, timer, c). (rc, c)) (mqtt_packet_handle sgnd c) = do {
      (_, c) \<leftarrow> arrive sgnd (pk @ drop (length pk) buf) (c\<lparr>rx := es, mqtt_last_received := keep_alive_timer c\<rparr>);
      (rc, c) \<leftarrow> mqtt_keep_alive c;
      Some (if rc = MQTT_SUCCESS_ERROR then uint (hdr_type h) else rc, c) }"
proof -
  obtain es where r: "mqtt_read_packet c = Some (MQTT_SUCCESS_ERROR, hdr_type h, cmd_timer c, c\<lparr>rx := es,
      mqtt_read_buf := Some (pk @ drop (length pk) buf), mqtt_last_received := keep_alive_timer c\<rparr>)"
      "stream es = rest" "prompt es"
    using read_packet_prompt [OF assms(1-8)] by blast
  define c1 where "c1 = c\<lparr>rx := es, mqtt_last_received := keep_alive_timer c\<rparr>"
  have upd: "c\<lparr>rx := es, mqtt_read_buf := Some (pk @ drop (length pk) buf), mqtt_last_received := keep_alive_timer c\<rparr> =
      c1\<lparr>mqtt_read_buf := Some (pk @ drop (length pk) buf)\<rparr>" by (simp add: c1_def)
  have "cmd_timer c1 = cmd_timer c" by (simp add: c1_def cmd_timer_def timer_cutdown_def)
  moreover have "rd (pk @ drop (length pk) buf) 0 = Some h" by (simp add: assms(6) rd_def)
  ultimately have "arrive sgnd (pk @ drop (length pk) buf) c1 = do {
      (rc, _, c) \<leftarrow> dispatch sgnd (hdr_type h) (cmd_timer c) (c1\<lparr>mqtt_read_buf := Some (pk @ drop (length pk) buf)\<rparr>);
      Some (rc, c) }"
    by (simp add: arrive_def)
  then have "map_option (\<lambda>(rc, timer, c). (rc, c)) (mqtt_packet_handle sgnd c) = do {
      (_, c) \<leftarrow> arrive sgnd (pk @ drop (length pk) buf) c1;
      (rc, c) \<leftarrow> mqtt_keep_alive c;
      Some (if rc = MQTT_SUCCESS_ERROR then uint (hdr_type h) else rc, c) }"
    using assms(9) r(1)
    by (auto simp: mqtt_packet_handle_def upd with_timer_def map_option_case case_prod_unfold
        split: option.split Option.bind_split)
  with r(2,3) show ?thesis unfolding c1_def by blast
qed

section \<open>From the request to the delivery\<close>

lemma handlers_old: "client_ok c \<Longrightarrow> p \<in> set (mqtt_msg_handler_list c) \<Longrightarrow> p \<noteq> next_addr c"
  using hok_fresh by (auto simp: client_ok_def handlers_ok_def)



text \<open>\<^bold>\<open>Property C37 (refused_subscription).\<close> A SUBACK with the return code 0x80 refuses the subscription. Where
  \<open>char\<close> is unsigned the handler is freed and the refusal reported; where it is signed, as on x86, the
  return code never equals 0x80 and the handler of the refused subscription is installed.\<close>

theorem refused_subscription:
  assumes "calm c" "mqtt_ack_handler_list c = kept @ a # rest" "ack_key a = (SUBACK, pid)" "ah_handler a = Some p"
    and "filter_of (handlers c) p \<notin> filter_of (handlers c) ` set (mqtt_msg_handler_list c)"
    and "length (suback_packet pid [0x80] @ post) = unat (mqtt_read_buf_size c)"
  shows "\<exists>c'. arrive sgnd (suback_packet pid [0x80] @ post) c =
      Some (if sgnd then MQTT_SUCCESS_ERROR else MQTT_SUBSCRIBE_NOT_ACK_ERROR, c') \<and>
    mqtt_ack_handler_list c' = kept @ rest \<and>
    mqtt_msg_handler_list c' = (if sgnd then mqtt_msg_handler_list c @ [p] else mqtt_msg_handler_list c) \<and>
    handlers c' = (if sgnd then handlers c else (handlers c)(p := None))"
proof -
  have "char_val sgnd 0x80 = (if sgnd then -128 else 128)" by (simp add: char_val_def)
  with suback_arrives [OF assms(1-4,6), of sgnd] assms(5) show ?thesis
    by (auto simp: suback_result_def)
qed

theorem refused_subscription_witness:
  "\<exists>c'. arrive True (suback_packet 8 [0x80] @ [0, 0, 0]) sample_session = Some (MQTT_SUCCESS_ERROR, c') \<and>
    mqtt_msg_handler_list c' = mqtt_msg_handler_list sample_session @ [1] \<and> handlers c' = handlers sample_session"
proof -
  define a where "a = mqtt_ack_handler_list sample_session ! 1"
  have "mqtt_ack_handler_list sample_session = [hd (mqtt_ack_handler_list sample_session)] @ a # []"
    "ack_key a = (SUBACK, 8)" "ah_handler a = Some 1"
    "filter_of (handlers sample_session) 1 \<notin> filter_of (handlers sample_session) ` set (mqtt_msg_handler_list sample_session)"
    by (simp_all add: a_def sample_session_def filter_of_def ack_key_def)
  moreover have "length (suback_packet 8 [0x80] @ [0, 0, 0]) = unat (mqtt_read_buf_size sample_session)" by code_simp
  ultimately show ?thesis using refused_subscription [OF sample_session_calm, of "[hd (mqtt_ack_handler_list sample_session)]" a "[]" 8 1 "[0, 0, 0]" True] by auto
qed

section \<open>The end of a subscription\<close>

lemma rd_unsuback_type [simp]: "msg_code UNSUBACK \<noteq> 0" by (simp add: msg_code.simps)

lemma unsuback_handle_eq:
  assumes "mqtt_client_state c = CLIENT_STATE_CONNECTED" "mqtt_read_buf c = Some (ack_packet UNSUBACK d pid @ post)"
  shows "mqtt_unsuback_packet_handle c = (case mqtt_ack_list_unrecord c (msg_code UNSUBACK) pid of
      (None, c) \<Rightarrow> None
    | (Some None, c) \<Rightarrow> Some (MQTT_MEM_NOT_ENOUGH_ERROR, c)
    | (Some (Some p), c) \<Rightarrow> do { c \<leftarrow> mqtt_msg_handler_destory p c; Some (MQTT_SUCCESS_ERROR, c) })"
proof -
  have "MQTTDeserialize_unsuback 0 (read_bytes c) m = Some (1, pid)" for m
    using decode_ack_buf [OF assms(2)] by (simp add: MQTTDeserialize_unsuback_def)
  with assms(1) show ?thesis
    by (simp add: mqtt_unsuback_packet_handle_def mqtt_is_connected_def mqtt_get_client_state_def Let_def
        split: prod.splits option.splits)
qed

text \<open>An UNSUBACK whose identifier has a record frees the handler of the record, takes it
  out of the list, and removes the record; without a record the handler of the packet reads an uninitialised pointer.\<close>

theorem unsuback_needs_record:
  assumes "calm c" "length (ack_packet UNSUBACK d pid @ post) = unat (mqtt_read_buf_size c)"
    and "\<forall>a\<in>set (mqtt_ack_handler_list c). ack_key a = (UNSUBACK, pid) \<longrightarrow> ah_handler a = Some p"
  shows "if has_key (mqtt_ack_handler_list c) (UNSUBACK, pid)
    then \<exists>c'. arrive sgnd (ack_packet UNSUBACK d pid @ post) c = Some (MQTT_SUCCESS_ERROR, c') \<and> client_ok c' \<and>
      mqtt_msg_handler_list c' = remove1 p (mqtt_msg_handler_list c) \<and> handlers c' = (handlers c)(p := None) \<and>
      mqtt_ack_handler_list c' = remove_key (UNSUBACK, pid) (mqtt_ack_handler_list c)
    else arrive sgnd (ack_packet UNSUBACK d pid @ post) c = None"
proof -
  define c0 where "c0 = c\<lparr>mqtt_read_buf := Some (ack_packet UNSUBACK d pid @ post)\<rparr>"
  have c0: "calm c0" "mqtt_ack_handler_list c0 = mqtt_ack_handler_list c" "handlers c0 = handlers c"
      "mqtt_msg_handler_list c0 = mqtt_msg_handler_list c"
    using calm_read [OF assms(1,2)] by (simp_all add: c0_def)
  have ok: "acks_ok c0" using calmD(1) [OF c0(1)] by (simp add: client_ok_def)
  have h: "mqtt_unsuback_packet_handle c0 = (case mqtt_ack_list_unrecord c0 (msg_code UNSUBACK) pid of
      (None, c) \<Rightarrow> None
    | (Some None, c) \<Rightarrow> Some (MQTT_MEM_NOT_ENOUGH_ERROR, c)
    | (Some (Some p), c) \<Rightarrow> do { c \<leftarrow> mqtt_msg_handler_destory p c; Some (MQTT_SUCCESS_ERROR, c) })"
    by (rule unsuback_handle_eq [OF calmD(2) [OF c0(1)]]) (simp add: c0_def)
  have ar: "arrive sgnd (ack_packet UNSUBACK d pid @ post) c =
      map_option (\<lambda>(rc, c). (rc, c)) (mqtt_unsuback_packet_handle c0)"
    by (cases "mqtt_unsuback_packet_handle c0") (auto simp: arrive_def c0_def [symmetric] with_timer_def)
  show ?thesis
  proof (rule unrecord_cases [OF ok, of "msg_code UNSUBACK" pid])
    assume u: "\<forall>a\<in>set (mqtt_ack_handler_list c0). \<not> matches (msg_code UNSUBACK) pid a"
      "mqtt_ack_list_unrecord c0 (msg_code UNSUBACK) pid = (None, c0)"
    then have "\<not> has_key (mqtt_ack_handler_list c) (UNSUBACK, pid)" using c0(2) by (auto simp: has_key_def matches_key)
    with h ar u(2) show ?thesis by simp
  next
    fix kept a rest
    assume u: "mqtt_ack_handler_list c0 = kept @ a # rest" "matches (msg_code UNSUBACK) pid a"
      "mqtt_ack_list_unrecord c0 (msg_code UNSUBACK) pid = (Some (ah_handler a), drop_ack kept rest c0)"
    have k: "ack_key a = (UNSUBACK, pid)" using u(2) by (simp add: matches_key)
    then have a: "ah_handler a = Some p" "has_key (mqtt_ack_handler_list c) (UNSUBACK, pid)"
      using assms(3) u(1) c0(2) by (auto simp: has_key_def intro!: image_eqI [of _ ack_key a])
    note free = client_ok_drop_free [OF calmD(1) [OF c0(1)] u(1) a(1)]
    have "mqtt_msg_handler_destory p (drop_ack kept rest c0) = Some (free_handler p (drop_ack kept rest c0))"
      using destroy_live [of "drop_ack kept rest c0" p] free(1) by simp
    with h ar u(3) a free(3) c0 unrecord_table [OF ok, of UNSUBACK pid] show ?thesis by simp
  qed
qed

theorem unsuback_needs_record_witness:
  "arrive True (ack_packet UNSUBACK 0 8 @ [0, 0, 0, 0]) sample_session = None"
proof -
  have "length (ack_packet UNSUBACK 0 8 @ [0, 0, 0, 0]) = unat (mqtt_read_buf_size sample_session)"
    "\<forall>a\<in>set (mqtt_ack_handler_list sample_session). ack_key a = (UNSUBACK, 8) \<longrightarrow> ah_handler a = Some 1"
    "\<not> has_key (mqtt_ack_handler_list sample_session) (UNSUBACK, 8)"
    by code_simp+
  with unsuback_needs_record [OF sample_session_calm this(1,2), of True] show ?thesis by simp
qed

lemma serialize_unsubscribe_one:
  assumes "MQTTPacket_len (length (unsubscribe_body pid [f])) \<le> size_buf" "size_buf < 268435455" "length buf = size_buf"
  defines "pk \<equiv> unsubscribe_packet 0 pid [f]"
  shows "MQTTSerialize_unsubscribe buf size_buf 0 pid 1 [cstr f] = Some (int (length pk), pk @ drop (length pk) buf)"
    and "length pk \<le> size_buf"
proof -
  let ?n = "length (unsubscribe_body pid [f])"
  have n: "?n < 268435456" using assms(1,2) by (simp add: MQTTPacket_len_def split: if_splits)
  have "length pk \<le> MQTTPacket_len ?n"
    using MQTTPacket_len_upper [OF n] by (simp add: pk_def unsubscribe_packet_def)
  with assms(1) show le: "length pk \<le> size_buf" by simp
  have "mstr_ok (cstr f) f" by (simp add: mstr_ok_def mstr_bytes_def cstr_def MQTTString_initializer_def)
  with serialize_unsubscribe_eq [of "[cstr f]" "[f]" buf size_buf 0 pid] assms(1,3) le
  show "MQTTSerialize_unsubscribe buf size_buf 0 pid 1 [cstr f] = Some (int (length pk), pk @ drop (length pk) buf)"
    by (simp add: emit_fits pk_def)
qed

text \<open>The request enters a record for the handler that the filter finds, even when another request for it is pending.\<close>

lemma unsubscribe_ok:
  assumes "calm c" "mqtt_network c = Some n" "\<not> has_key (mqtt_ack_handler_list c) (UNSUBACK, next_id c)"
    and "MQTTPacket_len (length (unsubscribe_body (next_id c) [f])) \<le> unat (mqtt_write_buf_size c)"
    and "mqtt_get_msg_handler c (cstr f) = Some (Some p)"
  shows "\<exists>c' a. mqtt_unsubscribe c (Some f) = Some (MQTT_SUCCESS_ERROR, c') \<and> acks_ok c' \<and>
    mqtt_client_state c' = CLIENT_STATE_CONNECTED \<and> mqtt_network c' = Some n \<and>
    wire c' = wire c @ [(net_socket n, unsubscribe_packet 0 (next_id c) [f])] \<and>
    mqtt_ack_handler_list c' = mqtt_ack_handler_list c @ [a] \<and> ack_key a = (UNSUBACK, next_id c) \<and> ah_handler a = Some p \<and>
    handlers c' = handlers c \<and> mqtt_msg_handler_list c' = mqtt_msg_handler_list c \<and> mqtt_packet_id c' = next_id c \<and>
    mqtt_write_buf_size c' = mqtt_write_buf_size c \<and> (may_unsubscribe c f \<longrightarrow> calm c')"
proof -
  note r = calmD [OF assms(1)]
  let ?id = "next_id c"
  let ?f = "\<lambda>buf n. MQTTSerialize_unsubscribe buf n 0 ?id (Suc 0) [cstr f]"
  define pk where "pk = unsubscribe_packet 0 ?id [f]"
  define c2 where "c2 = c\<lparr>mqtt_write_lock := True, mqtt_packet_id := ?id\<rparr>"
  have sz: "unat (mqtt_write_buf_size c2) < 268435455" "unat (mqtt_write_buf_size c2) = unat (mqtt_write_buf_size c)"
    using r(1) by (simp_all add: client_ok_defs c2_def)
  note ser = serialize_unsubscribe_one [of ?id f "unat (mqtt_write_buf_size c2)", unfolded sz(2), OF assms(4) sz(1) [unfolded sz(2)]]
  have le: "length pk \<le> unat (mqtt_write_buf_size c2)" using ser(2) client_ok_wbuf [OF r(1)] sz(2) unfolding pk_def by metis
  have pos: "0 < length pk" by (simp add: pk_def unsubscribe_packet_def)
  obtain c3a rc timer c3 where s: "serialize_into c2 ?f = Some (int (length pk), c3a)"
      "mqtt_send_packet c3a (length pk) = Some (rc, timer, c3)" "client_ok c3" "same_tables c2 c3" "allocs c3 = []"
      "rc = MQTT_SUCCESS_ERROR" "smooth c3" "wire c3 = wire c @ [(net_socket n, pk)]"
    using send_request [of c2 n pk, OF _ _ pos le, of ?f] ser(1) assms(2) r sz(2) by (auto simp: c2_def pk_def smooth_def)
  note f = same_tables_fields [OF s(4), simplified c2_def, simplified]
  have get: "mqtt_get_msg_handler c3 (cstr f) = Some (Some p)"
    using get_handler_tables [of c3 c] f assms(5) by (simp add: tables_def)
  let ?plen = "of_int (int (length pk)) :: u16"
  have fit: "unat ?plen \<le> length (buf_bytes (mqtt_write_buf c3))" "unat ?plen \<le> unat (mqtt_write_buf_size c3)"
    using le client_ok_wbuf [OF s(3)] f
    by (auto simp: unat_of_nat c2_def buf_bytes_def intro: order_trans [OF mod_less_eq_dividend])
  let ?a = "new_ack c3 UNSUBACK ?id ?plen (Some p)"
  have al: "c3\<lparr>allocs := []\<rparr> = c3" using s(5) by (cases c3) simp
  have rec: "mqtt_ack_list_record c3 UNSUBACK ?id ?plen (Some p) = Some (MQTT_SUCCESS_ERROR, add_ack c3 ?a)"
    using record_eq [OF fit(1), of UNSUBACK ?id "Some p"] assms(3) s(5) f by (simp add: alloc_ok_def has_key_def al)
  define c4 where "c4 = unlock_write (add_ack c3 ?a)"
  have eq: "mqtt_unsubscribe c (Some f) = Some (MQTT_SUCCESS_ERROR, c4)"
    using r(2,3) s(1,2,6) pos get rec
    by (simp add: mqtt_unsubscribe_def mqtt_get_client_state_def lock_write_def next_id_eq c2_def [symmetric] c4_def)
  have fields: "wire c4 = wire c3" "handlers c4 = handlers c" "mqtt_msg_handler_list c4 = mqtt_msg_handler_list c"
      "mqtt_ack_handler_list c4 = mqtt_ack_handler_list c @ [?a]" "mqtt_client_state c4 = mqtt_client_state c"
      "mqtt_network c4 = mqtt_network c" "mqtt_packet_id c4 = ?id" "mqtt_write_buf_size c4 = mqtt_write_buf_size c"
      "acks_ok c4 = acks_ok (add_ack c3 ?a)" "calm c4 = client_ok c4"
    using f s(5,7) r(2) by (simp_all add: c4_def unlock_write_def add_ack_def acks_ok_def calm_def smooth_def)
  have "acks_ok (add_ack c3 ?a)"
    using new_ack_wf [OF s(3) fit(2), of "Some p" UNSUBACK] s(3) f assms(3)
    by (intro acks_ok_add) (simp_all add: client_ok_def has_key_def)
  moreover have "client_ok c4" if "may_unsubscribe c f"
  proof -
    have "valid (mqtt_unsubscribe c (Some f)) (\<lambda>(rc, c'). client_ok c')"
      using r(1) that by (auto intro!: unsubscribe_valid)
    with eq show ?thesis by (auto dest: validD)
  qed
  ultimately show ?thesis
    using eq fields s(8) r(2) assms(2) by (intro exI [of _ c4] exI [of _ ?a]) (auto simp: pk_def)
qed

lemma next_id_ne: "mqtt_packet_id c' = next_id c \<Longrightarrow> next_id c' \<noteq> next_id c"
  by (simp add: next_id_def mqtt_get_next_packet_id_def Let_def MQTT_MAX_PACKET_ID_def)

lemma next_id_cong: "mqtt_packet_id c' = mqtt_packet_id c \<Longrightarrow> next_id c' = next_id c"
  by (simp add: next_id_def mqtt_get_next_packet_id_def Let_def)

text \<open>One UNSUBACK on a client whose records have different keys.\<close>

lemma unsuback_step:
  assumes "acks_ok c" "mqtt_client_state c = CLIENT_STATE_CONNECTED" "mqtt_ack_handler_list c = kept @ a # rest"
    and "ack_key a = (UNSUBACK, pid)" "ah_handler a = Some p"
  shows "arrive sgnd (ack_packet UNSUBACK d pid @ post) c =
      (if handlers c p = None then None
       else Some (MQTT_SUCCESS_ERROR, free_handler p (drop_ack kept rest (c\<lparr>mqtt_read_buf := Some (ack_packet UNSUBACK d pid @ post)\<rparr>))))"
proof -
  define c0 where "c0 = c\<lparr>mqtt_read_buf := Some (ack_packet UNSUBACK d pid @ post)\<rparr>"
  have c0: "acks_ok c0" "mqtt_client_state c0 = CLIENT_STATE_CONNECTED" "mqtt_ack_handler_list c0 = kept @ a # rest"
      "mqtt_read_buf c0 = Some (ack_packet UNSUBACK d pid @ post)" "handlers c0 = handlers c"
    using assms(1-3) by (simp_all add: c0_def acks_ok_def)
  have "mqtt_ack_list_unrecord c0 (msg_code UNSUBACK) pid = (Some (Some p), drop_ack kept rest c0)"
    using unrecord_present [OF c0(1,3)] assms(4,5) by (simp add: matches_key)
  moreover have "mqtt_msg_handler_destory p (drop_ack kept rest c0) =
      (if handlers c p = None then None else Some (free_handler p (drop_ack kept rest c0)))"
    using c0(5) by (auto simp: mqtt_msg_handler_destory_def free_handler_def)
  ultimately have "mqtt_unsuback_packet_handle c0 =
      (if handlers c p = None then None else Some (MQTT_SUCCESS_ERROR, free_handler p (drop_ack kept rest c0)))"
    using unsuback_handle_eq [OF c0(2,4)] by simp
  then show ?thesis by (simp add: arrive_def c0_def [symmetric] with_timer_def)
qed

text \<open>Two unsubscribe requests for the same filter, before the first is
  acknowledged, both succeed and record the same handler. The first UNSUBACK frees the handler; the second one
  follows the freed pointer, which C leaves undefined.\<close>

theorem unsubscribe_twice_undefined:
  assumes "calm c" "mqtt_network c = Some n" "mqtt_get_msg_handler c (cstr f) = Some (Some p)" "may_unsubscribe c f"
    and "\<forall>i. \<not> has_key (mqtt_ack_handler_list c) (UNSUBACK, i)"
    and "\<And>i. MQTTPacket_len (length (unsubscribe_body i [f])) \<le> unat (mqtt_write_buf_size c)"
  shows "\<exists>c1 c2 c3. mqtt_unsubscribe c (Some f) = Some (MQTT_SUCCESS_ERROR, c1) \<and>
    mqtt_unsubscribe c1 (Some f) = Some (MQTT_SUCCESS_ERROR, c2) \<and>
    arrive sgnd (ack_packet UNSUBACK 0 (next_id c) @ post1) c2 = Some (MQTT_SUCCESS_ERROR, c3) \<and>
    arrive sgnd (ack_packet UNSUBACK 0 (next_id c1) @ post2) c3 = None"
proof -
  obtain c1 a where u: "mqtt_unsubscribe c (Some f) = Some (MQTT_SUCCESS_ERROR, c1)" "calm c1" "mqtt_network c1 = Some n"
      "mqtt_ack_handler_list c1 = mqtt_ack_handler_list c @ [a]" "ack_key a = (UNSUBACK, next_id c)" "ah_handler a = Some p"
      "handlers c1 = handlers c" "mqtt_msg_handler_list c1 = mqtt_msg_handler_list c" "mqtt_packet_id c1 = next_id c"
      "mqtt_write_buf_size c1 = mqtt_write_buf_size c"
    using unsubscribe_ok [OF assms(1,2) _ assms(6,3)] assms(4,5) by blast
  have ne: "next_id c1 \<noteq> next_id c" using next_id_ne u(9) by blast
  have "mqtt_get_msg_handler c1 (cstr f) = Some (Some p)"
  proof -
    have "get_handler_loop c1 t ps = get_handler_loop c t ps" for t ps
      using u(7) by (induction ps) (simp_all cong: option.case_cong if_cong)
    with u(8) assms(3) show ?thesis by (simp add: mqtt_get_msg_handler_def)
  qed
  moreover have "\<not> has_key (mqtt_ack_handler_list c1) (UNSUBACK, next_id c1)"
    using u(4,5) assms(5) ne by (auto simp: has_key_def)
  ultimately obtain c2 b where v: "mqtt_unsubscribe c1 (Some f) = Some (MQTT_SUCCESS_ERROR, c2)" "acks_ok c2"
      "mqtt_client_state c2 = CLIENT_STATE_CONNECTED"
      "mqtt_ack_handler_list c2 = mqtt_ack_handler_list c1 @ [b]" "ack_key b = (UNSUBACK, next_id c1)" "ah_handler b = Some p"
      "handlers c2 = handlers c1"
    using unsubscribe_ok [OF u(2,3), of f p] assms(6) u(10) by auto
  have live: "handlers c2 p \<noteq> None"
    using get_handler_mem [OF assms(3)] hok_live [of "mqtt_msg_handler_list c"] calmD(1) [OF assms(1)] u(7) v(7)
    by (force simp: client_ok_def handlers_ok_def live_filter_def)
  have l2: "mqtt_ack_handler_list c2 = mqtt_ack_handler_list c @ a # [b]" using v(4) u(4) by simp
  define c2' where "c2' = c2\<lparr>mqtt_read_buf := Some (ack_packet UNSUBACK 0 (next_id c) @ post1)\<rparr>"
  define c3 where "c3 = free_handler p (drop_ack (mqtt_ack_handler_list c) [b] c2')"
  have s: "arrive sgnd (ack_packet UNSUBACK 0 (next_id c) @ post1) c2 = Some (MQTT_SUCCESS_ERROR, c3)"
    using unsuback_step [OF v(2,3) l2 u(5,6), of sgnd 0 post1] live by (simp add: c3_def c2'_def)
  have "acks_ok c2'" "mqtt_ack_handler_list c2' = mqtt_ack_handler_list c @ a # [b]"
    using v(2) l2 by (simp_all add: c2'_def acks_ok_def)
  then have "acks_ok c3" using acks_ok_drop [of c2'] by (simp add: c3_def)
  moreover have "mqtt_client_state c3 = CLIENT_STATE_CONNECTED" "handlers c3 p = None"
      "mqtt_ack_handler_list c3 = mqtt_ack_handler_list c @ b # []"
    using v(3) by (simp_all add: c3_def c2'_def)
  ultimately have "arrive sgnd (ack_packet UNSUBACK 0 (next_id c1) @ post2) c3 = None"
    using unsuback_step [of c3 "mqtt_ack_handler_list c" b "[]" "next_id c1" p sgnd 0 post2] v(5,6) by simp
  with u(1) v(1) s show ?thesis by blast
qed

theorem unsubscribe_twice_undefined_witness:
  "\<exists>c1 c2 c3. mqtt_unsubscribe sample_session (Some [98]) = Some (MQTT_SUCCESS_ERROR, c1) \<and>
    mqtt_unsubscribe c1 (Some [98]) = Some (MQTT_SUCCESS_ERROR, c2) \<and>
    arrive True (ack_packet UNSUBACK 0 (next_id sample_session) @ [0, 0, 0, 0]) c2 = Some (MQTT_SUCCESS_ERROR, c3) \<and>
    arrive True (ack_packet UNSUBACK 0 (next_id c1) @ [0, 0, 0, 0]) c3 = None"
proof (rule unsubscribe_twice_undefined [OF sample_session_calm sample_session_simps(1)])
  have keys: "ack_key ` set (mqtt_ack_handler_list sample_session) = {(PUBACK, 7), (SUBACK, 8)}" by code_simp
  show "mqtt_get_msg_handler sample_session (cstr [98]) = Some (Some 2)" by code_simp
  have "refs UNSUBACK (mqtt_ack_handler_list sample_session) = []" by code_simp
  then show "may_unsubscribe sample_session [98]" by (simp add: may_unsubscribe_def)
  show "\<forall>i. \<not> has_key (mqtt_ack_handler_list sample_session) (UNSUBACK, i)" by (simp add: has_key_def keys)
  show "MQTTPacket_len (length (unsubscribe_body i [[98]])) \<le> unat (mqtt_write_buf_size sample_session)" for i
    by (simp add: length_unsubscribe_body sample_session_simps MQTTPacket_len_def)
qed

section \<open>From the socket to the handler\<close>



end
