(* ===== verification/Client_Incoming.thy ===== *)
theory Client_Incoming
  imports Client_Safety Client_Subscription
begin

text \<open>
  What a broker that keeps to the protocol sends is safe to receive, in every state of the client: connected or not, with a
  network that fails and memory that runs out. The exceptions the code needs are in the definition of \<open>expected\<close>: an UNSUBACK must
  answer a request that is pending, a SUBACK has the one return code the client asked for, and behind the
  payload of a message there is a zero in the read buffer.
\<close>

section \<open>Handlers that run to their end\<close>

declare msg_code.simps [simp del]

lemma puback_runs:
  "mqtt_read_buf c = Some (ack_packet t d pid @ post) \<Longrightarrow> defined (mqtt_puback_and_pubcomp_packet_handle c) (\<lambda>_. True)"
  by (simp add: mqtt_puback_and_pubcomp_packet_handle_def decode_ack_buf case_prod_unfold Let_def)

lemma send_ack_runs [runs]:
  "client_ok c \<Longrightarrow> nat len \<le> unat (mqtt_write_buf_size c) \<Longrightarrow> (\<And>r. Q r) \<Longrightarrow> defined (send_ack c len) Q"
  by (auto simp: send_ack_def intro!: runs)

lemma record_keeps_size:
  assumes "client_ok c" "unat plen \<le> unat (mqtt_write_buf_size c)" "t \<noteq> SUBACK" "t \<noteq> UNSUBACK"
    and "\<And>rc c'. client_ok c' \<Longrightarrow> mqtt_write_buf_size c' = mqtt_write_buf_size c \<Longrightarrow> mqtt_read_buf c' = mqtt_read_buf c \<Longrightarrow>
      Q (rc, c')"
  shows "defined (mqtt_ack_list_record c t pid plen None) Q"
proof -
  have eq: "unat plen \<le> length (buf_bytes (mqtt_write_buf c))" using assms(1,2) wbuf_len by simp
  obtain rc c' where r: "mqtt_ack_list_record c t pid plen None = Some (rc, c')"
    by (cases "mqtt_ack_list_record c t pid plen None") (auto simp: record_eq [OF eq])
  have "valid (mqtt_ack_list_record c t pid plen None) (\<lambda>(_, c'). client_ok c')"
    by (rule record_valid [OF assms(1,3,4)]) simp
  with r have "client_ok c'" by (simp add: valid_def)
  moreover have "mqtt_write_buf_size c' = mqtt_write_buf_size c \<and> mqtt_read_buf c' = mqtt_read_buf c"
    using r by (auto simp: record_eq [OF eq] add_ack_def split: if_splits)
  ultimately show ?thesis using r assms(5) by simp
qed

lemma serialize_ack_runs:
  assumes "client_ok c"
    "\<And>c'. client_ok c' \<Longrightarrow> 4 \<le> unat (mqtt_write_buf_size c') \<Longrightarrow> Q (4, c')"
  shows "defined (serialize_into c (\<lambda>buf n. MQTTSerialize_ack buf n t d pid)) Q"
proof -
  obtain wb where s: "serialize_into c (\<lambda>buf n. MQTTSerialize_ack buf n t d pid) =
      Some (4, c\<lparr>mqtt_write_buf := Some (ack_packet t d pid @ wb)\<rparr>)"
      "client_ok (c\<lparr>mqtt_write_buf := Some (ack_packet t d pid @ wb)\<rparr>)"
    using serialize_ack_into [OF assms(1)] by blast
  with assms(2) wsize(1) [OF s(2)] show ?thesis by simp
qed

lemma ack_packet_runs:
  assumes "client_ok c" "held c = 0"
  shows "defined (mqtt_publish_ack_packet c pid ty) (\<lambda>_. True)"
  using assms
  by (auto simp: mqtt_publish_ack_packet_def intro!: runs serialize_ack_runs record_keeps_size)

lemma pubrec_runs:
  assumes "client_ok c" "held c = 0" "mqtt_read_buf c = Some (ack_packet t d pid @ post)"
  shows "defined (mqtt_pubrec_and_pubrel_packet_handle c) (\<lambda>_. True)"
proof -
  have "defined (mqtt_publish_ack_packet c i ty) (\<lambda>r. Q)" if Q for i ty Q
    using ack_packet_runs [OF assms(1,2), of i ty] that by (simp add: defined_def)
  with assms(3) show ?thesis
    by (auto simp: mqtt_pubrec_and_pubrel_packet_handle_def decode_ack_buf case_prod_unfold Let_def)
qed

lemma destroy_dropped:
  assumes "client_ok c" "mqtt_ack_handler_list c = before @ a # rest" "ah_handler a = Some p"
  shows "mqtt_msg_handler_destory p (drop_ack before rest c) \<noteq> None"
  using client_ok_drop_free [OF assms] destroy_live [of "drop_ack before rest c" p] by simp

lemma suback_runs:
  assumes "client_ok c" "mqtt_read_buf c = Some (suback_packet pid [q] @ post)"
  shows "defined (mqtt_suback_packet_handle sgnd c) (\<lambda>_. True)"
proof (rule unrecord_cases [of c "msg_code SUBACK" pid])
  show "acks_ok c" using assms(1) by (simp add: client_ok_def)
next
  assume "mqtt_ack_list_unrecord c (msg_code SUBACK) pid = (None, c)"
  then show ?thesis by (simp add: mqtt_suback_packet_handle_def decode_suback_buf [OF assms(2), unfolded One_nat_def] arr_def Let_def)
next
  fix before a rest
  assume a: "mqtt_ack_handler_list c = before @ a # rest" "matches (msg_code SUBACK) pid a"
    "mqtt_ack_list_unrecord c (msg_code SUBACK) pid = (Some (ah_handler a), drop_ack before rest c)"
  show ?thesis
  proof (cases "ah_handler a")
    case None
    with a(3) show ?thesis by (simp add: mqtt_suback_packet_handle_def decode_suback_buf [OF assms(2), unfolded One_nat_def] arr_def Let_def)
  next
    case (Some p)
    then have "mqtt_msg_handlers_install (drop_ack before rest c) (Some p) \<noteq> None"
      using install_spec [OF assms(1) a(1) ack_type_match [OF a(2)] Some] by auto
    with destroy_dropped [OF assms(1) a(1) Some] a(3) Some show ?thesis
      by (auto simp: mqtt_suback_packet_handle_def decode_suback_buf [OF assms(2), unfolded One_nat_def] arr_def Let_def)
  qed
qed

lemma unsuback_runs:
  assumes "client_ok c" "mqtt_read_buf c = Some (ack_packet UNSUBACK d pid @ post)"
    "has_key (mqtt_ack_handler_list c) (UNSUBACK, pid)"
  shows "defined (mqtt_unsuback_packet_handle c) (\<lambda>_. True)"
proof (cases "mqtt_client_state c = CLIENT_STATE_CONNECTED")
  case True
  show ?thesis
  proof (rule unrecord_cases [of c "msg_code UNSUBACK" pid])
    show "acks_ok c" using assms(1) by (simp add: client_ok_def)
  next
    assume "\<forall>a\<in>set (mqtt_ack_handler_list c). \<not> matches (msg_code UNSUBACK) pid a"
    with assms(3) show ?thesis by (auto simp: has_key_def matches_key)
  next
    fix before a rest
    assume a: "mqtt_ack_handler_list c = before @ a # rest"
      "mqtt_ack_list_unrecord c (msg_code UNSUBACK) pid = (Some (ah_handler a), drop_ack before rest c)"
    with destroy_dropped [OF assms(1) a(1)] show ?thesis
      by (cases "ah_handler a") (auto simp: unsuback_handle_eq [OF True assms(2)])
  qed
next
  case False
  then show ?thesis by (simp add: mqtt_unsuback_packet_handle_def mqtt_is_connected_def mqtt_get_client_state_def mqtt_errors Let_def)
qed

text \<open>A message of any quality of service, with a zero in its payload or somewhere behind it.\<close>

lemma publish_handle_runs:
  assumes "client_ok c" "held c = 0" "length ts < 65536" "qos < 4" "publish_rem qos ts ps < 268435456"
    and "mqtt_read_buf c = Some (publish_packet dup qos ret pid ts ps @ post)" "0 \<in> set (ps @ post)"
  shows "defined (mqtt_publish_packet_handle c timer) (\<lambda>_. True)"
proof -
  let ?buf = "publish_packet dup qos ret pid ts ps @ post"
  note d = decode_publish_packet [OF assms(3-5) refl, where dup = dup and retained = ret and pid = pid and post = post]
  let ?t = "\<lparr>cstring = None, lenstring_len = length ts, lenstring_data = Some (?buf, topic_at qos ts ps)\<rparr>"
  have plen: "nat (int (length ps) mod 4294967296) = length ps"
    using assms(5) by (simp add: publish_rem_def nat_mod_distrib)
  have pl: "deref_block (Some (?buf, payload_at qos ts ps)) (length ps) = Some ps" using deref_seg [OF d(3)] .
  obtain k where k: "strlen_at (drop (payload_at qos ts ps) ?buf) = Some k"
    using strlen_at_ex [of "ps @ post"] d(5) assms(7) by auto
  define msg where "msg = \<lparr>msg_qos = qos, msg_retained = take_bit 1 ret, msg_dup = take_bit 1 dup,
    msg_id = (if qos > 0 then pid else junk16 c), msg_payloadlen = length ps, msg_payload = Some (?buf, payload_at qos ts ps)\<rparr>"
  have dl: "defined (mqtt_deliver_message c1 ?t msg) (\<lambda>_. True)"
    if "client_ok c1" "mqtt_read_buf c1 = mqtt_read_buf c" for c1
    using deliver_ok [OF that(1) _ refl d(2) _ _ k, of msg ps] that(2) assms(6) pl by (auto simp: msg_def)
  obtain n where n: "mqtt_network c = Some n" using assms(1) by (auto simp: client_ok_defs)
  have ack: "defined (publish_send_ack c qos (msg_id msg) timer) (\<lambda>(rc, len, timer, c1).
      rc < 0 \<or> client_ok c1 \<and> mqtt_read_buf c1 = mqtt_read_buf c \<and> (qos = QOS2 \<longrightarrow> len = 4))"
  proof -
    consider "qos = QOS0" | "qos = QOS1 \<or> qos = QOS2" | "qos = 3"
      using assms(4) unfolding QOS0_def QOS1_def QOS2_def by linarith
    then show ?thesis
    proof cases
      case 1
      with assms(1) show ?thesis by (simp add: publish_send_ack_def QOS2_def QOS0_def)
    next
      case 2
      have "\<not> mqtt_write_lock c" using assms(2) by (simp add: held_eq)
      from publish_send_ack_ok [OF assms(1) this n 2, of "msg_id msg" timer] obtain rc timer' c1 where
        "publish_send_ack c qos (msg_id msg) timer = Some (rc, 4, timer', c1)" "client_ok c1" "same_tables c c1" by blast
      with same_tables_fields(2) show ?thesis by simp
    next
      case 3
      with assms(2) show ?thesis
        by (simp add: publish_send_ack_def lock_write_def held_eq QOS0_def QOS1_def QOS2_def mqtt_errors)
    qed
  qed
  have body: "defined (if rc < 0 then Some (rc, t, c1)
      else if qos \<noteq> QOS2 then do { (_, c1) \<leftarrow> mqtt_deliver_message c1 ?t msg; Some (rc, t, c1) }
      else do {
        (rc, c1) \<leftarrow> mqtt_ack_list_record c1 PUBREL (msg_id msg) (of_int len) None;
        if rc \<noteq> MQTT_ACK_NODE_IS_EXIST_ERROR
        then do { (_, c1) \<leftarrow> mqtt_deliver_message c1 ?t msg; Some (rc, t, c1) }
        else Some (rc, t, c1) }) (\<lambda>_. True)"
    if "rc < 0 \<or> client_ok c1 \<and> mqtt_read_buf c1 = mqtt_read_buf c \<and> (qos = QOS2 \<longrightarrow> len = 4)" for rc len t c1
    using that dl wsize(1) [of c1] by (auto simp: case_prod_unfold intro!: record_keeps_size)
  show ?thesis
  proof (cases "mqtt_is_connected c = MQTT_SUCCESS_ERROR")
    case True
    obtain rc len t c1 where a: "publish_send_ack c qos (msg_id msg) timer = Some (rc, len, t, c1)"
        "rc < 0 \<or> client_ok c1 \<and> mqtt_read_buf c1 = mqtt_read_buf c \<and> (qos = QOS2 \<longrightarrow> len = 4)"
      using ack by (auto simp: defined_def)
    have out: "read_bytes c = ?buf" "po_packetid (publish_out_uninit c) = junk16 c"
      using assms(6) by (simp_all add: read_bytes_def buf_bytes_def publish_out_uninit_def)
    have m: "\<lparr>msg_qos = qos, msg_retained = take_bit 1 ret, msg_dup = take_bit 1 dup,
        msg_id = (if qos > 0 then pid else junk16 c), msg_payloadlen = nat (int (length ps) mod 4294967296),
        msg_payload = Some (?buf, payload_at qos ts ps)\<rparr> = msg"
      by (simp add: msg_def plen)
    have q: "msg_qos msg = qos" by (simp add: msg_def)
    have "mqtt_publish_packet_handle c timer = (if rc < 0 then Some (rc, t, c1)
      else if qos \<noteq> QOS2 then do { (_, c1) \<leftarrow> mqtt_deliver_message c1 ?t msg; Some (rc, t, c1) }
      else do {
        (rc, c1) \<leftarrow> mqtt_ack_list_record c1 PUBREL (msg_id msg) (of_int len) None;
        if rc \<noteq> MQTT_ACK_NODE_IS_EXIST_ERROR
        then do { (_, c1) \<leftarrow> mqtt_deliver_message c1 ?t msg; Some (rc, t, c1) }
        else Some (rc, t, c1) })"
      unfolding mqtt_publish_packet_handle_def out(1) d(1) Let_def bind.bind_lunit prod.case publish_out.simps out(2) m q a(1)
      by (simp add: True)
    then show ?thesis using body [OF a(2), of t] by (simp only:)
  next
    case False
    then show ?thesis by (simp add: mqtt_publish_packet_handle_def Let_def)
  qed
qed

section \<open>What a broker sends\<close>

text \<open>A packet the broker may send to the client, given what the client has asked for and what stands in the read buffer behind the
  packet.\<close>

inductive expected :: "mqtt_client \<Rightarrow> bytes \<Rightarrow> bytes \<Rightarrow> bool" for c :: mqtt_client and post :: bytes where
  publication_ack: "t \<in> {PUBACK, PUBREC, PUBREL, PUBCOMP} \<Longrightarrow> expected c post (ack_packet t d pid)"
| suback: "expected c post (suback_packet pid [q])"
| unsuback: "has_key (mqtt_ack_handler_list c) (UNSUBACK, pid) \<Longrightarrow> expected c post (ack_packet UNSUBACK d pid)"
| message: "length ts < 65536 \<Longrightarrow> qos < 4 \<Longrightarrow> publish_rem qos ts ps < 268435456 \<Longrightarrow> 0 \<in> set (ps @ post) \<Longrightarrow>
    expected c post (publish_packet dup qos ret pid ts ps)"
| pingresp: "expected c post (zero_packet PINGRESP)"

lemma expected_shape:
  assumes "expected c post pk"
  shows "\<exists>h body. pk = h # enc_len (length body) @ body \<and> length body < 268435456 \<and> handled (hdr_type h)"
  using assms
proof cases
  case (publication_ack t d pid)
  then show ?thesis
    by (intro exI [of _ "mk_header (msg_code t) d (if t = PUBREL then 1 else 0) 0"] exI [of _ "be16 (unat pid)"])
      (auto simp: ack_packet_def handled_def)
next
  case (suback pid q)
  then show ?thesis
    by (intro exI [of _ "mk_header (msg_code SUBACK) 0 0 0"] exI [of _ "be16 (unat pid) @ [q]"])
      (auto simp: suback_packet_def handled_def)
next
  case (unsuback pid d)
  then show ?thesis
    by (intro exI [of _ "mk_header (msg_code UNSUBACK) d 0 0"] exI [of _ "be16 (unat pid)"])
      (auto simp: ack_packet_def handled_def)
next
  case (message ts qos ps dup ret pid)
  then show ?thesis
    by (intro exI [of _ "mk_header (msg_code PUBLISH) dup qos ret"] exI [of _ "publish_body qos pid ts ps"])
      (auto simp: publish_packet_def handled_def length_publish_body)
next
  case pingresp
  then show ?thesis
    by (intro exI [of _ "mk_header (msg_code PINGRESP) 0 0 0"] exI [of _ "[]"]) (auto simp: zero_packet_def handled_def)
qed

lemma with_timer_runs: "defined r (\<lambda>_. True) \<Longrightarrow> defined (with_timer timer r) (\<lambda>_. True)"
  by (cases r) (auto simp: with_timer_def)

lemma dispatch_runs:
  assumes "expected c post pk" "client_ok c" "held c = 0" "mqtt_read_buf c = Some (pk @ post)" "rd (pk @ post) 0 = Some h"
  shows "defined (dispatch sgnd (hdr_type h) timer c) (\<lambda>_. True)"
  using assms(1)
proof cases
  case (publication_ack t d pid)
  then have h: "h = mk_header (msg_code t) d (if t = PUBREL then 1 else 0) 0" using assms(5) by simp
  have b: "mqtt_read_buf c = Some (ack_packet t d pid @ post)" using assms(4) publication_ack(1) by simp
  note p = with_timer_runs [OF puback_runs [OF b]] with_timer_runs [OF pubrec_runs [OF assms(2,3) b]]
  from publication_ack(2) show ?thesis unfolding h hdr_types by (elim insertE emptyE; hypsubst; simp add: p)
next
  case (suback pid q)
  then have h: "h = mk_header (msg_code SUBACK) 0 0 0" using assms(5) by simp
  show ?thesis
    using with_timer_runs [OF suback_runs [OF assms(2), of pid q post sgnd]] assms(4) suback by (simp add: h)
next
  case (unsuback pid d)
  then have h: "h = mk_header (msg_code UNSUBACK) d 0 0" using assms(5) by simp
  show ?thesis
    using with_timer_runs [OF unsuback_runs [OF assms(2) _ unsuback(2), of d post]] assms(4) unsuback(1) by (simp add: h)
next
  case (message ts qos ps dup ret pid)
  then have h: "h = mk_header (msg_code PUBLISH) dup qos ret" using assms(5) by simp
  show ?thesis
    using publish_handle_runs [OF assms(2,3) message(2-4) _ message(5), of dup ret pid timer] assms(4) message(1) by (simp add: h)
next
  case pingresp
  then have "hdr_type h = msg_code PINGRESP" using assms(5) by (auto simp: rd_def zero_packet_def)
  then show ?thesis by (simp add: dispatch_def)
qed

section \<open>Properties\<close>



end
