(* ===== verification/Client_Lifecycle.thy ===== *)
theory Client_Lifecycle
  imports Client_Protocol
begin

text \<open>
  The life of a client: packet identifiers, the keep-alive round, connecting, and the way from
  \<open>mqtt_disconnect\<close> over the background thread to \<open>mqtt_release\<close>.
\<close>

section \<open>Packet identifiers\<close>

text \<open>The identifier that the request after \<open>n\<close> others gets.\<close>

definition id_at :: "mqtt_client \<Rightarrow> nat \<Rightarrow> u16" where
  "id_at c n = fst (mqtt_get_next_packet_id (((\<lambda>c. snd (mqtt_get_next_packet_id c)) ^^ n) c))"

lemma next_id_unat:
  "unat (mqtt_packet_id c) \<le> 65534 \<Longrightarrow> unat (next_id c) = unat (mqtt_packet_id c) mod 65534 + 1"
proof -
  assume le: "unat (mqtt_packet_id c) \<le> 65534"
  show "unat (next_id c) = unat (mqtt_packet_id c) mod 65534 + 1"
  proof (cases "mqtt_packet_id c = 65534")
    case True
    then show ?thesis by (simp add: next_id_def mqtt_get_next_packet_id_def MQTT_MAX_PACKET_ID_def)
  next
    case False
    then have "unat (mqtt_packet_id c) \<noteq> 65534"
      by (simp add: word_unat_eq_iff)
    with le have lt: "unat (mqtt_packet_id c) < 65534" by simp
    then have "unat (mqtt_packet_id c + 1) = unat (mqtt_packet_id c) + 1"
      by (simp add: unat_word_ariths)
    with lt False show ?thesis
      by (simp add: next_id_def mqtt_get_next_packet_id_def MQTT_MAX_PACKET_ID_def Let_def)
  qed
qed

lemma iterate_id:
  assumes "unat (mqtt_packet_id c) \<le> 65534"
  shows "unat (mqtt_packet_id (((\<lambda>c. snd (mqtt_get_next_packet_id c)) ^^ n) c)) \<le> 65534 \<and>
    unat (mqtt_packet_id (((\<lambda>c. snd (mqtt_get_next_packet_id c)) ^^ n) c)) mod 65534 = (unat (mqtt_packet_id c) + n) mod 65534"
proof (induction n)
  case 0
  then show ?case using assms by simp
next
  case (Suc n)
  let ?c = "((\<lambda>c. snd (mqtt_get_next_packet_id c)) ^^ n) c"
  from Suc next_id_unat [of ?c] have "unat (next_id ?c) = (unat (mqtt_packet_id c) + n) mod 65534 + 1" by simp
  moreover have "(unat (mqtt_packet_id c) + n) mod 65534 < 65534" by simp
  ultimately show ?case by (simp add: next_id_eq mod_Suc_eq del: mod_less_divisor)
qed

lemma id_at_eq:
  assumes "unat (mqtt_packet_id c) \<le> 65534"
  shows "unat (id_at c n) = (unat (mqtt_packet_id c) + n) mod 65534 + 1"
  using iterate_id [OF assms, of n] next_id_unat by (simp add: id_at_def next_id_eq)

text \<open>The packet identifiers of a client run through 1 to 65534 in a cycle: none is zero, and
  two requests share one exactly when a multiple of 65534 requests lies between them.\<close>

theorem packet_ids_cycle:
  assumes "unat (mqtt_packet_id c) \<le> 65534"
  shows "0 < unat (id_at c n) \<and> unat (id_at c n) < 65535 \<and> (id_at c m = id_at c n \<longleftrightarrow> m mod 65534 = n mod 65534)"
proof -
  have "id_at c m = id_at c n \<longleftrightarrow> (unat (mqtt_packet_id c) + m) mod 65534 = (unat (mqtt_packet_id c) + n) mod 65534"
    unfolding word_unat_eq_iff id_at_eq [OF assms] by simp
  also have "\<dots> \<longleftrightarrow> m mod 65534 = n mod 65534" by (auto simp: nat_mod_eq_iff)
  finally have "id_at c m = id_at c n \<longleftrightarrow> m mod 65534 = n mod 65534" .
  moreover have "(unat (mqtt_packet_id c) + n) mod 65534 < 65534" by simp
  ultimately show ?thesis unfolding id_at_eq [OF assms] by linarith
qed

theorem packet_ids_cycle_witness:
  "0 < unat (id_at sample_session 3) \<and> unat (id_at sample_session 3) < 65535 \<and>
   (id_at sample_session 1 = id_at sample_session 3 \<longleftrightarrow> 1 mod 65534 = (3::nat) mod 65534)"
  by (rule packet_ids_cycle) code_simp

section \<open>Keep alive\<close>

lemma serialize_zero_into:
  assumes "client_ok c" "\<And>buf n. f buf n = (if n < 2 then Some (BUFFER_TOO_SHORT, buf) else emit buf (zero_packet typ))"
    and "length buf = unat (mqtt_write_buf_size c)"
  shows "f buf (unat (mqtt_write_buf_size c)) = Some (int (length (zero_packet typ)), zero_packet typ @ drop (length (zero_packet typ)) buf)"
  using client_ok_wbuf [OF assms(1)] assms(2,3) by (auto simp: emit_fits)

lemma send_zero:
  assumes "client_ok c" "mqtt_network c = Some n" "smooth c"
    and "\<And>buf n. f buf n = (if n < 2 then Some (BUFFER_TOO_SHORT, buf) else emit buf (zero_packet typ))"
  shows "\<exists>c1 timer c2. serialize_into c f = Some (2, c1) \<and>
    mqtt_send_packet c1 2 = Some (MQTT_SUCCESS_ERROR, timer, c2) \<and> client_ok c2 \<and> same_tables c c2 \<and>
    allocs c2 = allocs c \<and> smooth c2 \<and> now_us c2 = now_us c \<and> wire c2 = wire c @ [(net_socket n, zero_packet typ)]"
proof -
  have "length (zero_packet typ) \<le> unat (mqtt_write_buf_size c)" using client_ok_wbuf [OF assms(1)] by auto
  from send_request [OF assms(1,2) _ this, of f] serialize_zero_into [OF assms(1,4)] assms(3) show ?thesis by auto
qed

lemma pingreq_eq: "MQTTSerialize_pingreq buf n = (if n < 2 then Some (BUFFER_TOO_SHORT, buf) else emit buf (zero_packet PINGREQ))"
  by (simp add: MQTTSerialize_pingreq_def serialize_zero_eq)

lemma disconnect_eq: "MQTTSerialize_disconnect buf n = (if n < 2 then Some (BUFFER_TOO_SHORT, buf) else emit buf (zero_packet DISCONNECT))"
  by (simp add: MQTTSerialize_disconnect_def serialize_zero_eq)



section \<open>From disconnect to release\<close>

lemma cmd_timer_live: "0 < mqtt_cmd_timeout c \<Longrightarrow> now_us c' = now_us c \<Longrightarrow> \<not> timer_expired c' (cmd_timer c)"
  by (simp add: timer_expired_def cmd_timer_def timer_cutdown_def linux.live word_less_nat_alt)

lemma disconnect_ok:
  assumes "client_ok c" "\<not> mqtt_write_lock c" "smooth c" "mqtt_network c = Some n"
  shows "\<exists>c'. mqtt_disconnect c = Some (MQTT_SUCCESS_ERROR, c') \<and> client_ok c' \<and>
    wire c' = wire c @ [(net_socket n, zero_packet DISCONNECT)] \<and> mqtt_client_state c' = CLIENT_STATE_CLEAN_SESSION \<and>
    mqtt_network c' = Some n \<and> mqtt_cmd_timeout c' = mqtt_cmd_timeout c \<and> handlers c' = handlers c \<and>
    mqtt_msg_handler_list c' = mqtt_msg_handler_list c \<and> mqtt_ack_handler_list c' = mqtt_ack_handler_list c \<and>
    mqtt_thread c' = mqtt_thread c \<and> thread_live c' = thread_live c"
proof -
  let ?c1 = "c\<lparr>mqtt_write_lock := True\<rparr>"
  obtain ca timer cb where s: "serialize_into ?c1 MQTTSerialize_disconnect = Some (2, ca)"
      "mqtt_send_packet ca 2 = Some (MQTT_SUCCESS_ERROR, timer, cb)" "client_ok cb" "same_tables ?c1 cb"
      "wire cb = wire c @ [(net_socket n, zero_packet DISCONNECT)]"
    using send_zero [of ?c1 n MQTTSerialize_disconnect DISCONNECT, OF _ _ _ disconnect_eq] assms by (auto simp: smooth_def)
  note f = same_tables_fields [OF s(4), simplified]
  show ?thesis
    using s f assms(2,4) by (simp add: mqtt_disconnect_def lock_write_def mqtt_set_client_state_def)
      (simp add: unlock_write_def)
qed

lemma yield_clean:
  assumes "mqtt_client_state c = CLIENT_STATE_CLEAN_SESSION" "0 < mqtt_cmd_timeout c"
  shows "mqtt_yield sgnd callback tail (Some c) (unat (mqtt_cmd_timeout c)) = Some (MQTT_CLEAN_SESSION_ERROR, Some c)"
proof -
  have "yield_loop sgnd callback tail MQTT_SUCCESS_ERROR (cmd_timer c) c = Some (MQTT_CLEAN_SESSION_ERROR, c)"
    using assms cmd_timer_live [OF assms(2) refl] by (subst yield_loop.simps) (simp add: mqtt_get_client_state_def)
  then show ?thesis by (simp add: mqtt_yield_def cmd_timer_def)
qed

text \<open>\<^bold>\<open>Property C11 (disconnect_then_release).\<close> \<open>mqtt_disconnect\<close> sends DISCONNECT; the next round of the background thread then closes
  the socket, frees every handler the tables own, empties the tables, frees its own object and ends; and \<open>mqtt_release\<close> finds the session
  cleaned at its first look and clears the client, whatever the other threads would do.\<close>

theorem disconnect_then_release:
  assumes "client_ok c" "\<not> mqtt_write_lock c" "smooth c" "mqtt_network c = Some n" "mqtt_thread c \<longrightarrow> thread_live c"
  shows "\<exists>c1 c2. mqtt_disconnect c = Some (MQTT_SUCCESS_ERROR, c1) \<and>
    wire c1 = wire c @ [(net_socket n, zero_packet DISCONNECT)] \<and>
    mqtt_yield_thread sgnd callback tail c1 = Some c2 \<and> mqtt_client_state c2 = CLIENT_STATE_INVALID \<and>
    closed c2 = closed c1 @ [net_socket n] \<and> mqtt_ack_handler_list c2 = [] \<and> mqtt_msg_handler_list c2 = [] \<and>
    handlers c2 = (handlers c) |` (- set (mqtt_msg_handler_list c @ refs SUBACK (mqtt_ack_handler_list c))) \<and>
    mqtt_thread c2 = mqtt_thread c \<and> thread_live c2 = (thread_live c \<and> \<not> mqtt_thread c) \<and>
    mqtt_release env (Some c2) = Some (MQTT_SUCCESS_ERROR, Some (client_clear c2))"
proof -
  obtain c1 where d: "mqtt_disconnect c = Some (MQTT_SUCCESS_ERROR, c1)" "client_ok c1"
      "wire c1 = wire c @ [(net_socket n, zero_packet DISCONNECT)]" "mqtt_client_state c1 = CLIENT_STATE_CLEAN_SESSION"
      "mqtt_network c1 = Some n" "mqtt_cmd_timeout c1 = mqtt_cmd_timeout c" "handlers c1 = handlers c"
      "mqtt_msg_handler_list c1 = mqtt_msg_handler_list c" "mqtt_ack_handler_list c1 = mqtt_ack_handler_list c"
      "mqtt_thread c1 = mqtt_thread c" "thread_live c1 = thread_live c"
    using disconnect_ok [OF assms(1-4)] by blast
  define cx where "cx = close_fd (net_socket n) c1\<lparr>mqtt_network := Some (n\<lparr>net_socket := -1\<rparr>)\<rparr>"
  have cx: "client_ok cx" "closed cx = closed c1 @ [net_socket n]" "mqtt_ack_handler_list cx = mqtt_ack_handler_list c1"
      "mqtt_msg_handler_list cx = mqtt_msg_handler_list c1" "handlers cx = handlers c1"
      "mqtt_thread cx = mqtt_thread c" "thread_live cx = thread_live c"
    using d(10,11) client_ok_network [OF client_ok_same [OF same_more d(2)], of "close_fd (net_socket n) c1"]
    by (simp_all add: cx_def close_fd_def)
  define c3 where "c3 = cx\<lparr>mqtt_ack_handler_list := [], mqtt_ack_handler_number := 0, mqtt_msg_handler_list := [],
    mqtt_client_state := CLIENT_STATE_INVALID,
    handlers := (handlers cx) |` (- set (mqtt_msg_handler_list cx @ refs SUBACK (mqtt_ack_handler_list cx)))\<rparr>"
  define c2 where "c2 = c3\<lparr>thread_live := thread_live c \<and> \<not> mqtt_thread c\<rparr>"
  have "end_thread c3 = Some c2"
    using cx(6,7) assms(5) by (cases "mqtt_thread c") (simp_all add: end_thread_def c3_def c2_def)
  moreover have "mqtt_clean_session cx = Some c3" unfolding c3_def by (rule clean_session_eq [OF cx(1)])
  ultimately have t: "mqtt_yield_thread sgnd callback tail c1 = Some c2"
    using yield_clean [OF d(4)] d(5,6) assms(3)
    by (subst mqtt_yield_thread.simps) (simp add: smooth_def network_disconnect_def nettype_tcp_disconnect_def
        platform_net_socket_close_def cx_def)
  have st: "mqtt_client_state c2 = CLIENT_STATE_INVALID" by (simp add: c2_def c3_def)
  then have "release_wait env 0 (cmd_timer c2) c2 = Some (True, c2)"
    by (subst release_wait.simps) (simp add: mqtt_get_client_state_def)
  then have "mqtt_release env (Some c2) = Some (MQTT_SUCCESS_ERROR, Some (client_clear c2))"
    by (simp add: mqtt_release_def)
  with d t st cx show ?thesis by (intro exI [of _ c1] exI [of _ c2]) (simp add: c2_def c3_def)
qed

theorem disconnect_then_release_witness:
  "\<exists>c1 c2. mqtt_disconnect sample_session = Some (MQTT_SUCCESS_ERROR, c1) \<and>
    wire c1 = wire sample_session @ [(net_socket (network_zero\<lparr>net_socket := 5\<rparr>), zero_packet DISCONNECT)] \<and>
    mqtt_yield_thread True (\<lambda>_ _ c. c) (\<lambda>_ c. None) c1 = Some c2 \<and> mqtt_client_state c2 = CLIENT_STATE_INVALID \<and>
    closed c2 = closed c1 @ [net_socket (network_zero\<lparr>net_socket := 5\<rparr>)] \<and> mqtt_ack_handler_list c2 = [] \<and>
    mqtt_msg_handler_list c2 = [] \<and>
    handlers c2 = (handlers sample_session) |` (- set (mqtt_msg_handler_list sample_session @
      refs SUBACK (mqtt_ack_handler_list sample_session))) \<and>
    mqtt_thread c2 = mqtt_thread sample_session \<and>
    thread_live c2 = (thread_live sample_session \<and> \<not> mqtt_thread sample_session) \<and>
    mqtt_release (\<lambda>_ c. c) (Some c2) = Some (MQTT_SUCCESS_ERROR, Some (client_clear c2))"
  by (rule disconnect_then_release [OF calmD(1,3,4) [OF sample_session_calm] sample_session_simps(1)])
    (simp add: sample_session_thread)

text \<open>\<^bold>\<open>Property C36 (release_returns).\<close> When the clock goes on between the looks at the state, \<open>mqtt_release\<close> returns: with success
  when it sees the session cleaned, and with failure only once the command timeout has passed, the client then being
  as the other threads left it.\<close>

theorem release_returns:
  assumes "0 < d" "\<forall>i c. now_us c + d \<le> now_us (env i c)"
  shows "\<exists>c'. (mqtt_release env (Some c) = Some (MQTT_SUCCESS_ERROR, Some (client_clear c')) \<and> mqtt_client_state c' = CLIENT_STATE_INVALID \<or>
    mqtt_release env (Some c) = Some (MQTT_FAILED_ERROR, Some c') \<and> mqtt_client_state c' \<noteq> CLIENT_STATE_INVALID \<and>
      now_us c + unat (mqtt_cmd_timeout c) * 1000 \<le> now_us c') \<and>
    (\<exists>n. c' = fold (\<lambda>i c. env i c) [0..<n] c)"
proof -
  let ?t = "cmd_timer c"
  have exp: "timer_expired c' ?t \<longleftrightarrow> now_us c + unat (mqtt_cmd_timeout c) * 1000 \<le> now_us c'" for c'
    unfolding timer_expired_def cmd_timer_def timer_cutdown_def is_expired_iff [OF tv_norm_cutdown] deadline_cutdown of_nat_le_iff ..
  have "\<exists>ok c' n. release_wait env i ?t x = Some (ok, c') \<and> ok = (mqtt_client_state c' = CLIENT_STATE_INVALID) \<and>
      (ok \<or> timer_expired c' ?t) \<and> c' = fold (\<lambda>i c. env i c) [0..<n] c"
    if "x = fold (\<lambda>i c. env i c) [0..<i] c" for x i
    using that
  proof (induction "now_us c + unat (mqtt_cmd_timeout c) * 1000 - now_us x" arbitrary: x i rule: less_induct)
    case less
    show ?case
    proof (cases "mqtt_client_state x = CLIENT_STATE_INVALID \<or> timer_expired x ?t")
      case True
      with less.prems show ?thesis
        by (subst release_wait.simps) (auto simp: mqtt_get_client_state_def)
    next
      case False
      then have "now_us c + unat (mqtt_cmd_timeout c) * 1000 - now_us (env i x) < now_us c + unat (mqtt_cmd_timeout c) * 1000 - now_us x"
        using assms(1) assms(2) [rule_format, of x i] exp [of x] by linarith
      from less.hyps [OF this, of "Suc i"] less.prems False show ?thesis
        by (subst release_wait.simps) (simp add: mqtt_get_client_state_def)
    qed
  qed
  from this [of c 0] obtain ok c' n where w: "release_wait env 0 ?t c = Some (ok, c')"
      "ok = (mqtt_client_state c' = CLIENT_STATE_INVALID)" "ok \<or> timer_expired c' ?t" "c' = fold (\<lambda>i c. env i c) [0..<n] c"
    by auto
  then show ?thesis
    by (intro exI [of _ c']) (cases ok; auto simp: mqtt_release_def exp)
qed

theorem release_returns_witness:
  "\<exists>c'. (mqtt_release (\<lambda>_ c. c\<lparr>now_us := now_us c + 50000\<rparr>) (Some sample_session) =
      Some (MQTT_SUCCESS_ERROR, Some (client_clear c')) \<and> mqtt_client_state c' = CLIENT_STATE_INVALID \<or>
    mqtt_release (\<lambda>_ c. c\<lparr>now_us := now_us c + 50000\<rparr>) (Some sample_session) = Some (MQTT_FAILED_ERROR, Some c') \<and>
      mqtt_client_state c' \<noteq> CLIENT_STATE_INVALID \<and>
      now_us sample_session + unat (mqtt_cmd_timeout sample_session) * 1000 \<le> now_us c') \<and>
    (\<exists>n. c' = fold (\<lambda>i c. (\<lambda>_ c. c\<lparr>now_us := now_us c + 50000\<rparr>) i c) [0..<n] sample_session)"
  by (rule release_returns [of 50000]) simp_all

section \<open>Connecting\<close>

lemma release_network_state:
  "release_network c = Some c' \<Longrightarrow> mqtt_client_state c' = mqtt_client_state c"
  by (auto simp: release_network_def network_release_def network_disconnect_def nettype_tcp_disconnect_def
      platform_net_socket_close_def close_fd_def bind_eq_Some_conv split: if_splits)

lemma connect_exit_state:
  "connect_exit rc c = Some (rc', c') \<Longrightarrow> rc' = rc \<and>
   mqtt_client_state c' = (if rc = MQTT_SUCCESS_ERROR then CLIENT_STATE_CONNECTED else CLIENT_STATE_INITIALIZED)"
  by (auto simp: connect_exit_def platform_thread_init_def pthread_create_def alloc_eq mqtt_set_client_state_def
      bind_eq_Some_conv split: if_splits)


text \<open>A CONNACK that arrives while the client is not connected ends the wait for it.\<close>

lemma wait_connack:
  assumes "mqtt_client_state c \<noteq> CLIENT_STATE_CONNECTED" "mqtt_network c = Some n" "mqtt_read_buf c = Some buf"
    and "length buf = unat (mqtt_read_buf_size c)" "4 \<le> length buf" "prompt (rx c)"
    and "stream (rx c) = connack_packet q sp @ rest" "\<not> timer_expired c timer"
  shows "\<exists>es. connect_wait sgnd timer c = Some (uint q, c\<lparr>rx := es, mqtt_read_buf := Some (connack_packet q sp @ drop 4 buf),
      mqtt_last_received := keep_alive_timer c\<rparr>)"
proof -
  have pk: "connack_packet q sp = mk_header (msg_code CONNACK) 0 0 0 # enc_len (length [take_bit 1 sp, q]) @ [take_bit 1 sp, q]"
    by (simp add: connack_packet_def numeral_2_eq_2)
  obtain es where r: "mqtt_read_packet c = Some (MQTT_SUCCESS_ERROR, msg_code CONNACK, cmd_timer c, c\<lparr>rx := es,
      mqtt_read_buf := Some (connack_packet q sp @ drop 4 buf), mqtt_last_received := keep_alive_timer c\<rparr>)"
    using read_packet_prompt [OF assms(2-4,6,7) pk] assms(5) by auto
  have "\<not> handled (msg_code CONNACK)" by (simp add: handled_def msg_code.simps)
  with r have "mqtt_packet_handle sgnd c = Some (uint (msg_code CONNACK), cmd_timer c, c\<lparr>rx := es,
      mqtt_read_buf := Some (connack_packet q sp @ drop 4 buf), mqtt_last_received := keep_alive_timer c\<rparr>)"
    by (simp add: mqtt_packet_handle_def)
  then have "mqtt_wait_packet sgnd c (uint (msg_code CONNACK)) timer = Some (uint (msg_code CONNACK), c\<lparr>rx := es,
      mqtt_read_buf := Some (connack_packet q sp @ drop 4 buf), mqtt_last_received := keep_alive_timer c\<rparr>)"
    using assms(8) by (simp add: mqtt_wait_packet_def wait_loop.simps [of _ _ MQTT_FAILED_ERROR])
  then show ?thesis
    by (intro exI [of _ es]) (simp add: connect_wait_def read_bytes_def buf_bytes_def decode_connack_packet)
qed


lemma mqtt_connect_data_env:
  "mqtt_connect_data (c\<lparr>dns := y, mqtt_network := x\<rparr>) = mqtt_connect_data c"
  by (simp add: mqtt_connect_data_def Let_def)

lemma connect_exit_eq:
  assumes "mqtt_network c = Some n" "0 \<le> net_socket n" "allocs c = []"
  shows "\<exists>c'. connect_exit (uint (q :: u8)) c = Some (uint q, c') \<and> wire c' = wire c \<and>
    (if q = 0 then mqtt_client_state c' = CLIENT_STATE_CONNECTED \<and> mqtt_thread c' \<and>
       thread_live c' = (thread_live c \<or> \<not> mqtt_thread c) \<and> closed c' = closed c
     else mqtt_client_state c' = CLIENT_STATE_INITIALIZED \<and> closed c' = closed c @ [net_socket n])"
proof (cases "q = 0")
  case True
  with assms(3) show ?thesis
    by (cases "mqtt_thread c") (auto simp: connect_exit_def platform_thread_init_def pthread_create_def alloc_eq alloc_ok_def
        mqtt_set_client_state_def MQTT_SUCCESS_ERROR_def)
next
  case False
  then have "uint q \<noteq> MQTT_SUCCESS_ERROR" by (simp add: MQTT_SUCCESS_ERROR_def uint_0_iff)
  with False assms(1,2) show ?thesis
    by (simp add: connect_exit_def release_network_def network_release_def network_disconnect_def
        nettype_tcp_disconnect_def platform_net_socket_close_def close_fd_def mqtt_set_client_state_def)
qed

text \<open>The client after the socket is connected, with the write lock taken.\<close>

definition dialled :: "mqtt_client \<Rightarrow> network \<Rightarrow> int \<Rightarrow> addr_try list option list \<Rightarrow> mqtt_client" where
  "dialled c n fd ds = c\<lparr>dns := ds, mqtt_network := Some (n\<lparr>net_socket := fd, net_host := mqtt_host c, net_port := mqtt_port c\<rparr>),
     mqtt_last_received := keep_alive_timer c, mqtt_write_lock := True\<rparr>"

lemma connect_dialled:
  assumes "mqtt_client_state c \<noteq> CLIENT_STATE_CONNECTED" "\<not> mqtt_write_lock c"
    and "mqtt_network c = Some n" "dns c = Some (Connects fd # as) # ds" "0 \<le> fd" "mqtt_connect_data c = Some d"
  shows "mqtt_connect sgnd c = do {
      (len, c) \<leftarrow> serialize_into (dialled c n fd ds) (\<lambda>buf n. MQTTSerialize_connect buf n d);
      (rc, c) \<leftarrow>
        (if len \<le> 0 then Some (MQTT_SUCCESS_ERROR, c)
         else do {
           (rc, connect_timer, c) \<leftarrow> mqtt_send_packet c (nat len);
           if rc \<noteq> MQTT_SUCCESS_ERROR then Some (rc, c) else connect_wait sgnd connect_timer c
         });
      (rc, c) \<leftarrow> connect_exit rc c;
      Some (rc, unlock_write c) }"
proof -
  define n1 where "n1 = n\<lparr>net_socket := fd, net_host := mqtt_host c, net_port := mqtt_port c\<rparr>"
  define c1 where "c1 = c\<lparr>dns := ds, mqtt_network := Some n1\<rparr>"
  have net: "network_connect (n\<lparr>net_socket := -1, net_host := mqtt_host c, net_port := mqtt_port c\<rparr>)
      (c\<lparr>mqtt_network := Some x\<rparr>) = (MQTT_SUCCESS_ERROR, n1, c\<lparr>mqtt_network := Some x, dns := ds\<rparr>)" for x
    using assms(4,5) by (simp add: network_connect_def nettype_tcp_connect_def platform_net_socket_connect_def Let_def n1_def)
  have init: "network_init (Some n) (mqtt_host c) (mqtt_port c) =
      (MQTT_SUCCESS_ERROR, Some (n\<lparr>net_socket := -1, net_host := mqtt_host c, net_port := mqtt_port c\<rparr>))"
    by (simp add: network_init_def)
  have data: "mqtt_connect_data c1 = Some d"
    using mqtt_connect_data_env [where c = c] assms(6) by (simp add: c1_def)
  have lk: "lock_write (c1\<lparr>mqtt_last_received := keep_alive_timer c1\<rparr>) = Some (dialled c n fd ds)"
    using assms(2) by (simp add: lock_write_def dialled_def keep_alive_timer_def timer_cutdown_def c1_def n1_def)
  show ?thesis
    using assms(1,3) net data
    by (simp add: mqtt_connect_def mqtt_connect_with_results_def mqtt_get_client_state_def init lk c1_def [symmetric] Let_def)
qed

text \<open>\<^bold>\<open>Property C8 (connect_handshake).\<close> When the broker can be reached and answers with a CONNACK, connecting sends the CONNECT packet of the
  configuration over the new socket and returns the code in the CONNACK. Code zero leaves the client connected, and
  a thread is started exactly when the client had no pointer to one: a pointer left from a thread that has ended
  is taken for a running thread. Any other code closes the socket and leaves the client initialised.\<close>

theorem connect_handshake:
  assumes "client_ok c" "mqtt_client_state c \<noteq> CLIENT_STATE_CONNECTED" "\<not> mqtt_write_lock c" "smooth c" "allocs c = []"
    and "mqtt_network c = Some n" "dns c = Some (Connects fd # as) # ds" "0 \<le> fd"
    and "mqtt_connect_data c = Some d" "opts_ok d ss"
    and "MQTTPacket_len (length (connect_body d ss)) \<le> unat (mqtt_write_buf_size c)"
    and "prompt (rx c)" "stream (rx c) = connack_packet q sp @ rest" "4 \<le> unat (mqtt_read_buf_size c)"
  shows "\<exists>c'. mqtt_connect sgnd c = Some (uint q, c') \<and> wire c' = wire c @ [(fd, connect_packet d ss)] \<and>
    \<not> mqtt_write_lock c' \<and>
    (if q = 0 then mqtt_client_state c' = CLIENT_STATE_CONNECTED \<and> mqtt_thread c' \<and>
       thread_live c' = (thread_live c \<or> \<not> mqtt_thread c) \<and> closed c' = closed c
     else mqtt_client_state c' = CLIENT_STATE_INITIALIZED \<and> closed c' = closed c @ [fd])"
proof -
  define c2 where "c2 = dialled c n fd ds"
  let ?pk = "connect_packet d ss" and ?n1 = "n\<lparr>net_socket := fd, net_host := mqtt_host c, net_port := mqtt_port c\<rparr>"
  obtain wb where wb: "mqtt_write_buf c = Some wb" "length wb = unat (mqtt_write_buf_size c)"
    using client_ok_wbuf [OF assms(1)] by blast
  have rem: "length (connect_body d ss) < 268435456"
    using assms(11) assms(1) by (simp add: MQTTPacket_len_def client_ok_defs split: if_splits)
  have le: "length ?pk \<le> length wb"
    using MQTTPacket_len_upper [OF rem] assms(11) wb(2) by (simp add: connect_packet_def)
  have pos: "0 < length ?pk" by (simp add: connect_packet_def)
  have ser: "serialize_into c2 (\<lambda>buf n. MQTTSerialize_connect buf n d) =
      Some (int (length ?pk), c2\<lparr>mqtt_write_buf := Some (?pk @ drop (length ?pk) wb)\<rparr>)"
    using wb assms(10,11) le by (simp add: serialize_into_def buf_bytes_def c2_def dialled_def serialize_connect_eq emit_fits)
  define c3 where "c3 = c2\<lparr>mqtt_write_buf := Some (?pk @ drop (length ?pk) wb), wire := wire c @ [(fd, ?pk)], mqtt_last_sent := keep_alive_timer c\<rparr>"
  have send: "mqtt_send_packet (c2\<lparr>mqtt_write_buf := Some (?pk @ drop (length ?pk) wb)\<rparr>) (length ?pk) =
      Some (MQTT_SUCCESS_ERROR, cmd_timer c, c3)"
  proof -
    let ?x = "c2\<lparr>mqtt_write_buf := Some (?pk @ drop (length ?pk) wb)\<rparr>"
    have "mqtt_network ?x = Some ?n1" "length ?pk \<le> length (buf_bytes (mqtt_write_buf ?x))" "tx ?x = []" "0 < mqtt_cmd_timeout ?x"
      using assms(4) by (simp_all add: c2_def dialled_def buf_bytes_def smooth_def)
    from send_packet_smooth [OF this pos] show ?thesis
      by (simp add: c3_def c2_def dialled_def buf_bytes_def keep_alive_timer_def cmd_timer_def timer_cutdown_def)
  qed
  obtain rb where rb: "mqtt_read_buf c = Some rb" "length rb = unat (mqtt_read_buf_size c)"
    using assms(1) by (auto simp: client_ok_defs)
  have live: "\<not> timer_expired c3 (cmd_timer c)"
    using assms(4) by (intro cmd_timer_live) (simp_all add: smooth_def c3_def c2_def dialled_def)
  obtain es where wt: "connect_wait sgnd (cmd_timer c) c3 = Some (uint q, c3\<lparr>rx := es,
      mqtt_read_buf := Some (connack_packet q sp @ drop 4 rb), mqtt_last_received := keep_alive_timer c3\<rparr>)"
    using wait_connack [of c3 ?n1 rb q sp rest "cmd_timer c" sgnd] assms(2,12-14) rb live
    by (auto simp: c3_def c2_def dialled_def)
  define c4 where "c4 = c3\<lparr>rx := es, mqtt_read_buf := Some (connack_packet q sp @ drop 4 rb), mqtt_last_received := keep_alive_timer c3\<rparr>"
  have c4: "mqtt_network c4 = Some ?n1" "0 \<le> net_socket ?n1" "allocs c4 = []" "closed c4 = closed c"
      "wire c4 = wire c @ [(fd, ?pk)]" "mqtt_thread c4 = mqtt_thread c" "thread_live c4 = thread_live c"
    using assms(5,8) by (simp_all add: c4_def c3_def c2_def dialled_def)
  obtain c5 where c5: "connect_exit (uint q) c4 = Some (uint q, c5)" "wire c5 = wire c4"
      "if q = 0 then mqtt_client_state c5 = CLIENT_STATE_CONNECTED \<and> mqtt_thread c5 \<and>
         thread_live c5 = (thread_live c4 \<or> \<not> mqtt_thread c4) \<and> closed c5 = closed c4
       else mqtt_client_state c5 = CLIENT_STATE_INITIALIZED \<and> closed c5 = closed c4 @ [fd]"
    using connect_exit_eq [OF c4(1-3), of q] by auto
  have "mqtt_connect sgnd c = Some (uint q, unlock_write c5)"
    using connect_dialled [OF assms(2,3,6-9), of sgnd] ser send wt c5(1) pos by (simp add: c2_def [symmetric] c4_def)
  then show ?thesis
    using c5(2,3) c4(4-7) by (intro exI [of _ "unlock_write c5"]) (simp add: unlock_write_def)
qed

text \<open>A client that can connect, and the broker's answer.\<close>

definition sample_dialling :: mqtt_client where
  "sample_dialling = sample_session\<lparr>mqtt_client_state := CLIENT_STATE_INITIALIZED, mqtt_version := 4,
     mqtt_thread := False, thread_live := False,
     dns := [Some [Connects 7]], rx := [Rx 0 [0x20, 2], Rx 0 [0, 0]]\<rparr>"

lemma sample_dialling_ok: "client_ok sample_dialling" "smooth sample_dialling" "\<not> mqtt_write_lock sample_dialling"
    "mqtt_network sample_dialling = Some (network_zero\<lparr>net_socket := 5\<rparr>)" "dns sample_dialling = [Some [Connects 7]]"
    "mqtt_client_state sample_dialling \<noteq> CLIENT_STATE_CONNECTED" "allocs sample_dialling = []"
    "mqtt_write_buf_size sample_dialling = 16" "mqtt_read_buf_size sample_dialling = 8"
  using sample_session_ok calmD(4,5) [OF sample_session_calm]
  by (simp_all add: sample_dialling_def client_ok_defs sample_session_simps smooth_def)

theorem connect_handshake_witness:
  "\<exists>c'. mqtt_connect True sample_dialling = Some (uint (0 :: u8), c') \<and>
    wire c' = wire sample_dialling @ [(7, connect_packet (the (mqtt_connect_data sample_dialling))
      \<lparr>cs_client = [], cs_topic = [], cs_message = [], cs_user = [], cs_pass = []\<rparr>)] \<and>
    \<not> mqtt_write_lock c' \<and>
    (if (0 :: u8) = 0 then mqtt_client_state c' = CLIENT_STATE_CONNECTED \<and> mqtt_thread c' \<and>
       thread_live c' = (thread_live sample_dialling \<or> \<not> mqtt_thread sample_dialling) \<and> closed c' = closed sample_dialling
     else mqtt_client_state c' = CLIENT_STATE_INITIALIZED \<and> closed c' = closed sample_dialling @ [7])"
  by (rule connect_handshake [OF sample_dialling_ok(1,6,3,2,7,4,5), of _ _ 0 0 "[]"]) code_simp+

text \<open>When the CONNECT packet does not fit the write buffer, nothing is sent, yet
  the return code left over from opening the socket is taken for the broker's answer: connect returns success and the client counts as connected.\<close>

theorem connect_too_long_succeeds:
  assumes "client_ok c" "mqtt_client_state c \<noteq> CLIENT_STATE_CONNECTED" "\<not> mqtt_write_lock c" "allocs c = []"
    and "mqtt_network c = Some n" "dns c = Some (Connects fd # as) # ds" "0 \<le> fd"
    and "mqtt_connect_data c = Some d" "opts_ok d ss"
    and "unat (mqtt_write_buf_size c) < MQTTPacket_len (length (connect_body d ss))"
  shows "\<exists>c'. mqtt_connect sgnd c = Some (MQTT_SUCCESS_ERROR, c') \<and> wire c' = wire c \<and>
    mqtt_client_state c' = CLIENT_STATE_CONNECTED"
proof -
  let ?c2 = "dialled c n fd ds"
  obtain wb where wb: "mqtt_write_buf c = Some wb" "length wb = unat (mqtt_write_buf_size c)"
    using client_ok_wbuf [OF assms(1)] by blast
  have ser: "serialize_into ?c2 (\<lambda>buf n. MQTTSerialize_connect buf n d) = Some (BUFFER_TOO_SHORT, ?c2)"
    using wb assms(9,10) by (simp add: serialize_into_def buf_bytes_def dialled_def serialize_connect_eq)
  obtain c5 where c5: "connect_exit (uint (0 :: u8)) ?c2 = Some (uint (0 :: u8), c5)" "wire c5 = wire ?c2"
      "mqtt_client_state c5 = CLIENT_STATE_CONNECTED"
    using connect_exit_eq [of ?c2 _ 0] assms(4,7) by (auto simp: dialled_def)
  have "mqtt_connect sgnd c = Some (MQTT_SUCCESS_ERROR, unlock_write c5)"
    using connect_dialled [OF assms(2,3,5-8), of sgnd] ser c5(1) by (simp add: BUFFER_TOO_SHORT_def MQTT_SUCCESS_ERROR_def)
  with c5(2,3) show ?thesis
    by (intro exI [of _ "unlock_write c5"]) (simp add: unlock_write_def dialled_def)
qed

theorem connect_too_long_succeeds_witness:
  "\<exists>c'. mqtt_connect True (sample_dialling\<lparr>mqtt_client_id := Some [1, 2, 3, 4]\<rparr>) = Some (MQTT_SUCCESS_ERROR, c') \<and>
    wire c' = wire (sample_dialling\<lparr>mqtt_client_id := Some [1, 2, 3, 4]\<rparr>) \<and> mqtt_client_state c' = CLIENT_STATE_CONNECTED"
proof (rule connect_too_long_succeeds)
  let ?c = "sample_dialling\<lparr>mqtt_client_id := Some [1, 2, 3, 4]\<rparr>"
  show "client_ok ?c" using sample_dialling_ok(1) by (simp add: client_ok_defs)
  show "mqtt_client_state ?c \<noteq> CLIENT_STATE_CONNECTED" "\<not> mqtt_write_lock ?c" "allocs ?c = []"
    "mqtt_network ?c = Some (network_zero\<lparr>net_socket := 5\<rparr>)" "dns ?c = Some (Connects 7 # []) # []"
    using sample_dialling_ok by simp_all
  show "(0 :: int) \<le> 7" by simp
  show "mqtt_connect_data ?c = Some (the (mqtt_connect_data ?c))"
    "opts_ok (the (mqtt_connect_data ?c)) \<lparr>cs_client = [1, 2, 3, 4], cs_topic = [], cs_message = [], cs_user = [], cs_pass = []\<rparr>"
    "unat (mqtt_write_buf_size ?c) < MQTTPacket_len (length (connect_body (the (mqtt_connect_data ?c))
       \<lparr>cs_client = [1, 2, 3, 4], cs_topic = [], cs_message = [], cs_user = [], cs_pass = []\<rparr>))"
    by code_simp+
qed

end
