(* ===== verification/Client_Threads.thy ===== *)
theory Client_Threads
  imports Client_Lifecycle Client_Requests
begin

text \<open>
  The write buffer and its lock, with several threads. A request of the application, an acknowledgement
  and a retransmission take the write lock, write a packet into the buffer, send it, and let the lock go; here each of these parts is a step
  of its own, so that the steps of different threads interleave. A thread is outside, holds the lock, or has a packet
  in the buffer. What a thread does with the rest of the client, and what reading does, is a step that leaves
  the buffer and the lock alone. The keep-alive round of the background thread writes its packet without the
  lock; the step relation has it or not by its first argument.
\<close>

section \<open>Steps\<close>

datatype phase = Outside | Locked | Filled nat bytes

type_synonym threads = "mqtt_client \<times> (nat \<Rightarrow> phase)"

inductive wstep :: "bool \<Rightarrow> threads \<Rightarrow> threads \<Rightarrow> bool" for pings :: bool where
  take_lock: "ph i = Outside \<Longrightarrow> lock_write c = Some c' \<Longrightarrow> wstep pings (c, ph) (c', ph(i := Locked))"
| fill: "ph i \<noteq> Outside \<Longrightarrow> serialize_into c f = Some (len, c') \<Longrightarrow>
    wstep pings (c, ph) (c', ph(i := Filled (nat len) (take (nat len) (buf_bytes (mqtt_write_buf c')))))"
| send: "ph i = Filled n pk \<Longrightarrow> mqtt_send_packet c n = Some (rc, t, c') \<Longrightarrow> wstep pings (c, ph) (c', ph)"
| mark: "ph i = Filled n pk \<Longrightarrow> mqtt_set_publish_dup c d = Some (rc, c') \<Longrightarrow>
    wstep pings (c, ph) (c', ph(i := Filled n (take n (buf_bytes (mqtt_write_buf c')))))"
| let_go: "ph i \<noteq> Outside \<Longrightarrow> wstep pings (c, ph) (unlock_write c, ph(i := Outside))"
| other: "mqtt_write_buf c' = mqtt_write_buf c \<Longrightarrow> mqtt_write_lock c' = mqtt_write_lock c \<Longrightarrow> wstep pings (c, ph) (c', ph)"
| ping: "pings \<Longrightarrow> mqtt_keep_alive c = Some (rc, c') \<Longrightarrow> wstep pings (c, ph) (c', ph)"

inductive_cases wstepE: "wstep pings (c, ph) s"

section \<open>Mutual exclusion\<close>

text \<open>At most one thread is inside, the lock says whether there is one, and the packet it has put into the buffer
  is still there.\<close>

definition writers_ok :: "threads \<Rightarrow> bool" where
  "writers_ok s \<longleftrightarrow> (case s of (c, ph) \<Rightarrow>
     (\<forall>i j. ph i \<noteq> Outside \<longrightarrow> ph j \<noteq> Outside \<longrightarrow> i = j) \<and>
     (mqtt_write_lock c \<longleftrightarrow> (\<exists>i. ph i \<noteq> Outside)) \<and>
     (\<forall>i n pk. ph i = Filled n pk \<longrightarrow> take n (buf_bytes (mqtt_write_buf c)) = pk))"

lemma send_packet_frame:
  assumes "mqtt_send_packet c n = Some (rc, t, c')"
  shows "mqtt_write_buf c' = mqtt_write_buf c \<and> mqtt_write_lock c' = mqtt_write_lock c"
proof -
  obtain k x where x: "send_loop n 0 (cmd_timer c) c = Some (k, x)" "c' = x \<or> (\<exists>u. c' = x\<lparr>mqtt_last_sent := u\<rparr>)"
    using assms by (auto simp: mqtt_send_packet_def Let_def bind_eq_Some_conv split: if_splits)
  from same_fields [OF same_more [OF send_loop_frame [OF x(1)]]] x(2) show ?thesis by auto
qed

lemma lock_write_Some: "lock_write c = Some c' \<longleftrightarrow> \<not> mqtt_write_lock c \<and> c' = c\<lparr>mqtt_write_lock := True\<rparr>"
  by (auto simp: lock_write_def)

lemma serialize_lock: "serialize_into c f = Some (len, c') \<Longrightarrow> mqtt_write_lock c' = mqtt_write_lock c"
  by (auto simp: serialize_into_def bind_eq_Some_conv)

lemma set_dup_lock: "mqtt_set_publish_dup c d = Some (rc, c') \<Longrightarrow> mqtt_write_lock c' = mqtt_write_lock c"
  by (auto simp: mqtt_set_publish_dup_def bind_eq_Some_conv split: option.splits if_splits)

lemma writers_fill:
  assumes "writers_ok (c, ph)" "ph i \<noteq> Outside" "mqtt_write_lock c' = mqtt_write_lock c"
  shows "writers_ok (c', ph(i := Filled n (take n (buf_bytes (mqtt_write_buf c')))))"
proof -
  have "ph j = Outside" if "j \<noteq> i" for j using assms(1,2) that by (auto simp: writers_ok_def)
  moreover have "mqtt_write_lock c" using assms(1,2) by (auto simp: writers_ok_def)
  ultimately show ?thesis using assms(3) by (auto simp: writers_ok_def split: if_splits)
qed

lemma wstep_keeps:
  assumes "wstep False s s'" "writers_ok s"
  shows "writers_ok s'"
  using assms
proof cases
  case take_lock
  with assms(2) show ?thesis by (auto simp: writers_ok_def lock_write_Some)
next
  case fill
  with assms(2) serialize_lock [OF fill(4)] show ?thesis by (simp add: writers_fill)
next
  case send
  with assms(2) send_packet_frame [OF send(4)] show ?thesis by (simp add: writers_ok_def)
next
  case mark
  with assms(2) set_dup_lock [OF mark(4)] show ?thesis by (simp add: writers_fill)
next
  case let_go
  with assms(2) show ?thesis by (auto simp: writers_ok_def unlock_write_def)
next
  case other
  with assms(2) show ?thesis by (simp add: writers_ok_def)
qed simp

lemma wsteps_keep: "(wstep False)\<^sup>*\<^sup>* s s' \<Longrightarrow> writers_ok s \<Longrightarrow> writers_ok s'"
  by (induction rule: rtranclp_induct) (auto intro: wstep_keeps)

section \<open>Requests are runs of one thread\<close>

text \<open>Thread \<open>i\<close>, which was outside, has come to \<open>p\<close> by steps that are its own.\<close>

definition path :: "mqtt_client \<Rightarrow> (nat \<Rightarrow> phase) \<Rightarrow> nat \<Rightarrow> phase \<Rightarrow> mqtt_client \<Rightarrow> bool" where
  "path c0 ph i p c \<longleftrightarrow> (wstep False)\<^sup>*\<^sup>* (c0, ph) (c, ph(i := p))"

named_theorems route \<open>the steps of a thread\<close>

lemma path_start: "ph i = Outside \<Longrightarrow> path c ph i Outside c"
  by (simp add: path_def fun_upd_idem)

lemma path_step:
  "path c0 ph i p c \<Longrightarrow> wstep False (c, ph(i := p)) (c', (ph(i := p))(i := q)) \<Longrightarrow> path c0 ph i q c'"
  by (simp add: path_def)

lemma path_other:
  "path c0 ph i p c \<Longrightarrow> mqtt_write_buf c' = mqtt_write_buf c \<Longrightarrow> mqtt_write_lock c' = mqtt_write_lock c \<Longrightarrow> path c0 ph i p c'"
  by (erule path_step) (simp add: wstep.other)

lemma path_lock [route]:
  assumes "path c0 ph i Outside c" "\<And>c'. path c0 ph i Locked c' \<Longrightarrow> Q c'"
  shows "valid (lock_write c) Q"
proof (rule valid_pure)
  fix c'
  assume "lock_write c = Some c'"
  then have "path c0 ph i Locked c'" by (intro path_step [OF assms(1)] wstep.take_lock) simp_all
  then show "Q c'" by (rule assms(2))
qed

lemma path_fill [route]:
  assumes "path c0 ph i p c" "p \<noteq> Outside" "\<And>len c' pk. path c0 ph i (Filled (nat len) pk) c' \<Longrightarrow> Q (len, c')"
  shows "valid (serialize_into c f) Q"
proof (rule valid_pure)
  fix r
  assume r: "serialize_into c f = Some r"
  obtain len c' where lc: "r = (len, c')" by (cases r)
  have "path c0 ph i (Filled (nat len) (take (nat len) (buf_bytes (mqtt_write_buf c')))) c'"
    by (rule path_step [OF assms(1)], rule wstep.fill) (use assms(2) r lc in auto)
  with assms(3) lc show "Q r" by simp
qed

lemma path_send [route]:
  assumes "path c0 ph i (Filled n pk) c" "\<And>rc t c'. path c0 ph i (Filled n pk) c' \<Longrightarrow> Q (rc, t, c')"
  shows "valid (mqtt_send_packet c n) Q"
proof (rule valid_pure)
  fix r
  assume r: "mqtt_send_packet c n = Some r"
  obtain rc t c' where c': "r = (rc, t, c')" by (cases r)
  have "wstep False (c, ph(i := Filled n pk)) (c', ph(i := Filled n pk))"
    by (rule wstep.send [of _ i n pk]) (use r c' in auto)
  from path_step [OF assms(1), of c' "Filled n pk"] this have "path c0 ph i (Filled n pk) c'" by simp
  with assms(2) c' show "Q r" by simp
qed

lemma path_mark [route]:
  assumes "path c0 ph i (Filled n pk) c" "\<And>rc c' pk. path c0 ph i (Filled n pk) c' \<Longrightarrow> Q (rc, c')"
  shows "valid (mqtt_set_publish_dup c d) Q"
proof (rule valid_pure)
  fix r
  assume r: "mqtt_set_publish_dup c d = Some r"
  obtain rc c' where c': "r = (rc, c')" by (cases r)
  have "path c0 ph i (Filled n (take n (buf_bytes (mqtt_write_buf c')))) c'"
    by (rule path_step [OF assms(1)], rule wstep.mark [of _ _ _ pk]) (use r c' in auto)
  with assms(2) c' show "Q r" by simp
qed

lemma path_unlock: "path c0 ph i p c \<Longrightarrow> p \<noteq> Outside \<Longrightarrow> path c0 ph i Outside (unlock_write c)"
  by (erule path_step) (rule wstep.let_go, simp)

lemma path_record [route]:
  assumes "path c0 ph i p c" "\<And>rc c'. path c0 ph i p c' \<Longrightarrow> Q (rc, c')"
  shows "valid (mqtt_ack_list_record c t pid n h) Q"
  by (auto simp: mqtt_ack_list_record_def mqtt_ack_handler_create_def alloc_eq Let_def mqtt_add_ack_handler_num_def
      split: option.splits intro!: valid_pure [of "rd_block _ _ _"] assms(2) path_other [OF assms(1)])

lemma path_release [route]:
  assumes "path c0 ph i p c" "\<And>c'. path c0 ph i p c' \<Longrightarrow> Q c'"
  shows "valid (release_network c) Q"
  by (auto simp: release_network_def network_release_def network_disconnect_def nettype_tcp_disconnect_def
      platform_net_socket_close_def close_fd_def Let_def intro!: valid_pure [of "mqtt_network c"] assms(2) path_other [OF assms(1)])

lemma path_next_id: "path c0 ph i p c \<Longrightarrow> path c0 ph i p (snd (mqtt_get_next_packet_id c))"
  by (auto simp: mqtt_get_next_packet_id_def Let_def elim: path_other)

lemma path_create: "path c0 ph i p c \<Longrightarrow> path c0 ph i p (snd (mqtt_msg_handler_create c f q h))"
  by (auto simp: mqtt_msg_handler_create_def alloc_eq Let_def elim: path_other)

lemma path_set_state: "path c0 ph i p c \<Longrightarrow> path c0 ph i p (mqtt_set_client_state c s)"
  by (auto simp: mqtt_set_client_state_def elim: path_other)

lemmas path_intros = path_unlock path_next_id path_create path_set_state

lemma send_ack_route [route]:
  "path c0 ph i (Filled (nat len) pk) c \<Longrightarrow> (\<And>rc c'. path c0 ph i (Filled (nat len) pk) c' \<Longrightarrow> Q (rc, c')) \<Longrightarrow>
   valid (send_ack c len) Q"
  by (auto simp: send_ack_def intro!: route)

lemma publish_locked_route [route]:
  "path c0 ph i Locked c \<Longrightarrow> (\<And>rc m p c'. path c0 ph i p c' \<Longrightarrow> p \<noteq> Outside \<Longrightarrow> Q (rc, m, c')) \<Longrightarrow>
   valid (publish_locked c f m) Q"
  by (auto simp: publish_locked_def Let_def case_prod_unfold intro!: route path_intros)

lemma publish_route:
  "path c0 ph i Outside c \<Longrightarrow> valid (mqtt_publish c f m) (\<lambda>(rc, m, c'). path c0 ph i Outside c')"
  by (auto simp: mqtt_publish_def Let_def case_prod_unfold split: option.splits
      intro!: route path_intros valid_pure [of "strlen_at _"])

lemma subscribe_route:
  "path c0 ph i Outside c \<Longrightarrow> valid (mqtt_subscribe c f q h) (\<lambda>(rc, c'). path c0 ph i Outside c')"
  by (auto simp: mqtt_subscribe_def Let_def case_prod_unfold split: option.splits intro!: route path_intros)

lemma unsubscribe_route:
  "path c0 ph i Outside c \<Longrightarrow> valid (mqtt_unsubscribe c f) (\<lambda>(rc, c'). path c0 ph i Outside c')"
  by (auto simp: mqtt_unsubscribe_def Let_def case_prod_unfold split: option.splits
      intro!: route path_intros valid_pure [of "mqtt_get_msg_handler _ _"])

lemma disconnect_route:
  "path c0 ph i Outside c \<Longrightarrow> valid (mqtt_disconnect c) (\<lambda>(rc, c'). path c0 ph i Outside c')"
  by (auto simp: mqtt_disconnect_def intro!: route path_intros)

lemma send_ack_qos_route:
  "path c0 ph i Outside c \<Longrightarrow> valid (publish_send_ack c q pid t) (\<lambda>(rc, len, t, c'). path c0 ph i Outside c')"
  by (auto simp: publish_send_ack_def intro!: route path_intros)

lemma ack_packet_route:
  "path c0 ph i Outside c \<Longrightarrow> valid (mqtt_publish_ack_packet c pid ty) (\<lambda>(rc, c'). path c0 ph i Outside c')"
  by (auto simp: mqtt_publish_ack_packet_def intro!: route path_intros) (assumption | simp)+

lemma resend_route:
  assumes "path c0 ph i Outside c"
  shows "valid (mqtt_ack_handler_resend c a) (\<lambda>(a, c'). path c0 ph i Outside c')"
proof -
  have fill: "valid (write_bytes (buf_bytes (mqtt_write_buf c'), 0) xs) R"
    if "path c0 ph i Locked c'" "rd_block pl 0 n = Some xs"
      "\<And>b k pk. path c0 ph i (Filled n pk) (c'\<lparr>mqtt_write_buf := map_option (\<lambda>_. b) (mqtt_write_buf c')\<rparr>) \<Longrightarrow> R (b, k)"
    for c' xs R pl n
  proof (rule valid_pure)
    fix r
    assume w: "write_bytes (buf_bytes (mqtt_write_buf c'), 0) xs = Some r"
    obtain b k where r: "r = (b, k)" by (cases r)
    have "serialize_into c' (\<lambda>buf n. emit buf xs) =
        Some (int (length xs), c'\<lparr>mqtt_write_buf := map_option (\<lambda>_. b) (mqtt_write_buf c')\<rparr>)"
      using w r by (auto simp: serialize_into_def emit_def write_bytes_def split: if_splits)
    moreover have "valid (serialize_into c' (\<lambda>buf n. emit buf xs))
        (\<lambda>(len, c2). len = int (length xs) \<longrightarrow> (\<exists>pk. path c0 ph i (Filled n pk) c2))"
      by (rule path_fill [OF that(1)]) (use rd_block_length [OF that(2)] in auto)
    ultimately show "R r" using that(3) r by auto
  qed
  show ?thesis
    using assms
    by (auto simp: mqtt_ack_handler_resend_def Let_def
        intro!: route path_intros valid_pure [of "rd_block _ _ _"] fill)
qed

section \<open>Properties\<close>

text \<open>A request that returns took only steps of its own thread, and left it outside.\<close>

theorem requests_are_runs:
  assumes "ph i = Outside"
  shows "valid (mqtt_publish c f m) (\<lambda>(_, _, c'). (wstep False)\<^sup>*\<^sup>* (c, ph) (c', ph))"
    and "valid (mqtt_subscribe c f q h) (\<lambda>(_, c'). (wstep False)\<^sup>*\<^sup>* (c, ph) (c', ph))"
    and "valid (mqtt_unsubscribe c f) (\<lambda>(_, c'). (wstep False)\<^sup>*\<^sup>* (c, ph) (c', ph))"
    and "valid (mqtt_disconnect c) (\<lambda>(_, c'). (wstep False)\<^sup>*\<^sup>* (c, ph) (c', ph))"
    and "valid (publish_send_ack c q pid t) (\<lambda>(_, _, _, c'). (wstep False)\<^sup>*\<^sup>* (c, ph) (c', ph))"
    and "valid (mqtt_publish_ack_packet c pid ty) (\<lambda>(_, c'). (wstep False)\<^sup>*\<^sup>* (c, ph) (c', ph))"
    and "valid (mqtt_ack_handler_resend c a) (\<lambda>(_, c'). (wstep False)\<^sup>*\<^sup>* (c, ph) (c', ph))"
proof -
  have p: "path c ph i Outside x = (wstep False)\<^sup>*\<^sup>* (c, ph) (x, ph)" for x
    using assms by (simp add: path_def fun_upd_idem)
  note s = path_start [where ph = ph and i = i and c = c, OF assms]
  note r = publish_route [OF s] subscribe_route [OF s] unsubscribe_route [OF s] disconnect_route [OF s]
    send_ack_qos_route [OF s] ack_packet_route [OF s] resend_route [OF s]
  show "valid (mqtt_publish c f m) (\<lambda>(_, _, c'). (wstep False)\<^sup>*\<^sup>* (c, ph) (c', ph))" using r(1) by (simp add: p)
  show "valid (mqtt_subscribe c f q h) (\<lambda>(_, c'). (wstep False)\<^sup>*\<^sup>* (c, ph) (c', ph))" using r(2) by (simp add: p)
  show "valid (mqtt_unsubscribe c f) (\<lambda>(_, c'). (wstep False)\<^sup>*\<^sup>* (c, ph) (c', ph))" using r(3) by (simp add: p)
  show "valid (mqtt_disconnect c) (\<lambda>(_, c'). (wstep False)\<^sup>*\<^sup>* (c, ph) (c', ph))" using r(4) by (simp add: p)
  show "valid (publish_send_ack c q pid t) (\<lambda>(_, _, _, c'). (wstep False)\<^sup>*\<^sup>* (c, ph) (c', ph))" using r(5) by (simp add: p)
  show "valid (mqtt_publish_ack_packet c pid ty) (\<lambda>(_, c'). (wstep False)\<^sup>*\<^sup>* (c, ph) (c', ph))" using r(6) by (simp add: p)
  show "valid (mqtt_ack_handler_resend c a) (\<lambda>(_, c'). (wstep False)\<^sup>*\<^sup>* (c, ph) (c', ph))" using r(7) by (simp add: p)
qed


text \<open>The sample client with the lock taken and a packet in its buffer.\<close>

definition sample_filled :: mqtt_client where
  "sample_filled = sample_session\<lparr>mqtt_write_lock := True,
     mqtt_write_buf := Some (zero_packet DISCONNECT @ drop 2 (buf_bytes (mqtt_write_buf sample_session)))\<rparr>"

lemma sample_filled_run: "(wstep False)\<^sup>*\<^sup>* (sample_session, \<lambda>_. Outside) (sample_filled, (\<lambda>_. Outside)(1 := Filled 2 [0xE0, 0]))"
proof -
  let ?ph = "\<lambda>_::nat. Outside"
  let ?c1 = "sample_session\<lparr>mqtt_write_lock := True\<rparr>"
  obtain wb where wb: "mqtt_write_buf sample_session = Some wb" "length wb = unat (mqtt_write_buf_size sample_session)" "4 \<le> length wb"
    using client_ok_wbuf [OF sample_session_ok] by blast
  have "\<not> mqtt_write_lock sample_session" by code_simp
  then have l: "lock_write sample_session = Some ?c1" by (simp add: lock_write_def)
  have f: "serialize_into ?c1 MQTTSerialize_disconnect = Some (2, sample_filled)"
    using wb by (simp add: serialize_into_def disconnect_eq emit_fits buf_bytes_def sample_filled_def)
  have t: "take (nat 2) (buf_bytes (mqtt_write_buf sample_filled)) = [0xE0, 0]" by code_simp
  have "wstep False (sample_session, ?ph) (?c1, ?ph(1 := Locked))" by (rule wstep.take_lock) (simp_all add: l)
  moreover have "wstep False (?c1, ?ph(1 := Locked)) (sample_filled, ?ph(1 := Filled 2 [0xE0, 0]))"
    using wstep.fill [of "?ph(1 := Locked)" 1 ?c1 _ 2 sample_filled False, OF _ f] t by simp
  ultimately show ?thesis by (rule converse_rtranclp_into_rtranclp [OF _ r_into_rtranclp])
qed


text \<open>\<^bold>\<open>Property C20 (keep_alive_tears_packet).\<close> The keep-alive round does not take the lock. When the background thread runs it
  between the moment a thread has put its packet into the buffer and the moment it sends it, the broker gets
  PINGREQ and then, in place of the packet, a PINGREQ followed by the rest of the packet, and the thread is told that
  its packet was sent.\<close>

theorem keep_alive_tears_packet:
  assumes "calm c" "mqtt_network c = Some n" "mqtt_ping_outstanding c = 0" "timer_expired c (mqtt_last_received c)"
    and "2 \<le> length pk" "length pk \<le> unat (mqtt_write_buf_size c)"
    and "\<And>buf. length buf = unat (mqtt_write_buf_size c) \<Longrightarrow>
      f buf (unat (mqtt_write_buf_size c)) = Some (int (length pk), pk @ drop (length pk) buf)"
  shows "\<exists>c1 c2 c3 c4 t. lock_write c = Some c1 \<and> serialize_into c1 f = Some (int (length pk), c2) \<and>
    take (length pk) (buf_bytes (mqtt_write_buf c2)) = pk \<and>
    mqtt_keep_alive c2 = Some (MQTT_SUCCESS_ERROR, c3) \<and>
    mqtt_send_packet c3 (length pk) = Some (MQTT_SUCCESS_ERROR, t, c4) \<and>
    wire c4 = wire c @ [(net_socket n, zero_packet PINGREQ), (net_socket n, zero_packet PINGREQ @ drop 2 pk)]"
proof -
  note r = calmD [OF assms(1)]
  obtain wb where wb: "mqtt_write_buf c = Some wb" "length wb = unat (mqtt_write_buf_size c)"
    using client_ok_wbuf [OF r(1)] by blast
  define c1 where "c1 = c\<lparr>mqtt_write_lock := True\<rparr>"
  define c2 where "c2 = c1\<lparr>mqtt_write_buf := Some (pk @ drop (length pk) wb)\<rparr>"
  define pb where "pb = zero_packet PINGREQ @ drop 2 (pk @ drop (length pk) wb)"
  define c3 where "c3 = c2\<lparr>mqtt_write_buf := Some pb, wire := wire c @ [(net_socket n, zero_packet PINGREQ)],
    mqtt_last_sent := keep_alive_timer c, mqtt_ping_outstanding := 1\<rparr>"
  have len: "length pb = length wb" using assms(5,6) wb(2) by (simp add: pb_def)
  have sm: "tx c = []" "0 < mqtt_cmd_timeout c" using r(4) by (simp_all add: smooth_def)
  have ne: "pk \<noteq> []" using assms(5) by auto
  have c3: "mqtt_network c3 = Some n" "tx c3 = []" "0 < mqtt_cmd_timeout c3" "mqtt_write_buf c3 = Some pb"
    using assms(2) sm by (simp_all add: c3_def c2_def c1_def)
  have kt: "keep_alive_timer (c2\<lparr>mqtt_write_buf := Some pb\<rparr>) = keep_alive_timer c"
    by (simp add: keep_alive_timer_def timer_cutdown_def c2_def c1_def)
  have "lock_write c = Some c1" using r(3) by (simp add: lock_write_def c1_def)
  moreover have "serialize_into c1 f = Some (int (length pk), c2)"
    using assms(7) [OF wb(2)] wb(1) by (simp add: serialize_into_def buf_bytes_def c2_def c1_def)
  moreover have "mqtt_keep_alive c2 = Some (MQTT_SUCCESS_ERROR, c3)"
  proof -
    have "4 \<le> unat (mqtt_write_buf_size c)" using r(1) by (auto simp: client_ok_defs)
    then have s: "serialize_into c2 MQTTSerialize_pingreq = Some (2, c2\<lparr>mqtt_write_buf := Some pb\<rparr>)"
      using assms(6) wb(2)
      by (simp add: serialize_into_def pingreq_eq emit_fits buf_bytes_def pb_def c2_def c1_def)
    have "mqtt_send_packet (c2\<lparr>mqtt_write_buf := Some pb\<rparr>) 2 =
        Some (MQTT_SUCCESS_ERROR, cmd_timer (c2\<lparr>mqtt_write_buf := Some pb\<rparr>), c3\<lparr>mqtt_ping_outstanding := 0\<rparr>)"
      using send_packet_smooth [of "c2\<lparr>mqtt_write_buf := Some pb\<rparr>" n 2] assms(2,3,5) sm len wb(2) kt
      by (simp add: buf_bytes_def c3_def c2_def c1_def pb_def)
    with s assms(3,4) r(2) show ?thesis
      by (simp add: mqtt_keep_alive_def mqtt_is_connected_def mqtt_get_client_state_def timer_expired_def c3_def c2_def c1_def)
  qed
  moreover have "mqtt_send_packet c3 (length pk) = Some (MQTT_SUCCESS_ERROR, cmd_timer c3,
      c3\<lparr>wire := wire c3 @ [(net_socket n, take (length pk) pb)], mqtt_last_sent := keep_alive_timer c3\<rparr>)"
    using send_packet_smooth [OF c3(1) _ c3(2,3), of "length pk"] c3(4) ne assms(6) len wb(2)
    by (simp add: buf_bytes_def)
  moreover have "take (length pk) pb = zero_packet PINGREQ @ drop 2 pk" using assms(5) by (simp add: pb_def)
  moreover have "wire c3 = wire c @ [(net_socket n, zero_packet PINGREQ)]" by (simp add: c3_def)
  moreover have "take (length pk) (buf_bytes (mqtt_write_buf c2)) = pk" by (simp add: c2_def buf_bytes_def)
  ultimately show ?thesis by fastforce
qed

theorem keep_alive_tears_packet_witness:
  "\<exists>c1 c2 c3 c4 t. lock_write sample_session = Some c1 \<and>
    serialize_into c1 (\<lambda>buf n. MQTTSerialize_ack buf n PUBACK 0 7) = Some (int (length (ack_packet PUBACK 0 7)), c2) \<and>
    take (length (ack_packet PUBACK 0 7)) (buf_bytes (mqtt_write_buf c2)) = ack_packet PUBACK 0 7 \<and>
    mqtt_keep_alive c2 = Some (MQTT_SUCCESS_ERROR, c3) \<and>
    mqtt_send_packet c3 (length (ack_packet PUBACK 0 7)) = Some (MQTT_SUCCESS_ERROR, t, c4) \<and>
    wire c4 = wire sample_session @ [(net_socket (network_zero\<lparr>net_socket := 5\<rparr>), zero_packet PINGREQ),
      (net_socket (network_zero\<lparr>net_socket := 5\<rparr>), zero_packet PINGREQ @ drop 2 (ack_packet PUBACK 0 7))]"
proof (rule keep_alive_tears_packet [OF sample_session_calm sample_session_simps(1)])
  have four: "4 \<le> unat (mqtt_write_buf_size sample_session)" by code_simp
  then show "length (ack_packet PUBACK 0 7) \<le> unat (mqtt_write_buf_size sample_session)" by simp
  show "MQTTSerialize_ack buf (unat (mqtt_write_buf_size sample_session)) PUBACK 0 7 =
      Some (int (length (ack_packet PUBACK 0 7)), ack_packet PUBACK 0 7 @ drop (length (ack_packet PUBACK 0 7)) buf)"
    if "length buf = unat (mqtt_write_buf_size sample_session)" for buf
    using that four by (simp add: serialize_ack_eq emit_fits)
qed (code_simp, code_simp, simp)

end
