(* ===== verification/Client_Start.thy ===== *)
theory Client_Start
  imports Client_Lifecycle
begin

text \<open>
  The start of the background thread on Linux. The thread that connects creates it, stores the pointer to its object,
  sets the state and calls \<open>platform_thread_start\<close>; the new thread looks at the state and
  calls \<open>platform_thread_stop\<close> unless the client is connected. Both run from the creation on, and each of these parts is a step.
  The two wrappers take the mutex of the thread object and use its condition variable: a signal that finds no
  waiting thread is lost. A wakeup without a signal, which POSIX allows, is not a step.
\<close>

section \<open>Steps\<close>

datatype start_at = Start_lock | Start_signal | Start_unlock
datatype stop_at = Stop_lock | Stop_wait | Stop_blocked | Stop_woken | Stop_unlock

datatype main_at = Creating | Assigning | Setting | Starting start_at | Returning | Started | Left
datatype thread_at = Unborn | Entering | Calling | Stopping stop_at | Looping | Faulted

record start =
  start_client :: mqtt_client
  start_main :: main_at
  start_thread :: thread_at
  start_mutex :: bool

text \<open>No result is a thread that waits for the mutex.\<close>

definition linux_thread_start :: "start_at \<Rightarrow> start \<Rightarrow> start option" where
  "linux_thread_start p s =
     (case p of
        Start_lock \<Rightarrow> if start_mutex s then None else Some (s\<lparr>start_mutex := True, start_main := Starting Start_signal\<rparr>)
      | Start_signal \<Rightarrow>
          Some (s\<lparr>start_thread := (if start_thread s = Stopping Stop_blocked then Stopping Stop_woken else start_thread s),
            start_main := Starting Start_unlock\<rparr>)
      | Start_unlock \<Rightarrow> Some (s\<lparr>start_mutex := False, start_main := Returning\<rparr>))"

text \<open>A thread that waits for the signal has no step of its own; awake it takes the mutex again before it goes on.\<close>

definition linux_thread_stop :: "stop_at \<Rightarrow> start \<Rightarrow> start option" where
  "linux_thread_stop p s =
     (case p of
        Stop_lock \<Rightarrow> if start_mutex s then None else Some (s\<lparr>start_mutex := True, start_thread := Stopping Stop_wait\<rparr>)
      | Stop_wait \<Rightarrow> Some (s\<lparr>start_mutex := False, start_thread := Stopping Stop_blocked\<rparr>)
      | Stop_blocked \<Rightarrow> None
      | Stop_woken \<Rightarrow> if start_mutex s then None else Some (s\<lparr>start_mutex := True, start_thread := Stopping Stop_unlock\<rparr>)
      | Stop_unlock \<Rightarrow> Some (s\<lparr>start_mutex := False, start_thread := Looping\<rparr>))"

text \<open>
  The end of \<open>mqtt_connect_with_results\<close> after a good CONNACK, when the client has no thread yet. The mutex of
  the object is initialised after the creation but before the pointer is stored, so the new thread cannot reach it earlier.
\<close>

definition connect_thread_step :: "start \<Rightarrow> start option" where
  "connect_thread_step s =
     (let c = start_client s in
      case start_main s of
        Creating \<Rightarrow>
          do { (_, c) \<leftarrow> platform_thread_init c; Some (s\<lparr>start_client := c, start_main := Assigning, start_thread := Entering\<rparr>) }
      | Assigning \<Rightarrow> Some (s\<lparr>start_client := c\<lparr>mqtt_thread := True\<rparr>, start_main := Setting\<rparr>)
      | Setting \<Rightarrow>
          Some (s\<lparr>start_client := mqtt_set_client_state c CLIENT_STATE_CONNECTED, start_main := Starting Start_lock\<rparr>)
      | Starting p \<Rightarrow> linux_thread_start p s
      | Returning \<Rightarrow> Some (s\<lparr>start_client := unlock_write (c\<lparr>mqtt_ping_outstanding := 0\<rparr>), start_main := Started\<rparr>)
      | Started \<Rightarrow> None
      | Left \<Rightarrow> None)"

text \<open>The thread up to its loop. The argument of the stop is read from the client; with a null pointer the thread is \<open>Faulted\<close>.\<close>

definition yield_thread_entry :: "start \<Rightarrow> start option" where
  "yield_thread_entry s =
     (case start_thread s of
        Unborn \<Rightarrow> None
      | Entering \<Rightarrow>
          Some (s\<lparr>start_thread :=
            (if mqtt_get_client_state (start_client s) \<noteq> CLIENT_STATE_CONNECTED then Calling else Looping)\<rparr>)
      | Calling \<Rightarrow> Some (s\<lparr>start_thread := (if mqtt_thread (start_client s) then Stopping Stop_lock else Faulted)\<rparr>)
      | Stopping p \<Rightarrow> linux_thread_stop p s
      | Looping \<Rightarrow> None
      | Faulted \<Rightarrow> None)"

text \<open>The application may disconnect as soon as the connect has returned, if \<open>leaves\<close>.\<close>

inductive start_step :: "bool \<Rightarrow> start \<Rightarrow> start \<Rightarrow> bool" for leaves :: bool where
  main: "connect_thread_step s = Some s' \<Longrightarrow> start_step leaves s s'"
| thread: "yield_thread_entry s = Some s' \<Longrightarrow> start_step leaves s s'"
| leave: "leaves \<Longrightarrow> start_main s = Started \<Longrightarrow> mqtt_disconnect (start_client s) = Some (rc, c) \<Longrightarrow>
    start_step leaves s (s\<lparr>start_client := c, start_main := Left\<rparr>)"

inductive_cases start_stepE: "start_step leaves s s'"

definition start_state :: "mqtt_client \<Rightarrow> start" where
  "start_state c = \<lparr>start_client = c, start_main = Creating, start_thread = Unborn, start_mutex = False\<rparr>"

text \<open>Neither thread has a step.\<close>

definition at_rest :: "start \<Rightarrow> bool" where
  "at_rest s \<longleftrightarrow> connect_thread_step s = None \<and> yield_thread_entry s = None"

lemmas start_defs = linux_thread_start_def linux_thread_stop_def connect_thread_step_def yield_thread_entry_def
  mqtt_get_client_state_def mqtt_set_client_state_def

section \<open>Where the threads are\<close>

text \<open>The client at each point of the connect, if it is \<open>c1\<close> after the creation of the thread.\<close>

fun client_at :: "mqtt_client \<Rightarrow> mqtt_client \<Rightarrow> main_at \<Rightarrow> mqtt_client" where
  "client_at c c1 Creating = c"
| "client_at c c1 Assigning = c1"
| "client_at c c1 Setting = c1\<lparr>mqtt_thread := True\<rparr>"
| "client_at c c1 (Starting p) = c1\<lparr>mqtt_thread := True, mqtt_client_state := CLIENT_STATE_CONNECTED\<rparr>"
| "client_at c c1 Returning = c1\<lparr>mqtt_thread := True, mqtt_client_state := CLIENT_STATE_CONNECTED\<rparr>"
| "client_at c c1 Started = unlock_write
     (c1\<lparr>mqtt_thread := True, mqtt_client_state := CLIENT_STATE_CONNECTED, mqtt_ping_outstanding := 0\<rparr>)"
| "client_at c c1 Left = c1"

text \<open>The mutex of the thread object is taken exactly when one of the two threads is between its lock and its unlock.\<close>

definition starter_holds :: "main_at \<Rightarrow> bool" where
  "starter_holds m \<longleftrightarrow> m \<in> {Starting Start_signal, Starting Start_unlock}"

definition stopper_holds :: "thread_at \<Rightarrow> bool" where
  "stopper_holds t \<longleftrightarrow> t \<in> {Stopping Stop_wait, Stopping Stop_unlock}"

definition start_ok :: "mqtt_client \<Rightarrow> mqtt_client \<Rightarrow> start \<Rightarrow> bool" where
  "start_ok c c1 s \<longleftrightarrow> start_main s \<noteq> Left \<and> start_client s = client_at c c1 (start_main s) \<and>
     (start_thread s = Unborn \<longleftrightarrow> start_main s = Creating) \<and>
     (start_mutex s \<longleftrightarrow> starter_holds (start_main s) \<or> stopper_holds (start_thread s)) \<and>
     \<not> (starter_holds (start_main s) \<and> stopper_holds (start_thread s))"

lemma start_ok_init: "start_ok c c1 (start_state c)"
  by (simp add: start_ok_def start_state_def starter_holds_def stopper_holds_def)

lemmas start_ok_defs = start_ok_def starter_holds_def stopper_holds_def

lemma start_ok_start:
  assumes "start_ok c c1 s" "start_main s = Starting p" "linux_thread_start p s = Some s'"
  shows "start_ok c c1 s'"
proof (cases p)
  case Start_lock
  with assms show ?thesis by (simp add: start_ok_defs linux_thread_start_def split: if_splits) (hypsubst, simp)
next
  case Start_signal
  then have "s' = s\<lparr>start_thread := (if start_thread s = Stopping Stop_blocked then Stopping Stop_woken else start_thread s),
      start_main := Starting Start_unlock\<rparr>" using assms(3) by (simp add: linux_thread_start_def)
  with assms(1,2) Start_signal show ?thesis by (simp add: start_ok_defs)
next
  case Start_unlock
  then have "s' = s\<lparr>start_mutex := False, start_main := Returning\<rparr>" using assms(3) by (simp add: linux_thread_start_def)
  with assms(1,2) Start_unlock show ?thesis by (simp add: start_ok_defs)
qed

lemma start_ok_main:
  assumes "platform_thread_init c = Some (b, c1)" "start_ok c c1 s" "connect_thread_step s = Some s'"
  shows "start_ok c c1 s'"
proof (cases "start_main s")
  case Creating
  then have "s' = s\<lparr>start_client := c1, start_main := Assigning, start_thread := Entering\<rparr>"
    using assms by (simp add: start_ok_def connect_thread_step_def)
  with assms(2) Creating show ?thesis by (simp add: start_ok_defs)
next
  case Assigning
  then have "s' = s\<lparr>start_client := (start_client s)\<lparr>mqtt_thread := True\<rparr>, start_main := Setting\<rparr>"
    using assms(3) by (simp add: connect_thread_step_def)
  with assms(2) Assigning show ?thesis by (simp add: start_ok_defs)
next
  case Setting
  then have "s' = s\<lparr>start_client := (start_client s)\<lparr>mqtt_client_state := CLIENT_STATE_CONNECTED\<rparr>, start_main := Starting Start_lock\<rparr>"
    using assms(3) by (simp add: connect_thread_step_def mqtt_set_client_state_def)
  with assms(2) Setting show ?thesis by (simp add: start_ok_defs)
next
  case (Starting p)
  with assms(2,3) start_ok_start show ?thesis by (simp add: connect_thread_step_def)
next
  case Returning
  then have "s' = s\<lparr>start_client := unlock_write ((start_client s)\<lparr>mqtt_ping_outstanding := 0\<rparr>), start_main := Started\<rparr>"
    using assms(3) by (simp add: connect_thread_step_def)
  with assms(2) Returning show ?thesis by (simp add: start_ok_defs)
qed (use assms(3) in \<open>simp_all add: connect_thread_step_def\<close>)

text \<open>The steps of the new thread move it and take or release the mutex.\<close>

lemma start_ok_move:
  "start_ok c c1 s \<Longrightarrow> start_thread s \<noteq> Unborn \<Longrightarrow> t \<noteq> Unborn \<Longrightarrow>
    (m \<longleftrightarrow> starter_holds (start_main s) \<or> stopper_holds t) \<Longrightarrow> \<not> (starter_holds (start_main s) \<and> stopper_holds t) \<Longrightarrow>
    start_ok c c1 (s\<lparr>start_thread := t, start_mutex := m\<rparr>)"
  by (simp add: start_ok_def)

lemma start_ok_mutex:
  "start_ok c c1 s \<Longrightarrow> start_mutex s = (starter_holds (start_main s) \<or> stopper_holds (start_thread s))"
  "start_ok c c1 s \<Longrightarrow> stopper_holds (start_thread s) \<Longrightarrow> \<not> starter_holds (start_main s)"
  by (simp_all add: start_ok_def)

lemma thread_moves:
  assumes "yield_thread_entry s = Some s'"
  shows "s' = s\<lparr>start_thread := start_thread s', start_mutex := start_mutex s'\<rparr> \<and> start_thread s \<noteq> Unborn \<and>
    start_thread s' \<noteq> Unborn \<and>
    (start_mutex s' = start_mutex s \<and> \<not> stopper_holds (start_thread s) \<and> \<not> stopper_holds (start_thread s') \<or>
     \<not> start_mutex s \<and> start_mutex s' \<and> stopper_holds (start_thread s') \<or>
     \<not> start_mutex s' \<and> stopper_holds (start_thread s) \<and> \<not> stopper_holds (start_thread s'))"
proof (cases "start_thread s")
  case (Stopping p)
  with assms show ?thesis
    by (cases p) (auto simp: yield_thread_entry_def linux_thread_stop_def stopper_holds_def split: if_splits)
qed (use assms in \<open>auto simp: yield_thread_entry_def stopper_holds_def split: if_splits\<close>)

lemma start_ok_thread:
  assumes "start_ok c c1 s" "yield_thread_entry s = Some s'"
  shows "start_ok c c1 s'"
  using start_ok_move [OF assms(1), of "start_thread s'" "start_mutex s'"] start_ok_mutex [OF assms(1)]
    thread_moves [OF assms(2)] by metis

lemma start_ok_steps:
  assumes "(start_step False)\<^sup>*\<^sup>* (start_state c) s" "platform_thread_init c = Some (b, c1)"
  shows "start_ok c c1 s"
  using assms(1)
  by (induction rule: rtranclp_induct)
    (auto elim!: start_stepE intro: start_ok_init start_ok_main [OF assms(2)] start_ok_thread)

lemma main_rests:
  "connect_thread_step s = None \<Longrightarrow> start_ok c c1 s \<Longrightarrow> platform_thread_init c = Some (b, c1) \<Longrightarrow>
    start_main s = Started \<or> start_main s = Starting Start_lock \<and> start_mutex s"
  by (cases "start_main s") (auto simp: connect_thread_step_def linux_thread_start_def start_ok_def split: start_at.splits if_splits)

lemma thread_rests:
  "yield_thread_entry s = None \<Longrightarrow> start_thread s \<in> {Unborn, Looping, Faulted, Stopping Stop_blocked} \<or>
    start_thread s \<in> {Stopping Stop_lock, Stopping Stop_woken} \<and> start_mutex s"
  by (cases "start_thread s") (auto simp: yield_thread_entry_def linux_thread_stop_def split: stop_at.splits if_splits)

lemma at_rest_places:
  assumes "start_ok c c1 s" "platform_thread_init c = Some (b, c1)" "at_rest s"
  shows "start_main s = Started \<and> start_thread s \<in> {Looping, Stopping Stop_blocked, Faulted}"
proof -
  have "connect_thread_step s = None" "yield_thread_entry s = None" using assms(3) by (simp_all add: at_rest_def)
  note rest = main_rests [OF this(1) assms(1,2)] thread_rests [OF this(2)]
  then have "\<not> starter_holds (start_main s)" "\<not> stopper_holds (start_thread s)"
    by (auto simp: starter_holds_def stopper_holds_def)
  with start_ok_mutex(1) [OF assms(1)] have "\<not> start_mutex s" by simp
  moreover have "start_thread s = Unborn \<longleftrightarrow> start_main s = Creating" using assms(1) by (simp add: start_ok_def)
  ultimately show ?thesis using rest by auto
qed

section \<open>Schedules\<close>

text \<open>A schedule says which thread takes the next step.\<close>

fun schedule :: "bool list \<Rightarrow> start \<Rightarrow> start option" where
  "schedule [] s = Some s"
| "schedule (m # ms) s = do { s \<leftarrow> (if m then connect_thread_step s else yield_thread_entry s); schedule ms s }"

lemma schedule_steps: "schedule ms s = Some s' \<Longrightarrow> (start_step leaves)\<^sup>*\<^sup>* s s'"
proof (induction ms arbitrary: s)
  case (Cons m ms)
  then obtain t where t: "(if m then connect_thread_step s else yield_thread_entry s) = Some t" "schedule ms t = Some s'"
    by (auto simp: bind_eq_Some_conv)
  then have "start_step leaves s t" by (auto intro: start_step.intros split: if_splits)
  with Cons.IH [OF t(2)] show ?case by (rule converse_rtranclp_into_rtranclp [rotated])
qed simp

text \<open>The thread runs after the connect; between the creation and the store of the pointer; before the state is set, and
  falls asleep after the signal.\<close>

lemma schedules:
  assumes "platform_thread_init c = Some (b, c1)" "\<not> mqtt_thread c" "mqtt_client_state c \<noteq> CLIENT_STATE_CONNECTED"
  shows "\<exists>s. schedule (replicate 7 True @ [False]) (start_state c) = Some s \<and> at_rest s \<and> start_thread s = Looping"
    and "\<exists>s. schedule (True # replicate 2 False @ replicate 6 True) (start_state c) = Some s \<and> at_rest s \<and> start_thread s = Faulted"
    and "\<exists>s. schedule (replicate 2 True @ [False] @ replicate 5 True @ replicate 3 False) (start_state c) = Some s \<and>
      at_rest s \<and> start_thread s = Stopping Stop_blocked"
proof -
  have c1: "\<not> mqtt_thread c1" "mqtt_client_state c1 \<noteq> CLIENT_STATE_CONNECTED"
    using assms by (auto simp: platform_thread_init_def pthread_create_def alloc_eq Let_def split: if_splits)
  note d = start_defs start_state_def at_rest_def unlock_write_def eval_nat_numeral assms(1) c1
  show "\<exists>s. schedule (replicate 7 True @ [False]) (start_state c) = Some s \<and> at_rest s \<and> start_thread s = Looping"
    "\<exists>s. schedule (True # replicate 2 False @ replicate 6 True) (start_state c) = Some s \<and> at_rest s \<and> start_thread s = Faulted"
    "\<exists>s. schedule (replicate 2 True @ [False] @ replicate 5 True @ replicate 3 False) (start_state c) = Some s \<and>
      at_rest s \<and> start_thread s = Stopping Stop_blocked"
    by (simp_all add: d)
qed

section \<open>Runs end\<close>

text \<open>A signal costs the thread that wakes a step it has left, so every step takes at least one from this sum.\<close>

fun main_rank :: "main_at \<Rightarrow> nat" where
  "main_rank Creating = 8" | "main_rank Assigning = 7" | "main_rank Setting = 6"
| "main_rank (Starting Start_lock) = 5" | "main_rank (Starting Start_signal) = 4" | "main_rank (Starting Start_unlock) = 3"
| "main_rank Returning = 2" | "main_rank Started = 1" | "main_rank Left = 0"

fun thread_rank :: "thread_at \<Rightarrow> nat" where
  "thread_rank Unborn = 8" | "thread_rank Entering = 7" | "thread_rank Calling = 6"
| "thread_rank (Stopping Stop_lock) = 5" | "thread_rank (Stopping Stop_wait) = 4" | "thread_rank (Stopping Stop_blocked) = 3"
| "thread_rank (Stopping Stop_woken) = 2" | "thread_rank (Stopping Stop_unlock) = 1"
| "thread_rank Looping = 0" | "thread_rank Faulted = 0"

definition rank :: "start \<Rightarrow> nat" where
  "rank s = main_rank (start_main s) + thread_rank (start_thread s)"

lemma rank_thread: "yield_thread_entry s = Some s' \<Longrightarrow> rank s' < rank s"
  by (cases "start_thread s") (auto simp: rank_def start_defs split: stop_at.splits if_splits)

lemma rank_main:
  assumes "connect_thread_step s = Some s'" "start_ok c c1 s"
  shows "rank s' < rank s"
  using assms
  by (cases "start_main s") (auto simp: rank_def start_ok_def start_defs Let_def bind_eq_Some_conv split: start_at.splits if_splits)

lemma comes_to_rest:
  assumes "start_ok c c1 s" "platform_thread_init c = Some (b, c1)"
  shows "\<exists>s'. (start_step False)\<^sup>*\<^sup>* s s' \<and> start_ok c c1 s' \<and> at_rest s'"
  using assms(1)
proof (induction s rule: measure_induct_rule [where f = rank])
  case (less s)
  show ?case
  proof (cases "at_rest s")
    case False
    then obtain t where t: "start_step False s t" "rank t < rank s" "start_ok c c1 t"
      unfolding at_rest_def
      using less.prems rank_thread rank_main start_ok_main [OF assms(2)] start_ok_thread
      by (metis not_None_eq start_step.intros(1,2))
    from less.IH [OF t(2,3)] t(1) show ?thesis by (meson converse_rtranclp_into_rtranclp)
  qed (use less.prems in blast)
qed

section \<open>A thread that runs late\<close>

definition connected_at :: "main_at \<Rightarrow> bool" where
  "connected_at m \<longleftrightarrow> m \<notin> {Creating, Assigning, Setting}"

lemma late_step:
  assumes "start_step False s s'" "start_ok c c1 s" "connected_at (start_main s)" "start_thread s \<in> {Entering, Looping}"
  shows "connected_at (start_main s') \<and> start_thread s' \<in> {Entering, Looping}"
  using assms
proof cases
  case main
  with assms(2-4) show ?thesis
    by (cases "start_main s") (auto simp: connected_at_def start_defs Let_def split: start_at.splits if_splits)
next
  case thread
  with assms(2-4) show ?thesis
    by (cases "start_main s") (auto simp: connected_at_def start_ok_def start_defs unlock_write_def)
qed simp

lemma late_steps:
  assumes "(start_step False)\<^sup>*\<^sup>* s s'" "start_ok c c1 s" "platform_thread_init c = Some (b, c1)"
    and "connected_at (start_main s)" "start_thread s = Entering"
  shows "start_ok c c1 s' \<and> connected_at (start_main s') \<and> start_thread s' \<in> {Entering, Looping}"
  using assms(1)
proof (induction rule: rtranclp_induct)
  case (step y z)
  have "start_ok c c1 z"
    using step(2,3) by (auto elim!: start_stepE intro: start_ok_main [OF assms(3)] start_ok_thread)
  with late_step [OF step(2)] step(3) show ?case by blast
qed (use assms in simp)

section \<open>Properties\<close>

lemma exit_result:
  assumes "platform_thread_init c = Some (b, c1)" "\<not> mqtt_thread c"
  shows "connect_exit MQTT_SUCCESS_ERROR c = Some (MQTT_SUCCESS_ERROR, c1\<lparr>mqtt_thread := True,
    mqtt_client_state := CLIENT_STATE_CONNECTED, mqtt_ping_outstanding := 0\<rparr>)"
proof -
  have "b" using assms(1) by (auto simp: platform_thread_init_def Let_def case_prod_unfold split: if_splits)
  with assms show ?thesis by (simp add: connect_exit_def mqtt_set_client_state_def)
qed



lemma send_thread: "mqtt_send_packet c n = Some (rc, t, c') \<Longrightarrow> mqtt_thread c' = mqtt_thread c"
  by (auto simp: mqtt_send_packet_def Let_def bind_eq_Some_conv split: if_splits
      dest!: send_loop_frame same_more same_fields(19))

lemma disconnect_leaves:
  assumes "mqtt_disconnect c = Some (rc, c')"
  shows "mqtt_thread c' = mqtt_thread c" "mqtt_client_state c' = CLIENT_STATE_CLEAN_SESSION"
  using assms
  by (auto simp: mqtt_disconnect_def lock_write_def unlock_write_def serialize_into_def bind_eq_Some_conv mqtt_set_client_state_def
      split: if_splits dest!: send_thread)

text \<open>
  An application that disconnects before the new thread has looked at the state leaves the thread asleep for good, with the
  session not cleaned; the release then waits for a state nobody sets.
\<close>

theorem early_disconnect_sleeps:
  assumes "start_main s = Started" "start_thread s = Entering" "\<not> start_mutex s" "mqtt_thread (start_client s)"
    and "mqtt_disconnect (start_client s) = Some (rc, c')"
  shows "\<exists>s'. (start_step True)\<^sup>*\<^sup>* s s' \<and> (\<forall>s''. \<not> start_step True s' s'') \<and> start_thread s' = Stopping Stop_blocked \<and>
    start_client s' = c' \<and> mqtt_client_state c' = CLIENT_STATE_CLEAN_SESSION"
proof -
  note c' = disconnect_leaves [OF assms(5)] assms(4)
  let ?s = "s\<lparr>start_client := c', start_main := Left\<rparr>"
  let ?t = "?s\<lparr>start_thread := Stopping Stop_blocked, start_mutex := False\<rparr>"
  have "start_step True s ?s" using assms(1,5) by (intro start_step.leave) simp_all
  moreover have "schedule (replicate 4 False) ?s = Some ?t"
    using c' assms(2,3) by (simp add: start_defs eval_nat_numeral)
  ultimately have "(start_step True)\<^sup>*\<^sup>* s ?t" using schedule_steps by (meson converse_rtranclp_into_rtranclp)
  moreover have "\<not> start_step True ?t s''" for s'' by (auto elim!: start_stepE simp: start_defs)
  ultimately show ?thesis using c' by (intro exI [of _ ?t]) simp
qed

end
