(* ===== verification/Salof_Fifo.thy ===== *)
theory Salof_Fifo
  imports Prelude
begin

text \<open>
  The ring buffer of the log output, \<^verbatim>\<open>common/log/fifo.c\<close>: a power of two as its size, and two
  free-running 32-bit counters for input and output. The mutex and the memory allocator are parameters:
  \<open>pend\<close> tells whether the mutex was taken, \<open>mem\<close> is the memory the allocator gives. The locale
  \<open>byte_queue\<close> is what the log output relies on.
\<close>

unbundle bit_operations_syntax

section \<open>The code\<close>

definition flbs :: "u32 \<Rightarrow> nat" where
  "flbs x =
     (if x = 0 then 0
      else
        (let r = 32;
             (x, r) = (if x AND 0xffff0000 = 0 then (push_bit 16 x, r - 16) else (x, r));
             (x, r) = (if x AND 0xff000000 = 0 then (push_bit 8 x, r - 8) else (x, r));
             (x, r) = (if x AND 0xf0000000 = 0 then (push_bit 4 x, r - 4) else (x, r));
             (x, r) = (if x AND 0xc0000000 = 0 then (push_bit 2 x, r - 2) else (x, r));
             (x, r) = (if x AND 0x80000000 = 0 then (push_bit 1 x, r - 1) else (x, r))
         in r))"

definition salof_fifo_align :: "u32 \<Rightarrow> u32" where
  "salof_fifo_align x = push_bit (flbs (x - 1) - 1) 1"

record salof_fifo =
  fifo_size :: u32
  fifo_in :: u32
  fifo_out :: u32
  fifo_buff :: bytes

definition salof_fifo_create :: "(nat \<Rightarrow> bytes option) \<Rightarrow> bool \<Rightarrow> bool \<Rightarrow> u32 \<Rightarrow> salof_fifo option" where
  "salof_fifo_create mem mutex sem n =
     (if n = 0 then None
      else
        (let n = (if n AND (n - 1) \<noteq> 0 then salof_fifo_align n else n) in
         case mem (unat n) of
           None \<Rightarrow> None
         | Some b \<Rightarrow>
             if \<not> mutex \<or> \<not> sem then None
             else Some \<lparr>fifo_size = n, fifo_in = 0, fifo_out = 0, fifo_buff = b\<rparr>))"

definition memcpy :: "bytes \<Rightarrow> nat \<Rightarrow> bytes \<Rightarrow> nat \<Rightarrow> nat \<Rightarrow> bytes option" where
  "memcpy dst i src j n = do { xs \<leftarrow> rd_block src j n; (dst, _) \<leftarrow> write_bytes (dst, i) xs; Some dst }"

text \<open>The chunk length \<open>l\<close> is an \<open>int\<close>; as an argument of \<open>memcpy\<close> it becomes a 64-bit size.\<close>

definition size_of_int :: "u32 \<Rightarrow> nat" where
  "size_of_int l = nat (sint l mod 18446744073709551616)"

definition salof_fifo_write ::
  "bool \<Rightarrow> salof_fifo option \<Rightarrow> bytes option \<Rightarrow> u32 \<Rightarrow> (u32 \<times> salof_fifo option) option" where
  "salof_fifo_write pend fifo buff len =
     (case (fifo, buff) of
        (Some f, Some buff) \<Rightarrow>
          if len = 0 then Some (0, fifo)
          else if \<not> pend then Some (0, fifo)
          else do {
            let len = min len (fifo_size f - fifo_in f + fifo_out f);
            let i = fifo_in f AND (fifo_size f - 1);
            let l = min len (fifo_size f - i);
            b \<leftarrow> memcpy (fifo_buff f) (unat i) buff 0 (size_of_int l);
            b \<leftarrow> memcpy b 0 buff (unat l) (unat (len - l));
            Some (len, Some (f\<lparr>fifo_buff := b, fifo_in := fifo_in f + len\<rparr>))
          }
      | _ \<Rightarrow> Some (0, fifo))"

text \<open>The read waits on the semaphore of the queue before it looks whether there is a queue.\<close>

definition salof_fifo_read ::
  "salof_fifo option \<Rightarrow> bytes option \<Rightarrow> u32 \<Rightarrow> (u32 \<times> bytes option \<times> salof_fifo option) option" where
  "salof_fifo_read fifo buff len =
     do {
       f \<leftarrow> fifo;
       case buff of
         None \<Rightarrow> Some (0, None, fifo)
       | Some buff \<Rightarrow>
           if len = 0 then Some (0, Some buff, fifo)
           else do {
             let len = min len (fifo_in f - fifo_out f);
             let i = fifo_out f AND (fifo_size f - 1);
             let l = min len (fifo_size f - i);
             buff \<leftarrow> memcpy buff 0 (fifo_buff f) (unat i) (size_of_int l);
             buff \<leftarrow> memcpy buff (unat l) (fifo_buff f) 0 (unat (len - l));
             Some (len, Some buff, Some (f\<lparr>fifo_out := fifo_out f + len\<rparr>))
           }
     }"

definition salof_fifo_read_able :: "salof_fifo option \<Rightarrow> u32" where
  "salof_fifo_read_able fifo =
     (case fifo of
        None \<Rightarrow> 0
      | Some f \<Rightarrow>
          if fifo_in f = fifo_out f then 0
          else if fifo_in f > fifo_out f then fifo_in f - fifo_out f
          else fifo_size f - (fifo_out f - fifo_in f))"

definition salof_fifo_write_able :: "salof_fifo option \<Rightarrow> u32 option" where
  "salof_fifo_write_able fifo = do { f \<leftarrow> fifo; Some (fifo_size f - salof_fifo_read_able fifo) }"

section \<open>Rings\<close>

text \<open>\<open>n\<close> bytes from position \<open>p\<close> on, around the end of the buffer.\<close>

definition ring :: "bytes \<Rightarrow> nat \<Rightarrow> nat \<Rightarrow> bytes" where
  "ring b p n = map (\<lambda>i. b ! ((p + i) mod length b)) [0..<n]"

lemma length_ring [simp]: "length (ring b p n) = n"
  by (simp add: ring_def)

lemma ring_add: "ring b p (m + n) = ring b p m @ ring b (p + m) n"
proof -
  have "map (\<lambda>i. b ! ((p + i) mod length b)) [m..<m + n] = map (\<lambda>i. b ! ((p + m + i) mod length b)) [0..<n]"
    by (rule nth_equalityI) (simp_all add: add.assoc)
  then show ?thesis by (simp add: ring_def upt_add_eq_append [of 0 m n])
qed

lemma ring_mod: "ring b (p mod length b) n = ring b p n"
  by (simp add: ring_def mod_add_left_eq)

text \<open>Reading a ring in the two pieces of the code.\<close>

lemma ring_load:
  assumes "p < length b" "m \<le> length b"
  defines "l \<equiv> min m (length b - p)"
  shows "take l (drop p b) @ take (m - l) b = ring b p m"
proof (rule nth_equalityI)
  show "length (take l (drop p b) @ take (m - l) b) = length (ring b p m)" using assms by simp
next
  fix i assume "i < length (take l (drop p b) @ take (m - l) b)"
  then have i: "i < m" using assms by simp
  show "(take l (drop p b) @ take (m - l) b) ! i = ring b p m ! i"
  proof (cases "p + i < length b")
    case True
    then have "i < l" using i by (simp add: l_def)
    with True i show ?thesis by (simp add: nth_append ring_def less_diff_conv add.commute)
  next
    case False
    then have l: "l = length b - p" using i assms by (simp add: l_def)
    have "(p + i) mod length b = p + i - length b" using False assms(1,2) i by (simp add: le_mod_geq)
    moreover from False have "\<not> i < length b - p" by simp
    ultimately show ?thesis using l i assms(1,2) by (simp add: nth_append ring_def ac_simps)
  qed
qed

text \<open>Writing it in the two pieces of the code.\<close>

definition ring_store :: "bytes \<Rightarrow> nat \<Rightarrow> bytes \<Rightarrow> bytes" where
  "ring_store b p xs =
     (let l = min (length xs) (length b - p); b = take p b @ take l xs @ drop (p + l) b in
      drop l xs @ drop (length xs - l) b)"

lemma length_ring_store [simp]: "p < length b \<Longrightarrow> length xs \<le> length b \<Longrightarrow> length (ring_store b p xs) = length b"
  by (auto simp: ring_store_def Let_def min_def)

lemma ring_store_nth:
  assumes "p < length b" "length xs \<le> length b" "i < length b"
  shows "ring_store b p xs ! ((p + i) mod length b) = (if i < length xs then xs ! i else b ! ((p + i) mod length b))"
proof -
  have m: "(p + i) mod length b = (if p + i < length b then p + i else p + i - length b)"
    using assms(1,3) by (simp add: le_mod_geq)
  show ?thesis
  proof (cases "length xs \<le> length b - p")
    case True
    with assms m show ?thesis
      by (auto simp: ring_store_def Let_def nth_append min_def)
  next
    case False
    with assms m show ?thesis
      by (auto simp: ring_store_def Let_def nth_append min_def)
  qed
qed

lemma ring_store_add:
  assumes "n + length xs \<le> length b" "b \<noteq> []"
  shows "ring (ring_store b ((p + n) mod length b) xs) p (n + length xs) = ring b p n @ xs"
proof -
  let ?S = "length b" and ?q = "(p + n) mod length b"
  let ?b = "ring_store b ?q xs"
  have q: "?q < ?S" using assms(2) by simp
  have L: "length ?b = ?S" using q assms(1) by simp
  have "?b ! ((p + i) mod ?S) = (ring b p n @ xs) ! i" if i: "i < n + length xs" for i
  proof (cases "i < n")
    case True
    have "p + n + (?S - n + i) = p + i + ?S" using assms(1) by simp
    then have "(p + i) mod ?S = (?q + (?S - n + i)) mod ?S" by (metis mod_add_left_eq mod_add_self2)
    moreover have "?S - n + i < ?S" "\<not> ?S - n + i < length xs" using True assms(1) by simp_all
    ultimately show ?thesis
      using ring_store_nth [OF q, of xs "?S - n + i"] assms(1) True by (simp add: nth_append) (simp add: ring_def)
  next
    case False
    then have "p + n + (i - n) = p + i" by simp
    then have "(p + i) mod ?S = (?q + (i - n)) mod ?S" by (metis mod_add_left_eq)
    moreover have "i - n < ?S" "i - n < length xs" using False i assms(1) by simp_all
    ultimately show ?thesis
      using ring_store_nth [OF q, of xs "i - n"] assms(1) False by (simp add: nth_append)
  qed
  then show ?thesis
    by (intro nth_equalityI) (simp_all add: ring_def L)
qed

section \<open>The counters\<close>

text \<open>The size is a power of two, up to 2 to the power 30, and at most that many bytes are stored.\<close>

definition fifo_ok :: "salof_fifo \<Rightarrow> bool" where
  "fifo_ok f \<longleftrightarrow> (\<exists>k\<le>30. fifo_size f = 2 ^ k) \<and> length (fifo_buff f) = unat (fifo_size f) \<and>
     unat (fifo_in f - fifo_out f) \<le> unat (fifo_size f)"

definition fifo_bytes :: "salof_fifo \<Rightarrow> bytes" where
  "fifo_bytes f = ring (fifo_buff f) (unat (fifo_out f)) (unat (fifo_in f - fifo_out f))"

lemma unat_pow: "k < 32 \<Longrightarrow> unat (2 ^ k :: u32) = 2 ^ k"
proof -
  assume "k < 32"
  then have "(2 :: nat) ^ k < 2 ^ 32" by (intro power_strict_increasing) simp_all
  then have "unat (of_nat (2 ^ k) :: u32) = 2 ^ k" by (simp add: unat_of_nat del: of_nat_power)
  then show "unat (2 ^ k :: u32) = 2 ^ k" by simp
qed

lemma idx_mod:
  assumes "fifo_ok f"
  shows "unat (x AND (fifo_size f - 1)) = unat x mod length (fifo_buff f)"
proof -
  obtain k where k: "k \<le> 30" "fifo_size f = 2 ^ k" "length (fifo_buff f) = unat (fifo_size f)"
    using assms by (auto simp: fifo_ok_def)
  have "x AND (2 ^ k - 1) = take_bit k x" by (simp add: take_bit_eq_mask mask_eq_exp_minus_1)
  then have "unat (x AND (2 ^ k - 1)) = take_bit k (unat x)" by (simp add: unsigned_take_bit_eq)
  then show ?thesis using k unat_pow [of k] by (simp add: take_bit_eq_mod)
qed

lemma in_mod:
  assumes "fifo_ok f"
  shows "unat (fifo_in f) mod length (fifo_buff f) =
    (unat (fifo_out f) + unat (fifo_in f - fifo_out f)) mod length (fifo_buff f)"
proof -
  obtain k where k: "k \<le> 30" "length (fifo_buff f) = 2 ^ k"
    using assms unat_pow by (auto simp: fifo_ok_def)
  have "(2 :: nat) ^ k dvd 2 ^ 32" using k(1) by (intro le_imp_power_dvd) simp
  then have d: "(x mod 4294967296) mod 2 ^ k = x mod 2 ^ k" for x :: nat by (simp add: mod_mod_cancel)
  have "unat (a + b) = (unat a + unat b) mod 4294967296" for a b :: u32 by (simp add: unat_word_ariths)
  from this [of "fifo_out f" "fifo_in f - fifo_out f"]
  have "unat (fifo_in f) = (unat (fifo_out f) + unat (fifo_in f - fifo_out f)) mod 4294967296" by simp
  with d k(2) show ?thesis by simp
qed

section \<open>Writing and reading\<close>

lemma memcpy_at:
  assumes "j + n \<le> length src" "i + n \<le> length dst"
  shows "memcpy dst i src j n = Some (take i dst @ take n (drop j src) @ drop (i + n) dst)"
proof -
  have "length (take n (drop j src)) = n" using assms(1) by simp
  with assms show ?thesis by (simp add: memcpy_def rd_block_def write_bytes_def del: length_take)
qed

lemma size_of_int_small: "unat l < 2147483648 \<Longrightarrow> size_of_int l = unat l"
  by (simp add: size_of_int_def sint_small nat_mod_distrib)

lemma unat_sub_le: "unat b \<le> unat a \<Longrightarrow> unat (a - b :: u32) = unat a - unat b"
  by (simp add: unat_sub_if')

lemma unat_min: "unat (min a b) = min (unat a) (unat b)"
  by (simp add: min_def word_le_nat_alt)

text \<open>What the counters say about the room left and the way to the end of the buffer.\<close>

lemma fifo_room:
  assumes "fifo_ok f"
  defines "S \<equiv> length (fifo_buff f)" and "n \<equiv> unat (fifo_in f - fifo_out f)"
  shows "0 < S" "S < 2147483648" "S = unat (fifo_size f)" "n \<le> S"
    "unat (fifo_size f - fifo_in f + fifo_out f) = S - n"
    "unat (fifo_size f - (x AND (fifo_size f - 1))) = S - unat x mod S"
proof -
  obtain k where k: "k \<le> 30" "fifo_size f = 2 ^ k" "S = unat (fifo_size f)" "n \<le> unat (fifo_size f)"
    using assms by (auto simp: fifo_ok_def)
  have S: "S = 2 ^ k" using k unat_pow [of k] by simp
  then show pos: "0 < S" by simp
  have "(2 :: nat) ^ k \<le> 2 ^ 30" using k(1) by (intro power_increasing) simp_all
  with S show "S < 2147483648" by simp
  show "S = unat (fifo_size f)" "n \<le> S" using k by simp_all
  have "fifo_size f - fifo_in f + fifo_out f = fifo_size f - (fifo_in f - fifo_out f)" by simp
  with unat_sub_le [OF k(4) [unfolded n_def]] k(3) show "unat (fifo_size f - fifo_in f + fifo_out f) = S - n"
    by (simp only: n_def)
  have "unat (x AND (fifo_size f - 1)) = unat x mod S" unfolding S_def by (rule idx_mod [OF assms(1)])
  moreover have "unat x mod S \<le> S" using pos by (simp add: less_imp_le)
  ultimately show "unat (fifo_size f - (x AND (fifo_size f - 1))) = S - unat x mod S"
    using k(3) by (simp add: unat_sub_if')
qed

lemma write_ok:
  assumes "fifo_ok f" "0 < n" "n < 4294967296" "n \<le> length xs"
  defines "m \<equiv> min n (length (fifo_buff f) - unat (fifo_in f - fifo_out f))"
  shows "\<exists>f'. salof_fifo_write True (Some f) (Some xs) (of_nat n) = Some (of_nat m, Some f') \<and>
    fifo_ok f' \<and> fifo_bytes f' = fifo_bytes f @ take m xs \<and> fifo_size f' = fifo_size f"
proof -
  let ?S = "length (fifo_buff f)" and ?u = "unat (fifo_in f - fifo_out f)" and ?i = "unat (fifo_in f) mod length (fifo_buff f)"
  note r = fifo_room [OF assms(1)]
  define len where "len = min (of_nat n) (fifo_size f - fifo_in f + fifo_out f)"
  define l where "l = min len (fifo_size f - (fifo_in f AND (fifo_size f - 1)))"
  have ux: "unat (of_nat n :: u32) = n" using assms(3) by (simp add: unat_of_nat)
  have m: "unat len = m" "m \<le> ?S" "m \<le> n" "m + ?u \<le> ?S" using r by (simp_all add: len_def m_def unat_min ux)
  have len: "len = of_nat m" by (simp flip: m(1))
  have i: "?i < ?S" using r(1) by simp
  have lx: "length (take m xs) = m" using m(3) assms(4) by simp
  define k where "k = min m (?S - ?i)"
  define b1 where "b1 = take ?i (fifo_buff f) @ take k xs @ drop (?i + k) (fifo_buff f)"
  have k: "k \<le> m" "k \<le> length xs" "?i + k \<le> ?S" using m(3) assms(4) i by (simp_all add: k_def)
  have l: "unat l = k" by (simp add: l_def unat_min m(1) r(6) k_def)
  have sl: "size_of_int l = k" using size_of_int_small [of l] l r(2) m(2) k(1) by simp
  have dl: "unat (len - l) = m - k" using unat_sub_le [of l len] l m(1) k(1) by simp
  have b1: "length b1 = ?S" using i k by (simp add: b1_def)
  have c1: "memcpy (fifo_buff f) (unat (fifo_in f AND (fifo_size f - 1))) xs 0 (size_of_int l) = Some b1"
    unfolding idx_mod [OF assms(1)] sl b1_def using memcpy_at [of 0 k xs ?i "fifo_buff f"] k by simp
  have st: "take (m - k) (drop k xs) @ drop (m - k) b1 = ring_store (fifo_buff f) ?i (take m xs)"
  proof -
    have tk: "take k (take m xs) = take k xs" "drop k (take m xs) = take (m - k) (drop k xs)"
      using k(1) by (simp_all add: drop_take min_def)
    show ?thesis unfolding ring_store_def Let_def lx k_def [symmetric] tk b1_def ..
  qed
  have c2: "memcpy b1 0 xs (unat l) (unat (len - l)) = Some (ring_store (fifo_buff f) ?i (take m xs))"
    unfolding l dl st [symmetric] using memcpy_at [of k "m - k" xs 0 b1] b1 m k assms(4) by simp
  let ?f = "f\<lparr>fifo_buff := ring_store (fifo_buff f) ?i (take m xs), fifo_in := fifo_in f + len\<rparr>"
  have w: "salof_fifo_write True (Some f) (Some xs) (of_nat n) = Some (len, Some ?f)"
  proof -
    have "(of_nat n :: u32) \<noteq> 0" using assms(2) ux by (metis less_not_refl unat_0)
    then show ?thesis
      unfolding salof_fifo_write_def prod.case option.case Let_def len_def [symmetric] l_def [symmetric]
      by (simp only: c1 c2 if_False not_True_eq_False bind.bind_lunit)
  qed
  have L: "length (ring_store (fifo_buff f) ?i (take m xs)) = ?S" using i m by simp
  have used: "unat (fifo_in f + len - fifo_out f) = ?u + m"
  proof -
    have e: "fifo_in f + len - fifo_out f = (fifo_in f - fifo_out f) + len" by simp
    have lt: "?u + unat len < 4294967296" using m(1,4) r(2) by linarith
    show ?thesis unfolding e u32_no_wrap [OF lt] m(1) ..
  qed
  have "fifo_ok ?f" using assms(1) L used m(4) r(3) by (auto simp: fifo_ok_def)
  moreover have "fifo_bytes ?f = fifo_bytes f @ take m xs"
    using ring_store_add [of ?u "take m xs" "fifo_buff f" "unat (fifo_out f)", unfolded lx] m(4) r(1)
    by (simp add: fifo_bytes_def used in_mod [OF assms(1)] add.commute [of m ?u])
  ultimately show ?thesis using w len by (intro exI [of _ ?f]) simp
qed

lemma read_ok:
  assumes "fifo_ok f" "0 < n" "n < 4294967296" "n \<le> length dst"
  defines "m \<equiv> min n (unat (fifo_in f - fifo_out f))"
  shows "\<exists>f'. salof_fifo_read (Some f) (Some dst) (of_nat n) =
      Some (of_nat m, Some (take m (fifo_bytes f) @ drop m dst), Some f') \<and>
    fifo_ok f' \<and> fifo_bytes f' = drop m (fifo_bytes f) \<and> fifo_size f' = fifo_size f"
proof -
  let ?S = "length (fifo_buff f)" and ?n = "unat (fifo_in f - fifo_out f)" and ?i = "unat (fifo_out f) mod length (fifo_buff f)"
  note r = fifo_room [OF assms(1)]
  define len where "len = min (of_nat n) (fifo_in f - fifo_out f)"
  define l where "l = min len (fifo_size f - (fifo_out f AND (fifo_size f - 1)))"
  have un: "unat (of_nat n :: u32) = n" using assms(3) by (simp add: unat_of_nat)
  have m: "unat len = m" "m \<le> ?n" "m \<le> n" "m \<le> ?S" using r(4) by (simp_all add: len_def m_def unat_min un)
  then have len: "len = of_nat m" by (simp flip: m(1))
  have i: "?i < ?S" using r(1) by simp
  define k where "k = min m (?S - ?i)"
  have k: "k \<le> m" "?i + k \<le> ?S" using i by (simp_all add: k_def)
  have l: "unat l = k" by (simp add: l_def unat_min m(1) r(6) k_def)
  have sl: "size_of_int l = k" using size_of_int_small [of l] l r(2) m(4) k(1) by simp
  have dl: "unat (len - l) = m - k" using unat_sub_le [of l len] l m(1) k(1) by simp
  define xs where "xs = take k (drop ?i (fifo_buff f))"
  define ys where "ys = take (m - k) (fifo_buff f)"
  have lx: "length xs = k" "length ys = m - k" using k m(4) by (simp_all add: xs_def ys_def)
  have xy: "xs @ ys = ring (fifo_buff f) (unat (fifo_out f)) m"
    using ring_load [OF i m(4)] by (simp add: xs_def ys_def k_def ring_mod)
  have c1: "memcpy dst 0 (fifo_buff f) (unat (fifo_out f AND (fifo_size f - 1))) (size_of_int l) = Some (xs @ drop k dst)"
    unfolding idx_mod [OF assms(1)] sl xs_def using memcpy_at [of ?i k "fifo_buff f" 0 dst] k m(3) assms(4) by simp
  have c2: "memcpy (xs @ drop k dst) (unat l) (fifo_buff f) 0 (unat (len - l)) = Some (xs @ ys @ drop m dst)"
    unfolding l dl using memcpy_at [of 0 "m - k" "fifo_buff f" k "xs @ drop k dst"] k m(3,4) assms(4) lx
    by (simp add: ys_def)
  let ?f = "f\<lparr>fifo_out := fifo_out f + len\<rparr>"
  have w: "salof_fifo_read (Some f) (Some dst) (of_nat n) = Some (len, Some (xs @ ys @ drop m dst), Some ?f)"
  proof -
    have "(of_nat n :: u32) \<noteq> 0" using assms(2) un by (metis less_not_refl unat_0)
    then show ?thesis
      unfolding salof_fifo_read_def bind.bind_lunit option.case Let_def len_def [symmetric] l_def [symmetric]
      by (simp only: c1 c2 if_False bind.bind_lunit)
  qed
  have used: "unat (fifo_in f - (fifo_out f + len)) = ?n - m"
  proof -
    have e: "fifo_in f - (fifo_out f + len) = (fifo_in f - fifo_out f) - len" by simp
    show ?thesis unfolding e using unat_sub_le [of len "fifo_in f - fifo_out f"] m(1,2) by simp
  qed
  have ok: "fifo_ok ?f" using assms(1) used by (auto simp: fifo_ok_def)
  have whole: "fifo_bytes f = ring (fifo_buff f) (unat (fifo_out f)) m @ ring (fifo_buff f) (unat (fifo_out f) + m) (?n - m)"
    using ring_add [of "fifo_buff f" "unat (fifo_out f)" m "?n - m"] m(2) by (simp add: fifo_bytes_def)
  have out: "unat (fifo_out f + len) mod ?S = (unat (fifo_out f) + m) mod ?S"
  proof -
    obtain j where j: "j \<le> 30" "?S = 2 ^ j" using assms(1) unat_pow by (auto simp: fifo_ok_def)
    have "(2 :: nat) ^ j dvd 2 ^ 32" using j(1) by (intro le_imp_power_dvd) simp
    then show ?thesis unfolding j(2) by (simp add: unat_word_ariths m(1) mod_mod_cancel)
  qed
  have "fifo_bytes ?f = ring (fifo_buff f) (unat (fifo_out f) + m) (?n - m)"
    using ring_mod [of "fifo_buff f" "unat (fifo_out f + len)" "?n - m"] ring_mod [of "fifo_buff f" "unat (fifo_out f) + m" "?n - m"] out
    by (simp add: fifo_bytes_def used)
  then have "fifo_bytes ?f = drop m (fifo_bytes f)" "xs @ ys @ drop m dst = take m (fifo_bytes f) @ drop m dst"
    using whole xy by simp_all
  with w len ok show ?thesis by (intro exI [of _ ?f]) simp
qed

section \<open>Byte queues\<close>

text \<open>What the log output relies on: writing appends what fits, reading takes from the front.\<close>

locale byte_queue =
  fixes ok :: "'q \<Rightarrow> bool" and content :: "'q \<Rightarrow> bytes" and cap :: "'q \<Rightarrow> nat" and chunk :: "nat \<Rightarrow> bool"
    and put :: "bytes \<Rightarrow> 'q \<Rightarrow> nat \<times> 'q" and get :: "nat \<Rightarrow> 'q \<Rightarrow> bytes \<times> 'q"
  assumes bounded: "ok q \<Longrightarrow> length (content q) \<le> cap q"
    and put_law: "ok q \<Longrightarrow> chunk (length xs) \<Longrightarrow> put xs q = (k, q') \<Longrightarrow>
      ok q' \<and> cap q' = cap q \<and> k = min (length xs) (cap q - length (content q)) \<and> content q' = content q @ take k xs"
    and get_law: "ok q \<Longrightarrow> chunk n \<Longrightarrow> get n q = (ys, q') \<Longrightarrow>
      ok q' \<and> cap q' = cap q \<and> ys = take n (content q) \<and> content q' = drop n (content q)"
begin

text \<open>A run of writes (\<open>Inl\<close>) and reads (\<open>Inr\<close>), with what was accepted and what was delivered.\<close>

fun run :: "(bytes + nat) list \<Rightarrow> 'q \<Rightarrow> bytes \<times> bytes \<times> 'q" where
  "run [] q = ([], [], q)"
| "run (Inl xs # ops) q = (let (k, q) = put xs q; (acc, del, q) = run ops q in (take k xs @ acc, del, q))"
| "run (Inr n # ops) q = (let (ys, q) = get n q; (acc, del, q) = run ops q in (acc, ys @ del, q))"

fun chunk_ok :: "bytes + nat \<Rightarrow> bool" where
  "chunk_ok (Inl xs) = chunk (length xs)"
| "chunk_ok (Inr n) = chunk n"

lemma run_fifo:
  "ok q \<Longrightarrow> \<forall>x\<in>set ops. chunk_ok x \<Longrightarrow> run ops q = (acc, del, q') \<Longrightarrow>
   ok q' \<and> cap q' = cap q \<and> content q @ acc = del @ content q' \<and> length (content q') \<le> cap q"
proof (induction ops arbitrary: q acc del)
  case Nil
  then show ?case using bounded by simp
next
  case (Cons x ops)
  show ?case
  proof (cases x)
    case (Inl xs)
    obtain k q1 where p: "put xs q = (k, q1)" by (cases "put xs q")
    obtain a d where r: "run ops q1 = (a, d, q')" "acc = take k xs @ a" "del = d"
      using Cons.prems(3) Inl p by (auto split: prod.splits)
    have "chunk (length xs)" using Cons.prems(2) Inl by simp
    from put_law [OF Cons.prems(1) this p] Cons.IH [of q1, OF _ _ r(1)] Cons.prems(2) r(2,3) show ?thesis by simp
  next
    case (Inr n)
    obtain ys q1 where p: "get n q = (ys, q1)" by (cases "get n q")
    obtain a d where r: "run ops q1 = (a, d, q')" "acc = a" "del = ys @ d"
      using Cons.prems(3) Inr p by (auto split: prod.splits)
    have c: "chunk n" using Cons.prems(2) Inr by simp
    have "content q @ a = ys @ (content q1 @ a)"
      using get_law [OF Cons.prems(1) c p] by (metis append.assoc append_take_drop_id)
    with get_law [OF Cons.prems(1) c p] Cons.IH [of q1, OF _ _ r(1)] Cons.prems(2) r(2,3) show ?thesis by simp
  qed
qed

end

text \<open>The ring buffer with the mutex available, as such a queue.\<close>

definition fifo_put :: "bytes \<Rightarrow> salof_fifo \<Rightarrow> nat \<times> salof_fifo" where
  "fifo_put xs f =
     (case salof_fifo_write True (Some f) (Some xs) (of_nat (length xs)) of
        Some (k, Some f') \<Rightarrow> (unat k, f')
      | _ \<Rightarrow> (0, f))"

definition fifo_get :: "nat \<Rightarrow> salof_fifo \<Rightarrow> bytes \<times> salof_fifo" where
  "fifo_get n f =
     (case salof_fifo_read (Some f) (Some (replicate n 0)) (of_nat n) of
        Some (k, Some dst, Some f') \<Rightarrow> (take (unat k) dst, f')
      | _ \<Rightarrow> ([], f))"

lemma fifo_put_eq:
  assumes "fifo_ok f" "length xs < 4294967296" "fifo_put xs f = (k, f')"
  shows "fifo_ok f' \<and> fifo_size f' = fifo_size f \<and> k = min (length xs) (unat (fifo_size f) - length (fifo_bytes f)) \<and>
    fifo_bytes f' = fifo_bytes f @ take k xs"
proof (cases "xs = []")
  case True
  then have "(k, f') = (0, f)" using assms(3) by (simp add: fifo_put_def salof_fifo_write_def)
  with True assms(1) show ?thesis by simp
next
  case False
  note r = fifo_room [OF assms(1)]
  let ?m = "min (length xs) (length (fifo_buff f) - unat (fifo_in f - fifo_out f))"
  have "unat (of_nat ?m :: u32) = ?m" using r(2) by (simp add: unat_of_nat)
  with write_ok [OF assms(1) _ assms(2), of xs] False assms(3) r(3) show ?thesis
    by (auto simp: fifo_put_def fifo_bytes_def [of f])
qed

lemma fifo_get_eq:
  assumes "fifo_ok f" "n < 4294967296" "fifo_get n f = (ys, f')"
  shows "fifo_ok f' \<and> fifo_size f' = fifo_size f \<and> ys = take n (fifo_bytes f) \<and> fifo_bytes f' = drop n (fifo_bytes f)"
proof (cases "n = 0")
  case True
  then have "(ys, f') = ([], f)" using assms(3) by (simp add: fifo_get_def salof_fifo_read_def)
  with True assms(1) show ?thesis by simp
next
  case False
  let ?m = "min n (unat (fifo_in f - fifo_out f))"
  have l: "length (fifo_bytes f) = unat (fifo_in f - fifo_out f)" by (simp add: fifo_bytes_def)
  have "unat (of_nat ?m :: u32) = ?m" using assms(2) by (simp add: unat_of_nat)
  moreover have "take ?m (fifo_bytes f) = take n (fifo_bytes f)" "drop ?m (fifo_bytes f) = drop n (fifo_bytes f)"
    by (simp_all add: l min_def)
  ultimately show ?thesis
    using read_ok [of f n "replicate n 0"] assms False l by (auto simp: fifo_get_def)
qed

interpretation log_queue: byte_queue fifo_ok fifo_bytes "\<lambda>f. unat (fifo_size f)" "\<lambda>n. n < 4294967296" fifo_put fifo_get
proof unfold_locales
  show "length (fifo_bytes f) \<le> unat (fifo_size f)" if "fifo_ok f" for f
    using that by (simp add: fifo_ok_def fifo_bytes_def)
next
  fix f xs k f'
  assume "fifo_ok f" "length xs < 4294967296" "fifo_put xs f = (k, f')"
  from fifo_put_eq [OF this] show "fifo_ok f' \<and> unat (fifo_size f') = unat (fifo_size f) \<and>
      k = min (length xs) (unat (fifo_size f) - length (fifo_bytes f)) \<and> fifo_bytes f' = fifo_bytes f @ take k xs" by simp
next
  fix f n ys f'
  assume "fifo_ok f" "n < 4294967296" "fifo_get n f = (ys, f')"
  from fifo_get_eq [OF this] show "fifo_ok f' \<and> unat (fifo_size f') = unat (fifo_size f) \<and> ys = take n (fifo_bytes f) \<and>
      fifo_bytes f' = drop n (fifo_bytes f)" by simp
qed

section \<open>Creation\<close>

lemma and_top: "x AND NOT (mask m) = 0 \<longleftrightarrow> unat x < 2 ^ m" for x :: u32
proof -
  have "x AND NOT (mask m) = 0 \<longleftrightarrow> take_bit m x = x"
    by (auto simp: bit_eq_iff bit_simps)
  also have "\<dots> \<longleftrightarrow> unat x < 2 ^ m"
    unfolding word_unat_eq_iff unsigned_take_bit_eq [symmetric] by (simp add: unsigned_take_bit_eq take_bit_nat_eq_self_iff)
  finally show ?thesis .
qed

lemma top_masks:
  "x AND 0xffff0000 = 0 \<longleftrightarrow> unat x < 2 ^ (32 - 16)" "x AND 0xff000000 = 0 \<longleftrightarrow> unat x < 2 ^ (32 - 8)"
  "x AND 0xf0000000 = 0 \<longleftrightarrow> unat x < 2 ^ (32 - 4)" "x AND 0xc0000000 = 0 \<longleftrightarrow> unat x < 2 ^ (32 - 2)"
  "x AND 0x80000000 = 0 \<longleftrightarrow> unat x < 2 ^ (32 - 1)" for x :: u32
proof -
  have m: "NOT (mask (32 - 16)) = (0xffff0000 :: u32)" "NOT (mask (32 - 8)) = (0xff000000 :: u32)"
    "NOT (mask (32 - 4)) = (0xf0000000 :: u32)" "NOT (mask (32 - 2)) = (0xc0000000 :: u32)"
    "NOT (mask (32 - 1)) = (0x80000000 :: u32)" by code_simp+
  show "x AND 0xffff0000 = 0 \<longleftrightarrow> unat x < 2 ^ (32 - 16)" unfolding m(1) [symmetric] by (rule and_top)
  show "x AND 0xff000000 = 0 \<longleftrightarrow> unat x < 2 ^ (32 - 8)" unfolding m(2) [symmetric] by (rule and_top)
  show "x AND 0xf0000000 = 0 \<longleftrightarrow> unat x < 2 ^ (32 - 4)" unfolding m(3) [symmetric] by (rule and_top)
  show "x AND 0xc0000000 = 0 \<longleftrightarrow> unat x < 2 ^ (32 - 2)" unfolding m(4) [symmetric] by (rule and_top)
  show "x AND 0x80000000 = 0 \<longleftrightarrow> unat x < 2 ^ (32 - 1)" unfolding m(5) [symmetric] by (rule and_top)
qed

text \<open>One step of the search for the last bit set.\<close>

definition flstep :: "nat \<Rightarrow> u32 \<times> nat \<Rightarrow> u32 \<times> nat" where
  "flstep j = (\<lambda>(x, r). if unat x < 2 ^ (32 - j) then (push_bit j x, r - j) else (x, r))"

lemma flbs_steps: "x \<noteq> 0 \<Longrightarrow> flbs x = snd (flstep 1 (flstep 2 (flstep 4 (flstep 8 (flstep 16 (x, 32))))))"
  unfolding flbs_def flstep_def top_masks Let_def by (simp only: prod.case if_False split_beta fst_conv snd_conv)

lemma flstep_ok:
  assumes "flstep j (x, r) = (x', r')" "unat x = n * 2 ^ (32 - r)" "r \<le> 32" "2 ^ (32 - 2 * j) \<le> unat x" "0 < j" "j \<le> 16"
  shows "unat x' = n * 2 ^ (32 - r') \<and> r' \<le> 32 \<and> 2 ^ (32 - j) \<le> unat x'"
proof (cases "unat x < 2 ^ (32 - j)")
  case False
  with assms show ?thesis by (simp add: flstep_def)
next
  case True
  have "0 < n" using assms(2,4) by (cases n) simp_all
  have "j < r"
  proof (rule ccontr)
    assume "\<not> j < r"
    then have "(2 :: nat) ^ (32 - j) \<le> 2 ^ (32 - r)" by (intro power_increasing) simp_all
    also have "\<dots> \<le> unat x" using \<open>0 < n\<close> assms(2) by simp
    finally show False using True by simp
  qed
  have lt: "unat x * 2 ^ j < 4294967296"
  proof -
    have "unat x * 2 ^ j < 2 ^ (32 - j) * 2 ^ j" using True by simp
    also have "\<dots> = 2 ^ 32" using assms(6) by (simp flip: power_add)
    finally show ?thesis by simp
  qed
  have "push_bit j x = of_nat (unat x * 2 ^ j)" by (simp add: push_bit_eq_mult)
  then have "unat (push_bit j x) = unat x * 2 ^ j"
    using lt by (simp only: unat_of_nat) simp
  moreover have "x' = push_bit j x" "r' = r - j" using assms(1) True by (auto simp: flstep_def)
  moreover have "n * 2 ^ (32 - r) * 2 ^ j = n * 2 ^ (32 - (r - j))"
    using \<open>j < r\<close> assms(3) by (simp add: mult.assoc flip: power_add)
  moreover have "2 ^ (32 - j) \<le> unat x * 2 ^ j"
  proof -
    have "(2 :: nat) ^ (32 - j) = 2 ^ (32 - 2 * j) * 2 ^ j" using assms(6) by (simp flip: power_add)
    then show ?thesis using assms(4) by simp
  qed
  moreover have "r - j \<le> 32" using assms(3) by simp
  ultimately show ?thesis using assms(2) by metis
qed

lemma flbs_spec:
  assumes "x \<noteq> 0"
  shows "0 < flbs x \<and> flbs x \<le> 32 \<and> 2 ^ (flbs x - 1) \<le> unat x \<and> unat x < 2 ^ flbs x"
proof -
  obtain x1 r1 x2 r2 x3 r3 x4 r4 x5 r5 where s: "flstep 16 (x, 32) = (x1, r1)" "flstep 8 (x1, r1) = (x2, r2)"
      "flstep 4 (x2, r2) = (x3, r3)" "flstep 2 (x3, r3) = (x4, r4)" "flstep 1 (x4, r4) = (x5, r5)"
    by (metis surj_pair)
  have "1 \<le> unat x" using assms by (simp add: Suc_le_eq unat_gt_0)
  then have 1: "unat x1 = unat x * 2 ^ (32 - r1) \<and> r1 \<le> 32 \<and> 2 ^ (32 - 16) \<le> unat x1"
    by (intro flstep_ok [OF s(1)]) simp_all
  then have 2: "unat x2 = unat x * 2 ^ (32 - r2) \<and> r2 \<le> 32 \<and> 2 ^ (32 - 8) \<le> unat x2"
    by (intro flstep_ok [OF s(2)]) simp_all
  then have 3: "unat x3 = unat x * 2 ^ (32 - r3) \<and> r3 \<le> 32 \<and> 2 ^ (32 - 4) \<le> unat x3"
    by (intro flstep_ok [OF s(3)]) simp_all
  then have 4: "unat x4 = unat x * 2 ^ (32 - r4) \<and> r4 \<le> 32 \<and> 2 ^ (32 - 2) \<le> unat x4"
    by (intro flstep_ok [OF s(4)]) simp_all
  then have 5: "unat x5 = unat x * 2 ^ (32 - r5) \<and> r5 \<le> 32 \<and> 2 ^ (32 - 1) \<le> unat x5"
    by (intro flstep_ok [OF s(5)]) simp_all
  have fl: "flbs x = r5" using flbs_steps [OF assms] s by simp
  have up: "unat x5 < 2 ^ 32" using unsigned_less [of x5, where ?'a = nat] by simp
  have "0 < r5"
  proof (rule ccontr)
    assume "\<not> 0 < r5"
    then have "2 ^ 32 \<le> unat x5" using 5 \<open>1 \<le> unat x\<close> by simp
    with up show False by simp
  qed
  moreover have "2 ^ (r5 - 1) \<le> unat x"
  proof -
    have "(2 :: nat) ^ (r5 - 1) * 2 ^ (32 - r5) = 2 ^ (32 - 1)" using 5 \<open>0 < r5\<close> by (simp flip: power_add)
    then have "(2 :: nat) ^ (r5 - 1) * 2 ^ (32 - r5) \<le> unat x * 2 ^ (32 - r5)" using 5 by simp
    then show ?thesis by simp
  qed
  moreover have "unat x < 2 ^ r5"
  proof -
    have "(2 :: nat) ^ r5 * 2 ^ (32 - r5) = 2 ^ 32" using 5 by (simp flip: power_add)
    then have "unat x * 2 ^ (32 - r5) < 2 ^ r5 * 2 ^ (32 - r5)" using 5 up by simp
    then show ?thesis by simp
  qed
  ultimately show ?thesis using 5 fl by simp
qed


lemma bit_top:
  fixes x :: u32
  assumes "2 ^ j \<le> unat x" "unat x < 2 ^ Suc j"
  shows "bit x j"
proof -
  have "unat x div 2 ^ j = 1" using assms by (intro div_nat_eqI) simp_all
  then have "bit (unat x) j" by (simp add: bit_iff_odd)
  moreover have "j < 32"
  proof (rule ccontr)
    assume "\<not> j < 32"
    then have "(2 :: nat) ^ 32 \<le> 2 ^ j" by (intro power_increasing) simp_all
    with assms(1) unsigned_less [of x, where ?'a = nat] show False by simp
  qed
  ultimately show ?thesis by (simp add: bit_unsigned_iff)
qed

lemma one_bit:
  fixes n :: u32
  assumes "n AND (n - 1) = 0" "n \<noteq> 0"
  shows "n = 2 ^ (flbs n - 1)"
proof -
  let ?j = "flbs n - 1"
  note f = flbs_spec [OF assms(2)]
  then have s: "flbs n = Suc ?j" by simp
  have up: "unat n < 2 ^ Suc ?j" using f s by simp
  have bn: "bit n ?j" using f by (intro bit_top up) simp
  have "unat (n - 1) = unat n - 1" using assms(2) by (simp add: unat_minus_one)
  moreover have "\<not> bit (n - 1) ?j"
  proof
    assume "bit (n - 1) ?j"
    with bn have "bit (n AND (n - 1)) ?j" by (simp add: bit_and_iff)
    with assms(1) show False by simp
  qed
  ultimately have "\<not> 2 ^ ?j \<le> unat n - 1" using bit_top [of ?j "n - 1"] up by linarith
  with f have "unat n = 2 ^ ?j" by linarith
  moreover have "unat (2 ^ ?j :: u32) = 2 ^ ?j" using f by (intro unat_pow) linarith
  ultimately show ?thesis by (metis word_unat_eq_iff)
qed

lemma align_pow:
  assumes "n \<noteq> 0" "n \<noteq> 1"
  shows "salof_fifo_align n = 2 ^ (flbs (n - 1) - 1)" "unat (salof_fifo_align n) < unat n"
    "unat n \<le> 2 * unat (salof_fifo_align n)"
proof -
  have "n - 1 \<noteq> 0" using assms(2) by simp
  note f = flbs_spec [OF this]
  then obtain j where j: "flbs (n - 1) = Suc j" by (cases "flbs (n - 1)") simp_all
  show e: "salof_fifo_align n = 2 ^ (flbs (n - 1) - 1)" by (simp add: salof_fifo_align_def push_bit_eq_mult)
  have u: "unat (2 ^ j :: u32) = 2 ^ j" using f j by (intro unat_pow) simp
  have m: "unat (n - 1) = unat n - 1" "0 < unat n" using assms(1) by (simp_all add: unat_minus_one unat_gt_0)
  show "unat (salof_fifo_align n) < unat n" using f m e j u by simp linarith
  show "unat n \<le> 2 * unat (salof_fifo_align n)" using f m e j u by simp linarith
qed

text \<open>The queue a creation gives: the largest power of two below the size asked for.\<close>

lemma created:
  assumes "0 < n" "n < 2147483648" "\<And>k b. mem k = Some b \<Longrightarrow> length b = k" "salof_fifo_create mem mutex sem n = Some f"
  shows "fifo_ok f \<and> fifo_bytes f = [] \<and> unat (fifo_size f) \<le> unat n \<and> unat n \<le> 2 * unat (fifo_size f)"
proof -
  define m where "m = (if n AND (n - 1) \<noteq> 0 then salof_fifo_align n else n)"
  obtain b where b: "mem (unat m) = Some b" "f = \<lparr>fifo_size = m, fifo_in = 0, fifo_out = 0, fifo_buff = b\<rparr>"
    using assms(1,4) unfolding salof_fifo_create_def m_def [symmetric] Let_def
    by (auto split: option.splits if_splits)
  have n0: "n \<noteq> 0" using assms(1) by auto
  obtain k where k: "m = 2 ^ k" "unat m \<le> unat n" "unat n \<le> 2 * unat m"
  proof (cases "n AND (n - 1) = 0")
    case True
    with one_bit n0 m_def show ?thesis by (intro that [of "flbs n - 1"]) simp_all
  next
    case False
    then have "n \<noteq> 1" by auto
    with align_pow [OF n0 this] False m_def show ?thesis by (intro that [of "flbs (n - 1) - 1"]) simp_all
  qed
  have "0 < unat m" using k(3) n0 by (cases "unat m") (simp_all add: unat_eq_0)
  have "k \<le> 30"
  proof (rule ccontr)
    assume "\<not> k \<le> 30"
    show False
    proof (cases "k = 31")
      case True
      then have "unat m = 2147483648" using k(1) by simp
      moreover have "unat n < 2147483648" using assms(2) by (simp add: word_less_nat_alt)
      ultimately show False using k(2) by simp
    next
      case False
      with \<open>\<not> k \<le> 30\<close> have "32 \<le> k" by simp
      then have "m = 0" using k(1) by (simp add: exp_eq_zero_iff)
      with \<open>0 < unat m\<close> show False by simp
    qed
  qed
  with b k assms(3) show ?thesis by (auto simp: fifo_ok_def fifo_bytes_def ring_def)
qed



text \<open>
  The bytes to read are counted right until the input counter wraps; from then on, until the output counter
  wraps too, the count is too large by the size of the queue.
\<close>

theorem read_able_after_wrap:
  assumes "fifo_ok f"
  shows "unat (salof_fifo_read_able (Some f)) =
    (if fifo_out f \<le> fifo_in f then length (fifo_bytes f) else unat (fifo_size f) + length (fifo_bytes f))"
proof -
  have l: "length (fifo_bytes f) = unat (fifo_in f - fifo_out f)" by (simp add: fifo_bytes_def)
  have e: "fifo_size f - (fifo_out f - fifo_in f) = fifo_size f + (fifo_in f - fifo_out f)" by simp
  have "unat (fifo_size f) + unat (fifo_in f - fifo_out f) < 4294967296"
    using fifo_room(2-4) [OF assms] by simp
  then have "unat (fifo_size f + (fifo_in f - fifo_out f)) = unat (fifo_size f) + unat (fifo_in f - fifo_out f)"
    by (simp add: unat_word_ariths)
  with l show ?thesis unfolding salof_fifo_read_able_def option.case e by auto
qed

theorem read_able_after_wrap_witness:
  "unat (salof_fifo_read_able (Some \<lparr>fifo_size = 4, fifo_in = 1, fifo_out = 0xffffffff, fifo_buff = [7, 8, 9, 10]\<rparr>)) = 6"
proof -
  let ?f = "\<lparr>fifo_size = 4, fifo_in = 1, fifo_out = 0xffffffff, fifo_buff = [7, 8, 9, 10]\<rparr>"
  have s: "fifo_size ?f = 2 ^ 2" by simp
  have "length (fifo_buff ?f) = unat (fifo_size ?f) \<and> unat (fifo_in ?f - fifo_out ?f) \<le> unat (fifo_size ?f)" by code_simp
  with s have "fifo_ok ?f" unfolding fifo_ok_def by (intro conjI exI [of _ 2]) simp_all
  note read_able_after_wrap [OF this]
  moreover have "\<not> fifo_out ?f \<le> fifo_in ?f" "length (fifo_bytes ?f) = 2" by code_simp+
  ultimately show ?thesis by simp
qed

end
