(* ===== verification/C_Text.thy ===== *)
theory C_Text
  imports Prelude
begin

text \<open>
  What the program uses of the C library for text: the digits of a number, the decimal form \<open>%d\<close> prints, the
  characters \<open>%.*s\<close> takes from a pointer, and \<open>snprintf\<close>, which prints a text into a buffer of a given size and
  returns the length of the whole text. The size is a 64-bit unsigned number: a negative \<open>int\<close> becomes huge.
\<close>

section \<open>Digits\<close>

definition upper_digits :: bytes where
  "upper_digits = [48, 49, 50, 51, 52, 53, 54, 55, 56, 57, 65, 66, 67, 68, 69, 70]"

definition lower_digits :: bytes where
  "lower_digits = [48, 49, 50, 51, 52, 53, 54, 55, 56, 57, 97, 98, 99, 100, 101, 102]"

lemma length_digit_tables [simp]: "length upper_digits = 16" "length lower_digits = 16"
  by (simp_all add: upper_digits_def lower_digits_def)

text \<open>The digits of a number, the first one first.\<close>

fun digits_of :: "bytes \<Rightarrow> nat \<Rightarrow> nat \<Rightarrow> bytes" where
  "digits_of ds b n =
     (if n < b \<or> b < 2 then [ds ! n] else digits_of ds b (n div b) @ [ds ! (n mod b)])"

declare digits_of.simps [simp del]

lemma digits_of_10:
  assumes "0 < n"
  shows "\<exists>k ds. 0 < k \<and> k < 10 \<and> digits_of upper_digits 10 n = of_nat (48 + k) # ds"
  using assms
proof (induction n rule: less_induct)
  case (less n)
  have u: "upper_digits ! k = of_nat (48 + k)" if "k < 10" for k
    using that by (auto simp: upper_digits_def numeral_eq_Suc less_Suc_eq)
  show ?case
  proof (cases "n < 10")
    case True
    with less.prems u show ?thesis by (subst digits_of.simps) auto
  next
    case False
    then have "0 < n div 10" by (simp add: div_greater_zero_iff)
    with False obtain k ds where "0 < k" "k < 10" "digits_of upper_digits 10 (n div 10) = of_nat (48 + k) # ds"
      using less.IH [of "n div 10"] by auto
    with False show ?thesis by (subst digits_of.simps) auto
  qed
qed

definition dec :: "int \<Rightarrow> bytes" where
  "dec v = (if v < 0 then [45] else []) @ digits_of upper_digits 10 (nat \<bar>v\<bar>)"

definition ascii :: "string \<Rightarrow> bytes" where
  "ascii xs = map (\<lambda>c. of_nat (of_char c)) xs"

section \<open>Strings with a precision\<close>

text \<open>At most \<open>n\<close> characters, up to a zero; running off the object before that is undefined.\<close>

fun chars_upto :: "nat \<Rightarrow> bytes \<Rightarrow> bytes option" where
  "chars_upto 0 b = Some []"
| "chars_upto (Suc n) [] = None"
| "chars_upto (Suc n) (c # b) = (if c = 0 then Some [] else map_option ((#) c) (chars_upto n b))"

fun chars_all :: "bytes \<Rightarrow> bytes option" where
  "chars_all [] = None"
| "chars_all (c # b) = (if c = 0 then Some [] else map_option ((#) c) (chars_all b))"

text \<open>A negative precision counts as none.\<close>

definition prec_str :: "int \<Rightarrow> (bytes \<times> nat) option \<Rightarrow> bytes option" where
  "prec_str p d =
     (case d of
        None \<Rightarrow> None
      | Some (b, i) \<Rightarrow>
          if length b < i then None
          else if p < 0 then chars_all (drop i b) else chars_upto (nat p) (drop i b))"

lemma chars_upto_take: "n \<le> length b \<Longrightarrow> 0 \<notin> set (take n b) \<Longrightarrow> chars_upto n b = Some (take n b)"
proof (induction n arbitrary: b)
  case (Suc n)
  then obtain c b' where "b = c # b'" by (cases b) auto
  with Suc show ?case by auto
qed simp

lemma prec_str_seg:
  assumes "seg b i xs" "0 \<notin> set (take n xs)" "n \<le> length xs"
  shows "prec_str (int n) (Some (b, i)) = Some (take n xs)"
proof -
  have x: "take (length xs) (drop i b) = xs" "i + length xs \<le> length b" using assms(1) by (simp_all add: seg_def)
  have t: "take n (drop i b) = take n xs" using x(1) assms(3) by (metis min.absorb1 take_take)
  with x(2) assms(2,3) chars_upto_take [of n "drop i b"] show ?thesis by (simp add: prec_str_def)
qed

section \<open>Printing into a buffer\<close>

definition snprintf :: "bytes \<Rightarrow> nat \<Rightarrow> int \<Rightarrow> bytes \<Rightarrow> (int \<times> bytes) option" where
  "snprintf b i n text =
     (let sz = nat (n mod 18446744073709551616) in
      if length b < i then None
      else if sz = 0 then Some (int (length text), b)
      else do {
        (b, _) \<leftarrow> write_bytes (b, i) (take (sz - 1) text @ [0]);
        Some (int (length text), b)
      })"

lemma snprintf_fits:
  assumes "i + length text < n" "n \<le> length b" "n < 18446744073709551616"
  shows "snprintf b i (int n - int i) text =
    Some (int (length text), take i b @ text @ 0 # drop (i + length text + 1) b)"
proof -
  have "nat ((int n - int i) mod 18446744073709551616) = n - i" using assms by simp
  then show ?thesis using assms by (simp add: snprintf_def write_bytes_def Let_def)
qed

lemma snprintf_start:
  assumes "length text < length b" "length b < 2147483648"
  shows "snprintf b 0 (int (length b)) text = Some (int (length text), text @ 0 # drop (length text + 1) b)"
  using snprintf_fits [of 0 "text" "length b" b] assms by simp

lemma snprintf_next:
  assumes "length pre + length text < length b" "length b < 2147483648"
  shows "snprintf (pre @ 0 # drop (length pre + 1) b) (length pre) (int (length b) - int (length pre)) text =
    Some (int (length text), pre @ text @ 0 # drop (length pre + length text + 1) b)"
proof -
  have "length (pre @ 0 # drop (length pre + 1) b) = length b" using assms(1) by simp
  moreover have "drop (length pre + length text + 1) (pre @ 0 # drop (length pre + 1) b) = drop (length pre + length text + 1) b"
    by (simp add: drop_Cons' ac_simps)
  ultimately show ?thesis
    using snprintf_fits [of "length pre" "text" "length b" "pre @ 0 # drop (length pre + 1) b"] assms by simp
qed

lemma snprintf_length: "snprintf b i n text = Some (k, b') \<Longrightarrow> length b' = length b"
  by (auto simp: snprintf_def Let_def split: if_splits bind_splits dest!: write_bytes_length)

end
