(* ===== verification/Salof_Format.thy ===== *)
theory Salof_Format
  imports C_Text "HOL-Library.Signed_Division"
begin

text \<open>
  The formatter of the log output, \<^verbatim>\<open>common/log/format.c\<close>. The format is read one character at
  a time by a machine of six states; \<open>fmt--\<close> of the source puts the character back. A variable argument
  carries the type it was passed with, and fetching it with another type is undefined. The output is a
  buffer and the count of all characters printed, those behind the end of the buffer included.
  Below the code, \<open>render\<close> says what a directive of the C standard prints, and the formatter is shown to
  print that for the directives it supports.
\<close>

unbundle bit_operations_syntax

section \<open>The code\<close>

type_synonym u64 = "64 word"

datatype va = Va_int u32 | Va_llong u64 | Va_ptr u64 | Va_str "bytes option"

datatype fmt_state = S_DEFAULT | S_FLAGS | S_WIDTH | S_PRECIS | S_LENGTH | S_CONV

abbreviation (input) "L_CHAR \<equiv> 1 :: nat"
abbreviation (input) "L_SHORT \<equiv> 2 :: nat"
abbreviation (input) "L_LONG \<equiv> 3 :: nat"
abbreviation (input) "L_LLONG \<equiv> 4 :: nat"
abbreviation (input) "L_DOUBLE \<equiv> 5 :: nat"

abbreviation (input) "F_ALTERNATE \<equiv> 1 :: u32"
abbreviation (input) "F_ZEROPAD \<equiv> 2 :: u32"
abbreviation (input) "F_LEFT \<equiv> 4 :: u32"
abbreviation (input) "F_SPACE \<equiv> 8 :: u32"
abbreviation (input) "F_PLUS \<equiv> 16 :: u32"
abbreviation (input) "F_SIGNED \<equiv> 32 :: u32"
abbreviation (input) "F_SMALL \<equiv> 64 :: u32"

type_synonym sink = "bytes \<times> u32"

definition is_digit :: "u8 \<Rightarrow> bool" where
  "is_digit c \<longleftrightarrow> 48 \<le> c \<and> c \<le> 57"

text \<open>An \<open>int\<close> that leaves its range is undefined.\<close>

fun get_atoi :: "int \<Rightarrow> bytes \<Rightarrow> (int \<times> bytes) option" where
  "get_atoi n [] = None"
| "get_atoi n (c # cs) =
     (if \<not> is_digit c then Some (n, c # cs)
      else if n * 10 + uint c \<ge> 2147483648 then None
      else get_atoi (n * 10 + uint c - 48) cs)"

definition buff_put_char :: "u32 \<Rightarrow> u8 \<Rightarrow> sink \<Rightarrow> sink option" where
  "buff_put_char mx c s =
     (case s of (buf, pos) \<Rightarrow> do {
        buf \<leftarrow> (if pos < mx then arr_set buf (unat pos) c else Some buf);
        Some (buf, pos + 1)
      })"

fun put_all :: "u32 \<Rightarrow> bytes \<Rightarrow> sink \<Rightarrow> sink option" where
  "put_all mx [] s = Some s"
| "put_all mx (c # cs) s = do { s \<leftarrow> buff_put_char mx c s; put_all mx cs s }"

fun pad_loop :: "u32 \<Rightarrow> u8 \<Rightarrow> nat \<Rightarrow> sink \<Rightarrow> sink option" where
  "pad_loop mx c 0 s = Some s"
| "pad_loop mx c (Suc npad) s = do { s \<leftarrow> buff_put_char mx c s; pad_loop mx c npad s }"

text \<open>The digits from the last to the first, as they are stored in \<open>nbuf\<close>. The base lies between 2 and 16.\<close>

function int_digits :: "bytes \<Rightarrow> int \<Rightarrow> int \<Rightarrow> bytes option" where
  "int_digits digits base n =
     (if n smod base < 0 then None
      else
        (case arr digits (nat (n smod base)) of
           None \<Rightarrow> None
         | Some d \<Rightarrow>
             if 1 < base \<and> 0 < n sdiv base
             then map_option (\<lambda>ds. d # ds) (int_digits digits base (n sdiv base))
             else Some [d]))"
  by pat_completeness auto
termination
proof (relation "measure (\<lambda>(_, _, n). nat n)")
  fix digits :: bytes and base n :: int
  assume a: "1 < base \<and> 0 < n sdiv base"
  have "0 < n"
  proof (rule ccontr)
    assume "\<not> 0 < n"
    with a have "n sdiv base \<le> 0" by (auto simp: signed_divide_int_def sgn_if pos_imp_zdiv_nonneg_iff)
    with a show False by simp
  qed
  with a show "((digits, base, n sdiv base), digits, base, n) \<in> measure (\<lambda>(_, _, n). nat n)"
    by (simp add: signed_divide_int_def int_div_less_self)
qed simp

text \<open>The number comes as a \<open>long long\<close> and is kept in an \<open>int\<close>.\<close>

definition int_of_llong :: "int \<Rightarrow> int" where
  "int_of_llong x = sint (word_of_int x :: u32)"

definition salof_format_int :: "u32 \<Rightarrow> int \<Rightarrow> int \<Rightarrow> int \<Rightarrow> u32 \<Rightarrow> sink \<Rightarrow> sink option" where
  "salof_format_int mx num base width flags s =
     (if base < 2 \<or> base > 16 then Some s
      else do {
        let digits = (if flags AND F_SMALL \<noteq> 0 then lower_digits else upper_digits);
        let flags = (if flags AND F_LEFT \<noteq> 0 then flags AND NOT F_ZEROPAD else flags);
        (n, sign) \<leftarrow>
          (if flags AND F_SIGNED \<noteq> 0 \<and> num < 0
           then (if num = -9223372036854775808 then None else Some (int_of_llong (- num), [45]))
           else Some (int_of_llong num,
             if flags AND F_PLUS \<noteq> 0 then [43] else if flags AND F_SPACE \<noteq> 0 then [32] else []));
        nbuf \<leftarrow> int_digits digits base n;
        let altb = sign @
          (if flags AND F_ALTERNATE \<noteq> 0 \<and> (base = 8 \<or> base = 16)
           then 48 # (if base = 16 then [if flags AND F_SMALL \<noteq> 0 then 120 else 88] else []) else []);
        let i = int (length nbuf);
        let j = int (length altb);
        let npad = (if width > i + j then width - i - j else 0);
        (s, altb, npad) \<leftarrow>
          (if npad > 0 \<and> flags AND F_LEFT = 0
           then do {
             (s, altb) \<leftarrow> (if flags AND F_ZEROPAD \<noteq> 0
                          then do { s \<leftarrow> put_all mx altb s; Some (s, []) } else Some (s, altb));
             s \<leftarrow> pad_loop mx (if flags AND F_ZEROPAD \<noteq> 0 then 48 else 32) (nat npad) s;
             Some (s, altb, -1)
           }
           else Some (s, altb, npad));
        s \<leftarrow> put_all mx altb s;
        s \<leftarrow> put_all mx (rev nbuf) s;
        if npad > 0 \<and> flags AND F_LEFT \<noteq> 0 then pad_loop mx 32 (nat npad) s else Some s
      })"

definition salof_format_char :: "u32 \<Rightarrow> u8 \<Rightarrow> int \<Rightarrow> u32 \<Rightarrow> sink \<Rightarrow> sink option" where
  "salof_format_char mx c width flags s =
     do {
       let npad = (if width > 0 then width - 1 else 0);
       s \<leftarrow> (if npad \<noteq> 0 \<and> flags AND F_LEFT = 0 then pad_loop mx 32 (nat npad) s else Some s);
       s \<leftarrow> buff_put_char mx c s;
       if npad \<noteq> 0 \<and> flags AND F_LEFT \<noteq> 0 then pad_loop mx 32 (nat npad) s else Some s
     }"

fun str_len :: "bytes \<Rightarrow> nat option" where
  "str_len [] = None"
| "str_len (c # s) = (if c = 0 then Some 0 else map_option Suc (str_len s))"

fun put_str :: "u32 \<Rightarrow> bytes \<Rightarrow> sink \<Rightarrow> sink option" where
  "put_str mx [] s = None"
| "put_str mx (c # cs) s = (if c = 0 then Some s else do { s \<leftarrow> buff_put_char mx c s; put_str mx cs s })"

text \<open>The difference of the width and the unsigned length is converted back to an \<open>int\<close>.\<close>

definition salof_format_str :: "u32 \<Rightarrow> bytes \<Rightarrow> int \<Rightarrow> u32 \<Rightarrow> sink \<Rightarrow> sink option" where
  "salof_format_str mx str width flags s =
     do {
       npad \<leftarrow> (if width > 0
                then do { l \<leftarrow> str_len str; Some (sint (word_of_int (width - int l) :: u32)) } else Some 0);
       let npad = max npad 0;
       s \<leftarrow> (if npad \<noteq> 0 \<and> flags AND F_LEFT = 0 then pad_loop mx 32 (nat npad) s else Some s);
       s \<leftarrow> put_str mx str s;
       if npad \<noteq> 0 \<and> flags AND F_LEFT \<noteq> 0 then pad_loop mx 32 (nat npad) s else Some s
     }"

text \<open>The machine: its state and the variables a directive sets.\<close>

record fmt_vars =
  fm_state :: fmt_state
  fm_flags :: u32
  fm_width :: int
  fm_lflags :: nat

type_synonym fmt_result = "(u8 \<times> fmt_vars \<times> bytes \<times> va list \<times> sink) option"

fun va_int :: "va list \<Rightarrow> (u32 \<times> va list) option" where
  "va_int (Va_int x # ap) = Some (x, ap)"
| "va_int _ = None"

fun va_llong :: "va list \<Rightarrow> (u64 \<times> va list) option" where
  "va_llong (Va_llong x # ap) = Some (x, ap)"
| "va_llong _ = None"

fun va_ptr :: "va list \<Rightarrow> (u64 \<times> va list) option" where
  "va_ptr (Va_ptr x # ap) = Some (x, ap)"
| "va_ptr _ = None"

fun va_str :: "va list \<Rightarrow> (bytes option \<times> va list) option" where
  "va_str (Va_str x # ap) = Some (x, ap)"
| "va_str _ = None"

definition step_flags :: "fmt_vars \<Rightarrow> u8 \<Rightarrow> bytes \<Rightarrow> va list \<Rightarrow> sink \<Rightarrow> fmt_result" where
  "step_flags m c fmt ap s =
     (if c = 35 then Some (c, m\<lparr>fm_flags := fm_flags m OR F_ALTERNATE\<rparr>, fmt, ap, s)
      else if c = 48 then Some (c, m\<lparr>fm_flags := fm_flags m OR F_ZEROPAD\<rparr>, fmt, ap, s)
      else if c = 45 then Some (c, m\<lparr>fm_flags := fm_flags m OR F_LEFT\<rparr>, fmt, ap, s)
      else if c = 32 then Some (c, m\<lparr>fm_flags := fm_flags m OR F_SPACE\<rparr>, fmt, ap, s)
      else if c = 43 then Some (c, m\<lparr>fm_flags := fm_flags m OR F_PLUS\<rparr>, fmt, ap, s)
      else if c = 39 \<or> c = 73 then Some (c, m, fmt, ap, s)
      else Some (c, m\<lparr>fm_width := 0, fm_state := S_WIDTH\<rparr>, c # fmt, ap, s))"

definition step_width :: "fmt_vars \<Rightarrow> u8 \<Rightarrow> bytes \<Rightarrow> va list \<Rightarrow> sink \<Rightarrow> fmt_result" where
  "step_width m c fmt ap s =
     (if c = 42
      then do {
        (x, ap) \<leftarrow> va_int ap;
        let width = sint x;
        if width < 0
        then if width = -2147483648 then None
          else Some (c, m\<lparr>fm_width := - width, fm_flags := fm_flags m OR F_LEFT\<rparr>, fmt, ap, s)
        else Some (c, m\<lparr>fm_width := width\<rparr>, fmt, ap, s)
      }
      else if is_digit c \<and> c > 48
      then do { (width, fmt) \<leftarrow> get_atoi 0 (c # fmt); Some (c, m\<lparr>fm_width := width\<rparr>, fmt, ap, s) }
      else Some (c, m\<lparr>fm_state := S_PRECIS\<rparr>, c # fmt, ap, s))"

text \<open>The precision is skipped. The \<open>*\<close> of a precision is not: it stays in the format.\<close>

definition step_precis :: "fmt_vars \<Rightarrow> u8 \<Rightarrow> bytes \<Rightarrow> va list \<Rightarrow> sink \<Rightarrow> fmt_result" where
  "step_precis m c fmt ap s =
     do {
       (fmt, ap) \<leftarrow>
         (if c = 46
          then (case fmt of
                  [] \<Rightarrow> None
                | d # _ \<Rightarrow>
                    if is_digit d then do { (_, fmt) \<leftarrow> get_atoi 0 fmt; Some (fmt, ap) }
                    else if d = 42 then do { (_, ap) \<leftarrow> va_int ap; Some (fmt, ap) }
                    else Some (fmt, ap))
          else Some (c # fmt, ap));
       Some (c, m\<lparr>fm_lflags := 0, fm_state := S_LENGTH\<rparr>, fmt, ap, s)
     }"

definition step_length :: "fmt_vars \<Rightarrow> u8 \<Rightarrow> bytes \<Rightarrow> va list \<Rightarrow> sink \<Rightarrow> fmt_result" where
  "step_length m c fmt ap s =
     (if c = 104 then Some (c, m\<lparr>fm_lflags := if fm_lflags m = L_CHAR then L_SHORT else L_CHAR\<rparr>, fmt, ap, s)
      else if c = 108 then Some (c, m\<lparr>fm_lflags := if fm_lflags m = L_LONG then L_LLONG else L_LONG\<rparr>, fmt, ap, s)
      else if c = 76 then Some (c, m\<lparr>fm_lflags := L_DOUBLE\<rparr>, fmt, ap, s)
      else Some (c, m\<lparr>fm_state := S_CONV\<rparr>, c # fmt, ap, s))"

definition fetch_num :: "nat \<Rightarrow> u8 \<Rightarrow> va list \<Rightarrow> (int \<times> va list) option" where
  "fetch_num lflags c ap =
     (if lflags = L_LONG then map_option (apfst sint) (va_int ap)
      else if lflags AND (L_LLONG OR L_DOUBLE) \<noteq> 0 then map_option (apfst sint) (va_llong ap)
      else if c = 100 \<or> c = 105 then map_option (apfst sint) (va_int ap)
      else map_option (apfst uint) (va_int ap))"

definition step_conv :: "u32 \<Rightarrow> fmt_vars \<Rightarrow> u8 \<Rightarrow> bytes \<Rightarrow> va list \<Rightarrow> sink \<Rightarrow> fmt_result" where
  "step_conv mx m c fmt ap s =
     do {
       (c, ap, s) \<leftarrow>
         (if c \<in> {100, 105, 111, 98, 117, 120, 88}
          then do {
            (num, ap) \<leftarrow> fetch_num (fm_lflags m) c ap;
            let flags = (if c = 100 \<or> c = 105 then fm_flags m OR F_SIGNED
                         else if c = 120 then fm_flags m OR F_SMALL else fm_flags m);
            let base = (if c = 120 \<or> c = 88 then 16 else if c = 111 then 8 else if c = 98 then 2 else 10);
            s \<leftarrow> salof_format_int mx num base (fm_width m) flags s;
            Some (c, ap, s)
          }
          else if c = 112
          then do {
            (num, ap) \<leftarrow> va_ptr ap;
            s \<leftarrow> salof_format_int mx (sint num) 16 (fm_width m) (fm_flags m OR (F_SMALL OR F_ALTERNATE)) s;
            Some (c, ap, s)
          }
          else if c = 115
          then do {
            (str, ap) \<leftarrow> va_str ap;
            let str = (case str of None \<Rightarrow> [40, 110, 117, 108, 108, 41, 0] | Some str \<Rightarrow> str);
            s \<leftarrow> salof_format_str mx str (fm_width m) (fm_flags m) s;
            Some (c, ap, s)
          }
          else if c = 99
          then do {
            (x, ap) \<leftarrow> va_int ap;
            let c = ucast x;
            s \<leftarrow> salof_format_char mx c (fm_width m) (fm_flags m) s;
            Some (c, ap, s)
          }
          else if c = 37
          then do { s \<leftarrow> buff_put_char mx c s; Some (c, ap, s) }
          else do { s \<leftarrow> buff_put_char mx 37 s; s \<leftarrow> buff_put_char mx c s; Some (c, ap, s) });
       Some (c, m\<lparr>fm_state := S_DEFAULT\<rparr>, fmt, ap, s)
     }"

definition fmt_step :: "u32 \<Rightarrow> fmt_vars \<Rightarrow> u8 \<Rightarrow> bytes \<Rightarrow> va list \<Rightarrow> sink \<Rightarrow> fmt_result" where
  "fmt_step mx m c fmt ap s =
     (case fm_state m of
        S_DEFAULT \<Rightarrow>
          if c = 37 then Some (c, m\<lparr>fm_state := S_FLAGS, fm_flags := 0\<rparr>, fmt, ap, s)
          else do { s \<leftarrow> buff_put_char mx c s; Some (c, m, fmt, ap, s) }
      | S_FLAGS \<Rightarrow> step_flags m c fmt ap s
      | S_WIDTH \<Rightarrow> step_width m c fmt ap s
      | S_PRECIS \<Rightarrow> step_precis m c fmt ap s
      | S_LENGTH \<Rightarrow> step_length m c fmt ap s
      | S_CONV \<Rightarrow> step_conv mx m c fmt ap s)"

text \<open>Every step takes a character or moves to a later state of the directive.\<close>

fun fmt_rank :: "fmt_state \<Rightarrow> nat" where
  "fmt_rank S_DEFAULT = 0"
| "fmt_rank S_FLAGS = 4"
| "fmt_rank S_WIDTH = 3"
| "fmt_rank S_PRECIS = 2"
| "fmt_rank S_LENGTH = 1"
| "fmt_rank S_CONV = 0"

lemma get_atoi_shrinks: "get_atoi n cs = Some (k, r) \<Longrightarrow> length r \<le> length cs"
  by (induction n cs rule: get_atoi.induct) (auto split: if_splits)

lemma fmt_step_shrinks:
  assumes "fmt_step mx m c fmt ap s = Some (c', m', fmt', ap', s')"
  shows "length fmt' \<le> length fmt \<or> length fmt' = Suc (length fmt) \<and> fmt_rank (fm_state m') < fmt_rank (fm_state m)"
  using assms
  by (auto simp: fmt_step_def step_flags_def step_width_def step_precis_def step_length_def step_conv_def
      is_digit_def Let_def
      split: fmt_state.splits if_splits bind_splits prod.splits list.splits dest: get_atoi_shrinks)

function format_loop :: "u32 \<Rightarrow> fmt_vars \<Rightarrow> bytes \<Rightarrow> va list \<Rightarrow> sink \<Rightarrow> sink option" where
  "format_loop mx m fmt ap s =
     (case fmt of
        [] \<Rightarrow> None
      | c # fmt \<Rightarrow>
          (case fmt_step mx m c fmt ap s of
             None \<Rightarrow> None
           | Some (c, m, fmt, ap, s) \<Rightarrow> if c = 0 then Some s else format_loop mx m fmt ap s))"
  by pat_completeness auto
termination
  by (relation "measures [\<lambda>(_, _, fmt, _). length fmt, \<lambda>(_, m, _). fmt_rank (fm_state m)]")
    (auto dest!: fmt_step_shrinks)

declare format_loop.simps [simp del]

definition salof_format_nstr :: "bytes option \<Rightarrow> u32 \<Rightarrow> bytes \<Rightarrow> va list \<Rightarrow> (int \<times> bytes option) option" where
  "salof_format_nstr buf sz fmt ap =
     do {
       let sz = (if buf = None then 0 else sz);
       (b, n) \<leftarrow> format_loop sz \<lparr>fm_state = S_DEFAULT, fm_flags = 0, fm_width = 0, fm_lflags = 0\<rparr> fmt ap
                  (case buf of None \<Rightarrow> [] | Some b \<Rightarrow> b, 0);
       let n = n - 1;
       b \<leftarrow> (if n < sz then arr_set b (unat n) 0
            else if sz > 0 then arr_set b (unat (sz - 1)) 0 else Some b);
       Some (sint n, map_option (\<lambda>_. b) buf)
     }"

section \<open>What the directives print\<close>

record spec =
  sp_left :: bool
  sp_zero :: bool
  sp_plus :: bool
  sp_space :: bool
  sp_width :: nat

datatype conv = Dec int | Uns nat | Oct nat | Hex bool nat | Chr u8 | Str bytes

datatype piece = Lit u8 | Percent | Dir spec conv

text \<open>A directive as it stands in the format, and the argument that goes with it.\<close>

definition spell_flags :: "spec \<Rightarrow> bytes" where
  "spell_flags sp =
     (if sp_left sp then [45] else []) @ (if sp_zero sp then [48] else []) @
     (if sp_plus sp then [43] else []) @ (if sp_space sp then [32] else [])"

definition spell_width :: "spec \<Rightarrow> bytes" where
  "spell_width sp = (if sp_width sp = 0 then [] else digits_of upper_digits 10 (sp_width sp))"

fun letter :: "conv \<Rightarrow> u8" where
  "letter (Dec _) = 100"
| "letter (Uns _) = 117"
| "letter (Oct _) = 111"
| "letter (Hex up _) = (if up then 88 else 120)"
| "letter (Chr _) = 99"
| "letter (Str _) = 115"

fun spell :: "piece \<Rightarrow> bytes" where
  "spell (Lit c) = [c]"
| "spell Percent = [37, 37]"
| "spell (Dir sp cv) = 37 # spell_flags sp @ spell_width sp @ [letter cv]"

fun arg_of :: "conv \<Rightarrow> va" where
  "arg_of (Dec v) = Va_int (word_of_int v)"
| "arg_of (Uns n) = Va_int (of_nat n)"
| "arg_of (Oct n) = Va_int (of_nat n)"
| "arg_of (Hex _ n) = Va_int (of_nat n)"
| "arg_of (Chr c) = Va_int (ucast c)"
| "arg_of (Str s) = Va_str (Some (s @ [0]))"

fun args_of :: "piece \<Rightarrow> va list" where
  "args_of (Dir sp cv) = [arg_of cv]"
| "args_of _ = []"

text \<open>The printed field: sign, digits or text, and the padding to the width.\<close>

definition field :: "spec \<Rightarrow> bytes \<Rightarrow> bytes \<Rightarrow> bytes" where
  "field sp sign body =
     (let k = sp_width sp - (length sign + length body) in
      if sp_left sp then sign @ body @ replicate k 32
      else if sp_zero sp then sign @ replicate k 48 @ body
      else replicate k 32 @ sign @ body)"

definition sign_of :: "spec \<Rightarrow> int \<Rightarrow> bytes" where
  "sign_of sp v = (if v < 0 then [45] else if sp_plus sp then [43] else if sp_space sp then [32] else [])"

fun render :: "piece \<Rightarrow> bytes" where
  "render (Lit c) = [c]"
| "render Percent = [37]"
| "render (Dir sp (Dec v)) = field sp (sign_of sp v) (digits_of upper_digits 10 (nat \<bar>v\<bar>))"
| "render (Dir sp (Uns n)) = field sp [] (digits_of upper_digits 10 n)"
| "render (Dir sp (Oct n)) = field sp [] (digits_of upper_digits 8 n)"
| "render (Dir sp (Hex up n)) = field sp [] (digits_of (if up then upper_digits else lower_digits) 16 n)"
| "render (Dir sp (Chr c)) = field sp [] [c]"
| "render (Dir sp (Str s)) = field sp [] s"

text \<open>The directives whose behaviour the standard defines, with values below 2 to the power 31.\<close>

fun conv_ok :: "spec \<Rightarrow> conv \<Rightarrow> bool" where
  "conv_ok sp (Dec v) \<longleftrightarrow> \<bar>v\<bar> < 2147483648"
| "conv_ok sp (Uns n) \<longleftrightarrow> n < 2147483648 \<and> \<not> sp_plus sp \<and> \<not> sp_space sp"
| "conv_ok sp (Oct n) \<longleftrightarrow> n < 2147483648 \<and> \<not> sp_plus sp \<and> \<not> sp_space sp"
| "conv_ok sp (Hex _ n) \<longleftrightarrow> n < 2147483648 \<and> \<not> sp_plus sp \<and> \<not> sp_space sp"
| "conv_ok sp (Chr c) \<longleftrightarrow> c \<noteq> 0 \<and> \<not> sp_zero sp \<and> \<not> sp_plus sp \<and> \<not> sp_space sp"
| "conv_ok sp (Str s) \<longleftrightarrow> 0 \<notin> set s \<and> length s < 2147483648 \<and> \<not> sp_zero sp \<and> \<not> sp_plus sp \<and> \<not> sp_space sp"

fun piece_ok :: "piece \<Rightarrow> bool" where
  "piece_ok (Lit c) \<longleftrightarrow> c \<noteq> 37 \<and> c \<noteq> 0"
| "piece_ok Percent \<longleftrightarrow> True"
| "piece_ok (Dir sp cv) \<longleftrightarrow> sp_width sp < 2147483600 \<and> conv_ok sp cv"

section \<open>The output\<close>

text \<open>What a buffer \<open>b\<close> and the counter hold when \<open>xs\<close> has been printed.\<close>

definition sunk :: "u32 \<Rightarrow> bytes \<Rightarrow> bytes \<Rightarrow> sink" where
  "sunk mx b xs = (take (unat mx) xs @ drop (min (unat mx) (length xs)) b, of_nat (length xs))"

lemma put_char_sunk:
  assumes "unat mx \<le> length b" "length xs < 4294967296"
  shows "buff_put_char mx c (sunk mx b xs) = Some (sunk mx b (xs @ [c]))"
proof -
  have u: "unat (of_nat (length xs) :: u32) = length xs" using assms(2) by (simp add: unat_of_nat)
  then have lt: "of_nat (length xs) < mx \<longleftrightarrow> length xs < unat mx" by (simp add: word_less_nat_alt)
  show ?thesis
  proof (cases "length xs < unat mx")
    case True
    with assms(1) have "length xs < length b" by simp
    then have "(xs @ drop (length xs) b)[length xs := c] = xs @ c # drop (Suc (length xs)) b"
      by (simp add: list_update_append flip: Cons_nth_drop_Suc)
    moreover have "min (unat mx) (length xs) = length xs" "min (unat mx) (Suc (length xs)) = Suc (length xs)"
      using True by simp_all
    ultimately show ?thesis using True u lt \<open>length xs < length b\<close>
      by (simp add: buff_put_char_def sunk_def ac_simps)
  next
    case False
    with u lt show ?thesis by (simp add: buff_put_char_def sunk_def min_def ac_simps)
  qed
qed

lemma put_all_sunk:
  "unat mx \<le> length b \<Longrightarrow> length xs + length ys \<le> 4294967296 \<Longrightarrow>
   put_all mx ys (sunk mx b xs) = Some (sunk mx b (xs @ ys))"
  by (induction ys arbitrary: xs) (simp_all add: put_char_sunk)

lemma pad_loop_all: "pad_loop mx c n = put_all mx (replicate n c)"
proof (induction n)
  case (Suc n)
  show ?case by (rule ext) (simp add: Suc)
qed (simp add: fun_eq_iff)

lemma put_str_all: "0 \<notin> set ys \<Longrightarrow> put_str mx (ys @ 0 # r) = put_all mx ys"
proof (induction ys)
  case (Cons y ys)
  then have "put_str mx (ys @ 0 # r) = put_all mx ys" "y \<noteq> 0" by auto
  then show ?case by (intro ext) simp
qed (simp add: fun_eq_iff)

lemma str_len_cstr: "0 \<notin> set ys \<Longrightarrow> str_len (ys @ 0 # r) = Some (length ys)"
  by (induction ys) auto

section \<open>Numbers\<close>

lemma int_digits_of:
  assumes "2 \<le> b" "b \<le> length ds"
  shows "int_digits ds (int b) (int n) = Some (rev (digits_of ds b n))"
proof (induction n rule: less_induct)
  case (less n)
  have sm: "int n smod int b = int (n mod b)" "int n sdiv int b = int (n div b)"
    using assms(1) by (simp_all add: signed_modulo_int_def signed_divide_int_def sgn_if zdiv_int zmod_int)
  have "n mod b < length ds" using assms by (metis less_le_trans mod_less_divisor not_numeral_le_zero zero_less_iff_neq_zero)
  moreover have "n div b < n" if "\<not> n < b" using that assms(1) by simp
  moreover have "0 < n div b \<longleftrightarrow> \<not> n < b" using assms(1) by (simp add: div_greater_zero_iff not_less)
  ultimately show ?case
    using less assms(1) by (subst int_digits.simps, subst digits_of.simps) (auto simp: sm)
qed

lemma put_all_bind:
  "Option.bind (put_all mx xs s) (put_all mx ys) = put_all mx (xs @ ys) s"
  "Option.bind (put_all mx xs s) (\<lambda>s. Option.bind (put_all mx ys s) g) = Option.bind (put_all mx (xs @ ys) s) g"
proof -
  have "Option.bind (put_all mx xs s) (\<lambda>s. Option.bind (put_all mx ys s) g) = Option.bind (put_all mx (xs @ ys) s) g" for g
  proof (induction xs arbitrary: s)
    case (Cons x xs)
    then show ?case by (cases "buff_put_char mx x s") simp_all
  qed simp
  from this [of Some] this [of g] show "Option.bind (put_all mx xs s) (put_all mx ys) = put_all mx (xs @ ys) s"
    "Option.bind (put_all mx xs s) (\<lambda>s. Option.bind (put_all mx ys s) g) = Option.bind (put_all mx (xs @ ys) s) g"
    by simp_all
qed

lemma int_of_llong_small: "\<bar>v\<bar> < 2147483648 \<Longrightarrow> int_of_llong v = v"
  using signed_take_bit_int_eq_self [of 31 v] by (simp add: int_of_llong_def signed_of_int)

lemma drop_zeropad:
  "k = 4 \<or> k = 1 \<or> k = 64 \<or> k = 32 \<or> k = 16 \<or> k = 8 \<Longrightarrow> (f AND NOT F_ZEROPAD) AND k = f AND k" for f :: u32
  unfolding and.assoc by (elim disjE) (simp_all only:, simp_all)

text \<open>The flags of the machine and of a directive.\<close>

definition flags_for :: "u32 \<Rightarrow> spec \<Rightarrow> bool" where
  "flags_for f sp \<longleftrightarrow> (f AND F_LEFT \<noteq> 0 \<longleftrightarrow> sp_left sp) \<and> (f AND F_ZEROPAD \<noteq> 0 \<longleftrightarrow> sp_zero sp) \<and>
     (f AND F_PLUS \<noteq> 0 \<longleftrightarrow> sp_plus sp) \<and> (f AND F_SPACE \<noteq> 0 \<longleftrightarrow> sp_space sp) \<and> f AND F_ALTERNATE = 0"

lemma format_int_field:
  assumes f: "flags_for f sp" and "\<bar>v\<bar> < 2147483648" "2 \<le> b" "b \<le> 16" "f AND F_SIGNED = 0 \<Longrightarrow> 0 \<le> v"
    and ds: "ds = (if f AND F_SMALL \<noteq> 0 then lower_digits else upper_digits)"
  shows "salof_format_int mx v (int b) (int (sp_width sp)) f s =
    put_all mx (field sp (sign_of sp v) (digits_of ds b (nat \<bar>v\<bar>))) s"
proof -
  define f' where "f' = (if f AND F_LEFT \<noteq> 0 then f AND NOT F_ZEROPAD else f)"
  define D where "D = digits_of ds b (nat \<bar>v\<bar>)"
  have keep: "f' AND F_LEFT = f AND F_LEFT" "f' AND F_ALTERNATE = f AND F_ALTERNATE" "f' AND F_SMALL = f AND F_SMALL"
    "f' AND F_SIGNED = f AND F_SIGNED" "f' AND F_PLUS = f AND F_PLUS" "f' AND F_SPACE = f AND F_SPACE"
    unfolding f'_def using drop_zeropad [of _ f] by simp_all
  have zero: "f' AND F_ZEROPAD \<noteq> 0 \<longleftrightarrow> sp_zero sp" if "\<not> sp_left sp"
    using f that by (simp add: f'_def flags_for_def)
  have sign: "(if f' AND F_SIGNED \<noteq> 0 \<and> v < 0
      then if v = -9223372036854775808 then None else Some (int_of_llong (- v), [45])
      else Some (int_of_llong v, if f' AND F_PLUS \<noteq> 0 then [43] else if f' AND F_SPACE \<noteq> 0 then [32] else [])) =
    Some (int (nat \<bar>v\<bar>), sign_of sp v)"
    using f assms(2,5) int_of_llong_small [of v] int_of_llong_small [of "- v"]
    by (auto simp: keep flags_for_def sign_of_def)
  have dig: "int_digits ds (int b) (int (nat \<bar>v\<bar>)) = Some (rev D)"
    unfolding D_def using assms(3,4) ds by (intro int_digits_of) simp_all
  have b: "\<not> (int b < 2 \<or> 16 < int b)" using assms(3,4) by simp
  have alt: "\<not> (f' AND F_ALTERNATE \<noteq> 0 \<and> (int b = 8 \<or> int b = 16))" using f by (simp add: keep flags_for_def)
  have width: "nat (int w - int (length D) - int l) = w - (l + length D)"
    "int w > int (length D) + int l \<longleftrightarrow> w - (l + length D) \<noteq> 0" for w l by auto
  have dg: "(if f AND F_SMALL \<noteq> 0 then lower_digits else upper_digits) = ds" using ds by simp
  define S where "S = sign_of sp v"
  define k where "k = sp_width sp - (length S + length D)"
  have np: "(if int (sp_width sp) > int (length D) + int (length S) then int (sp_width sp) - int (length D) - int (length S) else 0) = int k"
    by (simp add: k_def)
  have left: "f AND F_LEFT = 0 \<longleftrightarrow> \<not> sp_left sp" using f by (auto simp: flags_for_def)
  show ?thesis
    unfolding salof_format_int_def Let_def if_not_P [OF b] f'_def [symmetric] sign dg bind.bind_lunit prod.case dig
    unfolding if_not_P [OF alt] append_Nil2 length_rev keep(1) S_def [symmetric] np left rev_rev_ident
      D_def [symmetric] field_def Let_def k_def [symmetric]
    by (cases "sp_left sp"; cases "k = 0"; cases "sp_zero sp") (simp_all add: zero put_all_bind pad_loop_all)
qed

lemma format_char_field:
  assumes "flags_for f sp" "\<not> sp_zero sp"
  shows "salof_format_char mx c (int (sp_width sp)) f s = put_all mx (field sp [] [c]) s"
proof -
  define k where "k = sp_width sp - 1"
  have np: "(if int (sp_width sp) > 0 then int (sp_width sp) - 1 else 0) = int k" by (simp add: k_def)
  have left: "f AND F_LEFT = 0 \<longleftrightarrow> \<not> sp_left sp" using assms by (auto simp: flags_for_def)
  have one: "buff_put_char mx c s = put_all mx [c] s" for s by (cases "buff_put_char mx c s") simp_all
  show ?thesis
    unfolding salof_format_char_def Let_def np nat_int left one
    using assms(2) by (cases "sp_left sp"; cases "k = 0") (simp_all add: field_def k_def put_all_bind pad_loop_all del: put_all.simps)
qed

lemma format_str_field:
  assumes "flags_for f sp" "\<not> sp_zero sp" "0 \<notin> set ys" "length ys < 2147483648" "sp_width sp < 2147483648"
  shows "salof_format_str mx (ys @ [0]) (int (sp_width sp)) f s = put_all mx (field sp [] ys) s"
proof -
  define k where "k = sp_width sp - length ys"
  have "\<bar>int (sp_width sp) - int (length ys)\<bar> < 2147483648" using assms(4,5) by linarith
  then have "sint (word_of_int (int (sp_width sp) - int (length ys)) :: u32) = int (sp_width sp) - int (length ys)"
    by (rule int_of_llong_small [unfolded int_of_llong_def])
  then have np: "(if int (sp_width sp) > 0
      then do { l \<leftarrow> str_len (ys @ [0]); Some (sint (word_of_int (int (sp_width sp) - int l) :: u32)) } else Some 0) =
    Some (int (sp_width sp) - int (if sp_width sp = 0 then 0 else length ys))"
    using assms(3) by (simp add: str_len_cstr)
  have mx: "max (int (sp_width sp) - int (if sp_width sp = 0 then 0 else length ys)) 0 = int k" by (auto simp: k_def)
  have left: "f AND F_LEFT = 0 \<longleftrightarrow> \<not> sp_left sp" using assms by (auto simp: flags_for_def)
  show ?thesis
    unfolding salof_format_str_def Let_def np left bind.bind_lunit mx nat_int
    using assms(2,3) by (cases "sp_left sp"; cases "k = 0") (simp_all add: field_def k_def put_all_bind pad_loop_all put_str_all)
qed

section \<open>The machine on a directive\<close>

lemma format_loop_step:
  "fmt_step mx m c fmt ap s = Some (c', m', fmt', ap', s') \<Longrightarrow> c' \<noteq> 0 \<Longrightarrow>
   format_loop mx m (c # fmt) ap s = format_loop mx m' fmt' ap' s'"
  by (simp add: format_loop.simps [of mx m "c # fmt"])

definition flag_word :: "spec \<Rightarrow> u32" where
  "flag_word sp = (if sp_left sp then F_LEFT else 0) OR (if sp_zero sp then F_ZEROPAD else 0) OR
     (if sp_plus sp then F_PLUS else 0) OR (if sp_space sp then F_SPACE else 0)"

lemma flags_for_word:
  "x = 0 \<or> x = F_SIGNED \<or> x = F_SMALL \<Longrightarrow> flags_for (flag_word sp OR x) sp \<and>
    ((flag_word sp OR x) AND F_SMALL \<noteq> 0 \<longleftrightarrow> x = F_SMALL) \<and> ((flag_word sp OR x) AND F_SIGNED = 0 \<longleftrightarrow> x \<noteq> F_SIGNED)"
  by (cases "sp_left sp"; cases "sp_zero sp"; cases "sp_plus sp"; cases "sp_space sp")
    (auto simp: flags_for_def flag_word_def)

lemma run_flag:
  assumes "fm_state m = S_FLAGS" "(c, k) \<in> {(45, F_LEFT), (48, F_ZEROPAD), (43, F_PLUS), (32, F_SPACE)}"
  shows "format_loop mx m ((if p then [c] else []) @ rest) ap s =
    format_loop mx (m\<lparr>fm_flags := fm_flags m OR (if p then k else 0)\<rparr>) rest ap s"
proof (cases p)
  case True
  have "fmt_step mx m c rest ap s = Some (c, m\<lparr>fm_flags := fm_flags m OR k\<rparr>, rest, ap, s)" "c \<noteq> 0"
    using assms by (auto simp: fmt_step_def step_flags_def)
  from format_loop_step [OF this] True show ?thesis by simp
qed simp

lemma run_flags:
  assumes "fm_state m = S_FLAGS"
  shows "format_loop mx m (spell_flags sp @ rest) ap s =
    format_loop mx (m\<lparr>fm_flags := fm_flags m OR flag_word sp\<rparr>) rest ap s"
  using assms by (simp add: spell_flags_def flag_word_def run_flag or.assoc
      del: append_Cons append_Nil)

definition is_letter :: "u8 \<Rightarrow> bool" where
  "is_letter c \<longleftrightarrow> c \<in> {100, 117, 111, 88, 120, 99, 115}"

lemma letter_is_letter: "is_letter (letter cv)"
  by (cases cv) (simp_all add: is_letter_def)

text \<open>From the end of the width to the conversion, when no precision and no length is given.\<close>

lemma run_letter:
  assumes "fm_state m = S_WIDTH" "is_letter c"
  shows "format_loop mx m (c # rest) ap s = format_loop mx (m\<lparr>fm_lflags := 0, fm_state := S_CONV\<rparr>) (c # rest) ap s"
proof -
  let ?m1 = "m\<lparr>fm_state := S_PRECIS\<rparr>" and ?m2 = "m\<lparr>fm_lflags := 0, fm_state := S_LENGTH\<rparr>"
  have c: "c \<noteq> 0" using assms(2) by (auto simp: is_letter_def)
  have "fmt_step mx m c rest ap s = Some (c, ?m1, c # rest, ap, s)"
    using assms by (auto simp: fmt_step_def step_width_def is_letter_def is_digit_def)
  note 1 = format_loop_step [OF this c]
  have "fmt_step mx ?m1 c rest ap s = Some (c, ?m2, c # rest, ap, s)"
    using assms by (auto simp: fmt_step_def step_precis_def is_letter_def)
  note 2 = format_loop_step [OF this c]
  have "fmt_step mx ?m2 c rest ap s = Some (c, m\<lparr>fm_lflags := 0, fm_state := S_CONV\<rparr>, c # rest, ap, s)"
    using assms by (auto simp: fmt_step_def step_length_def is_letter_def)
  note 3 = format_loop_step [OF this c]
  show ?thesis unfolding 1 2 3 by simp
qed

lemma digit_code:
  assumes "k < 10"
  shows "is_digit (of_nat (48 + k))" "uint (of_nat (48 + k) :: u8) = 48 + int k"
    "upper_digits ! k = of_nat (48 + k)"
proof -
  have "k = 0 \<or> k = 1 \<or> k = 2 \<or> k = 3 \<or> k = 4 \<or> k = 5 \<or> k = 6 \<or> k = 7 \<or> k = 8 \<or> k = 9"
    using assms by arith
  then have "is_digit (of_nat (48 + k)) \<and> uint (of_nat (48 + k) :: u8) = 48 + int k \<and> upper_digits ! k = of_nat (48 + k)"
    by (elim disjE) (simp_all add: is_digit_def upper_digits_def)
  then show "is_digit (of_nat (48 + k))" "uint (of_nat (48 + k) :: u8) = 48 + int k"
    "upper_digits ! k = of_nat (48 + k)" by simp_all
qed

lemma atoi_digits:
  "w < 2147483600 \<Longrightarrow> get_atoi 0 (digits_of upper_digits 10 w @ rest) = get_atoi (int w) rest"
proof (induction w arbitrary: rest rule: less_induct)
  case (less w)
  show ?case
  proof (cases "w < 10")
    case True
    then show ?thesis by (subst digits_of.simps) (simp add: digit_code del: of_nat_add)
  next
    case False
    have "int (w div 10) * 10 + int (w mod 10) = int w" by (simp add: zdiv_int zmod_int)
    moreover have "get_atoi (int (w div 10)) (of_nat (48 + w mod 10) # rest) =
        get_atoi (int (w div 10) * 10 + int (w mod 10)) rest"
      using less.prems calculation by (simp add: digit_code del: of_nat_add)
    ultimately show ?thesis
      using False less.IH [of "w div 10"] less.prems
      by (subst digits_of.simps) (simp add: digit_code del: of_nat_add)
  qed
qed

lemma run_width:
  assumes "fm_state m = S_FLAGS" "is_letter c" "sp_width sp < 2147483600"
  shows "format_loop mx m (spell_width sp @ c # rest) ap s =
    format_loop mx (m\<lparr>fm_width := int (sp_width sp), fm_lflags := 0, fm_state := S_CONV\<rparr>) (c # rest) ap s"
proof -
  have dig: "\<not> is_digit c" "c \<noteq> 0" using assms(2) by (auto simp: is_letter_def is_digit_def)
  show ?thesis
  proof (cases "sp_width sp = 0")
    case True
    have "fmt_step mx m c rest ap s = Some (c, m\<lparr>fm_width := 0, fm_state := S_WIDTH\<rparr>, c # rest, ap, s)"
      using assms(1,2) by (auto simp: fmt_step_def step_flags_def is_letter_def)
    from format_loop_step [OF this dig(2)] True run_letter [OF _ assms(2)] show ?thesis
      by (simp add: spell_width_def)
  next
    case False
    then obtain k ds where k: "0 < k" "k < 10" "spell_width sp = of_nat (48 + k) # ds"
      using digits_of_10 [of "sp_width sp"] by (auto simp: spell_width_def)
    define d :: u8 where "d = of_nat (48 + k)"
    have "is_digit d" "d > 48"
      using digit_code [OF k(2)] k(1) by (simp_all add: d_def word_less_def del: of_nat_add)
    then have d: "is_digit d" "d > 48" "d \<noteq> 0" "d \<noteq> 35" "d \<noteq> 48" "d \<noteq> 45" "d \<noteq> 32" "d \<noteq> 43" "d \<noteq> 39" "d \<noteq> 73" "d \<noteq> 42"
      by (auto simp: is_digit_def)
    have "fmt_step mx m d (ds @ c # rest) ap s =
        Some (d, m\<lparr>fm_width := 0, fm_state := S_WIDTH\<rparr>, d # ds @ c # rest, ap, s)"
      using assms(1) d by (simp add: fmt_step_def step_flags_def)
    note 1 = format_loop_step [OF this d(3)]
    have "get_atoi 0 (spell_width sp @ c # rest) = Some (int (sp_width sp), c # rest)"
      using False dig(1) atoi_digits [OF assms(3)] by (simp add: spell_width_def)
    then have "fmt_step mx (m\<lparr>fm_width := 0, fm_state := S_WIDTH\<rparr>) d (ds @ c # rest) ap s =
        Some (d, m\<lparr>fm_width := int (sp_width sp), fm_state := S_WIDTH\<rparr>, c # rest, ap, s)"
      using d k(3) by (simp add: fmt_step_def step_width_def d_def)
    note 2 = format_loop_step [OF this d(3)]
    show ?thesis
      using 1 2 run_letter [OF _ assms(2), of "m\<lparr>fm_width := int (sp_width sp), fm_state := S_WIDTH\<rparr>"] k(3)
      by (simp add: d_def)
  qed
qed

lemma conv_int:
  assumes "c \<in> {100, 117, 111, 120, 88}" "fetch_num 0 c ap = Some (v, ap')"
    and "b = (if c = 120 \<or> c = 88 then 16 else if c = 111 then 8 else 10)"
    and "f = (if c = 100 then flag_word sp OR F_SIGNED else if c = 120 then flag_word sp OR F_SMALL else flag_word sp)"
    and "fm_flags m = flag_word sp" "fm_width m = int (sp_width sp)" "fm_lflags m = 0"
    and "salof_format_int mx v b (int (sp_width sp)) f s = Some s'"
  shows "step_conv mx m c fmt ap s = Some (c, m\<lparr>fm_state := S_DEFAULT\<rparr>, fmt, ap', s')"
  using assms by (auto simp: step_conv_def Let_def)

lemma run_conv:
  assumes "fm_state m = S_CONV" "fm_flags m = flag_word sp" "fm_width m = int (sp_width sp)" "fm_lflags m = 0"
    and "sp_width sp < 2147483600" "conv_ok sp cv" "put_all mx (render (Dir sp cv)) s = Some s'"
  shows "format_loop mx m (letter cv # rest) (arg_of cv # ap) s =
    format_loop mx (m\<lparr>fm_state := S_DEFAULT\<rparr>) rest ap s'"
proof -
  have flags: "flags_for (flag_word sp) sp" "flag_word sp AND F_SMALL = 0" "flag_word sp AND F_SIGNED = 0"
    "flags_for (flag_word sp OR F_SMALL) sp" "(flag_word sp OR F_SMALL) AND F_SMALL \<noteq> 0"
    "(flag_word sp OR F_SMALL) AND F_SIGNED = 0"
    "flags_for (flag_word sp OR F_SIGNED) sp" "(flag_word sp OR F_SIGNED) AND F_SMALL = 0"
    "(flag_word sp OR F_SIGNED) AND F_SIGNED \<noteq> 0"
    using flags_for_word [of 0 sp] flags_for_word [of F_SIGNED sp] flags_for_word [of F_SMALL sp] by simp_all
  have uns: "uint (of_nat n :: u32) = int n" if "n < 2147483648" for n
    using that by (simp add: unsigned_of_nat take_bit_nat_eq_self uint_nat unat_of_nat)
  have nosign: "sign_of sp (int n) = []" if "\<not> sp_plus sp" "\<not> sp_space sp" for n
    using that by (simp add: sign_of_def)
  have num: "salof_format_int mx (int n) (int b) (int (sp_width sp)) f s = Some s'"
    if "flags_for f sp" "2 \<le> b" "b \<le> 16" "n < 2147483648" "\<not> sp_plus sp" "\<not> sp_space sp"
      and "ds = (if f AND F_SMALL \<noteq> 0 then lower_digits else upper_digits)"
      and "put_all mx (field sp [] (digits_of ds b n)) s = Some s'" for f b n ds
    using format_int_field [OF that(1), of "int n" b ds mx s] that by (simp add: nosign)
  have "step_conv mx m (letter cv) rest (arg_of cv # ap) s =
    Some (case cv of Chr c \<Rightarrow> c | _ \<Rightarrow> letter cv, m\<lparr>fm_state := S_DEFAULT\<rparr>, rest, ap, s')"
  proof (cases cv)
    case (Dec v)
    with assms(6) have v: "sint (word_of_int v :: u32) = v"
      using int_of_llong_small [of v] by (simp add: int_of_llong_def)
    have "salof_format_int mx v (int 10) (int (sp_width sp)) (flag_word sp OR F_SIGNED) s = Some s'"
      using format_int_field [OF flags(7), of v 10 upper_digits mx s] assms(6,7) flags Dec by simp
    with Dec v show ?thesis
      by (simp, intro conv_int [OF _ _ refl refl assms(2-4)]) (simp_all add: fetch_num_def)
  next
    case (Uns n)
    with assms num [OF flags(1), of 10 n upper_digits] flags uns [of n] show ?thesis
      by (simp, intro conv_int [OF _ _ refl refl assms(2-4)]) (simp_all add: fetch_num_def)
  next
    case (Oct n)
    with assms num [OF flags(1), of 8 n upper_digits] flags uns [of n] show ?thesis
      by (simp, intro conv_int [OF _ _ refl refl assms(2-4)]) (simp_all add: fetch_num_def)
  next
    case (Hex up n)
    with assms num [OF flags(1), of 16 n upper_digits] num [OF flags(4), of 16 n lower_digits] flags uns [of n]
    show ?thesis
      by (simp, cases up; simp; intro conv_int [OF _ _ refl refl assms(2-4)]) (simp_all add: fetch_num_def)
  next
    case (Chr c)
    have "ucast (ucast c :: u32) = c" by (rule ucast_up_ucast_id) (simp add: is_up_def source_size_def target_size_def word_size)
    with Chr assms format_char_field [OF flags(1), of mx c s] show ?thesis
      by (simp add: step_conv_def Let_def)
  next
    case (Str ys)
    with assms format_str_field [OF flags(1), of ys mx s] show ?thesis by (simp add: step_conv_def Let_def)
  qed
  moreover have "(case cv of Chr c \<Rightarrow> c | _ \<Rightarrow> letter cv) \<noteq> 0" using assms(6) by (cases cv) simp_all
  ultimately show ?thesis
    using assms(1) by (intro format_loop_step) (simp_all add: fmt_step_def)
qed

lemma run_piece:
  assumes "fm_state m = S_DEFAULT" "piece_ok p" "put_all mx (render p) s = Some s'"
  shows "\<exists>m'. fm_state m' = S_DEFAULT \<and>
    format_loop mx m (spell p @ rest) (args_of p @ ap) s = format_loop mx m' rest ap s'"
proof (cases p)
  case (Lit c)
  with assms have "fmt_step mx m c rest ap s = Some (c, m, rest, ap, s')" "c \<noteq> 0"
    by (auto simp: fmt_step_def split: bind_splits)
  from format_loop_step [OF this] Lit assms(1) show ?thesis by auto
next
  case Percent
  let ?m = "m\<lparr>fm_state := S_FLAGS, fm_flags := 0\<rparr>" and ?m2 = "m\<lparr>fm_flags := 0, fm_width := 0, fm_lflags := 0, fm_state := S_DEFAULT\<rparr>"
  have "buff_put_char mx 37 s = Some s'" using assms(3) Percent by (auto split: bind_splits)
  then have "format_loop mx m (37 # 37 # rest) ap s = format_loop mx ?m2 rest ap s'"
    using assms(1)
    by (simp add: format_loop_step fmt_step_def step_flags_def step_width_def step_precis_def step_length_def
        step_conv_def is_digit_def)
  with Percent show ?thesis by (intro exI [of _ ?m2]) simp
next
  case (Dir sp cv)
  let ?m = "m\<lparr>fm_state := S_FLAGS, fm_flags := 0\<rparr>" and ?c = "letter cv"
  let ?m1 = "?m\<lparr>fm_flags := flag_word sp\<rparr>"
  let ?m2 = "?m1\<lparr>fm_width := int (sp_width sp), fm_lflags := 0, fm_state := S_CONV\<rparr>"
  have w: "sp_width sp < 2147483600" "conv_ok sp cv" using assms(2) Dir by simp_all
  let ?rest = "spell_flags sp @ spell_width sp @ ?c # rest" and ?ap = "arg_of cv # ap"
  have "fmt_step mx m 37 ?rest ?ap s = Some (37, ?m, ?rest, ?ap, s)" using assms(1) by (simp add: fmt_step_def)
  from format_loop_step [OF this] have "format_loop mx m (37 # ?rest) ?ap s = format_loop mx ?m ?rest ?ap s" by simp
  also have "\<dots> = format_loop mx ?m1 (spell_width sp @ ?c # rest) ?ap s" by (subst run_flags) simp_all
  also have "\<dots> = format_loop mx ?m2 (?c # rest) ?ap s"
    by (rule run_width [OF _ letter_is_letter w(1)]) simp
  also have "\<dots> = format_loop mx (?m2\<lparr>fm_state := S_DEFAULT\<rparr>) rest ap s'"
    by (rule run_conv [OF _ _ _ _ w]) (use assms(3) Dir in simp_all)
  finally show ?thesis using Dir by (intro exI [of _ "?m2\<lparr>fm_state := S_DEFAULT\<rparr>"]) simp
qed

definition spell_all :: "piece list \<Rightarrow> bytes" where
  "spell_all ps = concat (map spell ps)"

definition args_all :: "piece list \<Rightarrow> va list" where
  "args_all ps = concat (map args_of ps)"

definition render_all :: "piece list \<Rightarrow> bytes" where
  "render_all ps = concat (map render ps)"

lemma run_pieces:
  assumes "\<forall>p\<in>set ps. piece_ok p" "put_all mx (render_all ps) s = Some s'" "fm_state m = S_DEFAULT"
  shows "\<exists>m'. fm_state m' = S_DEFAULT \<and>
    format_loop mx m (spell_all ps @ rest) (args_all ps @ ap) s = format_loop mx m' rest ap s'"
  using assms
proof (induction ps arbitrary: s m)
  case Nil
  then show ?case by (auto simp: spell_all_def args_all_def render_all_def)
next
  case (Cons p ps)
  have "Option.bind (put_all mx (render p) s) (put_all mx (render_all ps)) = Some s'"
    using Cons.prems(2) by (simp add: put_all_bind(1) render_all_def)
  then obtain s1 where s1: "put_all mx (render p) s = Some s1" "put_all mx (render_all ps) s1 = Some s'"
    by (auto simp: bind_eq_Some_conv)
  obtain m1 where m1: "fm_state m1 = S_DEFAULT"
      "format_loop mx m (spell p @ spell_all ps @ rest) (args_of p @ args_all ps @ ap) s =
        format_loop mx m1 (spell_all ps @ rest) (args_all ps @ ap) s1"
    using run_piece [OF Cons.prems(3) _ s1(1)] Cons.prems(1) by (metis list.set_intros(1))
  from Cons.IH [OF _ s1(2) m1(1)] Cons.prems(1) m1 show ?case
    by (auto simp: spell_all_def args_all_def)
qed

lemma format_nstr_eq:
  assumes "\<forall>p\<in>set ps. piece_ok p" "unat sz \<le> length b" "length (render_all ps) < 2147483648"
  shows "salof_format_nstr (Some b) sz (spell_all ps @ [0]) (args_all ps) =
    Some (int (length (render_all ps)),
      Some (if sz = 0 then b
            else take (unat sz - 1) (render_all ps) @ 0 # drop (min (unat sz) (length (render_all ps) + 1)) b))"
proof -
  let ?xs = "render_all ps"
  let ?m = "\<lparr>fm_state = S_DEFAULT, fm_flags = 0, fm_width = 0, fm_lflags = 0\<rparr>"
  have "put_all sz ?xs (sunk sz b []) = Some (sunk sz b ?xs)"
    using put_all_sunk [OF assms(2), of "[]" ?xs] assms(3) by simp
  from run_pieces [OF assms(1) this, of ?m "[0]" "[]"] obtain m' where m': "fm_state m' = S_DEFAULT"
      "format_loop sz ?m (spell_all ps @ [0]) (args_all ps) (sunk sz b []) = format_loop sz m' [0] [] (sunk sz b ?xs)"
    by auto
  have start: "sunk sz b [] = (b, 0)" by (simp add: sunk_def)
  have "format_loop sz m' [0] [] (sunk sz b ?xs) = Some (sunk sz b (?xs @ [0]))"
    using put_char_sunk [OF assms(2), of ?xs 0] assms(3) m'(1)
    by (simp add: format_loop.simps [of sz m'] fmt_step_def)
  with m'(2) start have loop: "format_loop sz ?m (spell_all ps @ [0]) (args_all ps) (b, 0) = Some (sunk sz b (?xs @ [0]))"
    by simp
  define n :: u32 where "n = of_nat (length ?xs)"
  have n: "unat n = length ?xs" using assms(3) by (simp add: n_def unat_of_nat)
  then have sn: "sint n = int (length ?xs)" using assms(3) by (subst sint_small) simp_all
  have lt: "n < sz \<longleftrightarrow> length ?xs < unat sz" using n by (simp add: word_less_nat_alt)
  have pos: "(0 < sz) = (sz \<noteq> 0)" "sz \<noteq> 0 \<Longrightarrow> unat (sz - 1) = unat sz - 1" "sz \<noteq> 0 \<Longrightarrow> 0 < unat sz"
    by (simp_all add: word_neq_0_conv unat_minus_one unat_gt_0)
  have sink: "sunk sz b (?xs @ [0]) = (take (unat sz) (?xs @ [0]) @ drop (min (unat sz) (length ?xs + 1)) b, n + 1)"
    by (simp add: sunk_def n_def ac_simps)
  define tail where "tail = drop (min (unat sz) (length ?xs + 1)) b"
  have fin: "(if n < sz then arr_set (take (unat sz) (?xs @ [0]) @ tail) (unat n) 0
      else if sz > 0 then arr_set (take (unat sz) (?xs @ [0]) @ tail) (unat (sz - 1)) 0
      else Some (take (unat sz) (?xs @ [0]) @ tail)) =
    Some (if sz = 0 then b else take (unat sz - 1) ?xs @ 0 # tail)"
  proof (cases "sz = 0")
    case True
    then show ?thesis by (simp add: tail_def)
  next
    case False
    show ?thesis
    proof (cases "length ?xs < unat sz")
      case True
      then show ?thesis using False n lt by (simp add: list_update_append)
    next
      case nl: False
      have "take (unat sz) ?xs = take (unat sz - 1) ?xs @ [?xs ! (unat sz - 1)]"
        using pos(3) [OF False] nl by (simp add: take_Suc_conv_app_nth [symmetric])
      moreover have "length (take (unat sz - 1) ?xs) = unat sz - 1" using nl by simp
      ultimately show ?thesis using nl False pos lt
        by (simp add: list_update_append)
    qed
  qed
  have given: "(if Some b = None then 0 else sz) = sz" "n + 1 - 1 = n" by simp_all
  show ?thesis
    unfolding salof_format_nstr_def Let_def given(1) option.case loop sink tail_def [symmetric] bind.bind_lunit prod.case
      given(2) fin sn option.map ..
qed



section \<open>Where the formatter leaves the standard\<close>

text \<open>
  The number is kept in an \<open>int\<close>: an unsigned value above 2 to the power 31 becomes negative, and the remainder
  that selects a digit becomes a negative index.\<close>

lemma int_digits_negative:
  "n < 0 \<Longrightarrow> (- n) mod base \<noteq> 0 \<Longrightarrow> 2 \<le> base \<Longrightarrow> int_digits ds base n = None"
proof -
  assume a: "n < 0" "(- n) mod base \<noteq> 0" "2 \<le> base"
  then have "0 < (- n) mod base" using pos_mod_sign [of base "- n"] by linarith
  with a show ?thesis by (simp add: signed_modulo_int_def sgn_if)
qed

theorem high_unsigned_undefined:
  assumes "2147483648 < n" "n < 4294967296" "(4294967296 - n) mod 10 \<noteq> 0"
  shows "salof_format_nstr buf sz (37 # 117 # rest) (Va_int (of_nat n) # ap) = None"
proof -
  let ?m = "\<lparr>fm_state = S_DEFAULT, fm_flags = 0, fm_width = 0, fm_lflags = 0\<rparr>"
  have "uint (of_nat n :: u32) = int n"
    using assms(2) by (simp add: uint_nat unat_of_nat)
  moreover have "int_of_llong (int n) = int n - 4294967296"
  proof -
    have "word_of_int (int n) = (word_of_int (int n - 4294967296) :: u32)" by simp
    moreover have "int_of_llong (int n - 4294967296) = int n - 4294967296"
      using assms(1,2) by (intro int_of_llong_small) linarith
    ultimately show ?thesis by (simp only: int_of_llong_def)
  qed
  moreover have "int_digits upper_digits 10 (int n - 4294967296) = None"
  proof (rule int_digits_negative)
    have "(4294967296 - int n) mod 10 = int ((4294967296 - n) mod 10)"
      using assms(2) by (simp add: zmod_int of_nat_diff)
    then show "- (int n - 4294967296) mod 10 \<noteq> 0" using assms(3) by simp
  qed (use assms(2) in simp_all)
  ultimately have "salof_format_int mx (uint (of_nat n :: u32)) 10 0 0 s = None" for mx s
    by (simp add: salof_format_int_def)
  then have "step_conv mx m 117 rest (Va_int (of_nat n) # ap) s = None"
    if "fm_width m = 0" "fm_flags m = 0" "fm_lflags m = 0" for mx m s
    using that by (simp add: step_conv_def fetch_num_def)
  then have "format_loop mx ?m (37 # 117 # rest) (Va_int (of_nat n) # ap) s = None" for mx s
    by (simp add: format_loop_step fmt_step_def step_flags_def step_width_def step_precis_def step_length_def
        is_digit_def format_loop.simps [of _ _ "117 # rest"])
  then show ?thesis by (simp add: salof_format_nstr_def Let_def)
qed

text \<open>A precision given as \<open>*\<close> takes its argument, but the star stays in the format and is printed.\<close>

lemma star_precision_printed:
  "salof_format_nstr (Some (replicate 8 46)) 8 [37, 46, 42, 115, 0] [Va_int 3, Va_str (Some [97, 0])] =
    Some (3, Some [37, 42, 115, 0, 46, 46, 46, 46])"
  by code_simp

text \<open>The length \<open>h\<close> has a bit in common with the test for the long lengths, so \<open>%hd\<close> fetches a \<open>long long\<close>.\<close>

lemma short_fetched_as_long_long:
  "salof_format_nstr buf sz [37, 104, 100, 0] (Va_int x # ap) = None"
  by (simp add: salof_format_nstr_def Let_def format_loop_step fmt_step_def step_flags_def step_width_def
      step_precis_def step_length_def is_digit_def format_loop.simps [of _ _ "100 # _"] step_conv_def fetch_num_def)

text \<open>A format that ends inside a directive loses the last character printed before it.\<close>

lemma open_directive_loses_character:
  "salof_format_nstr (Some (replicate 4 46)) 4 [97, 98, 37, 0] [] = Some (1, Some [97, 0, 46, 46])"
  by code_simp

end
