(* ===== verification/Salof_Log.thy ===== *)
theory Salof_Log
  imports Salof_Fifo Salof_Format
begin

text \<open>
  The log output, \<^verbatim>\<open>common/log/salof.c\<close> in the build with a queue: a log line is formatted into a buffer and
  put into the queue; the output task takes bytes from the queue and sends them. The function that sends
  (\<^verbatim>\<open>send_buff\<close>) belongs to the system; the model keeps what it was given. The output task calls
  \<open>salof_handler\<close> for ever, so the model has the single call.
\<close>

definition SALOF_BUFF_SIZE :: nat where "SALOF_BUFF_SIZE = 512"

definition SALOF_FIFO_SIZE :: u32 where "SALOF_FIFO_SIZE = 4096"

record salof_state =
  sl_fifo :: "salof_fifo option"
  sl_len :: int
  sl_out_buff :: bytes
  sl_format_buff :: bytes
  sl_sent :: "bytes list"

definition salof_init ::
  "(nat \<Rightarrow> bytes option) \<Rightarrow> bool \<Rightarrow> bool \<Rightarrow> bool \<Rightarrow> salof_state \<Rightarrow> int \<times> salof_state" where
  "salof_init mem mutex sem task st =
     (let st = st\<lparr>sl_fifo := salof_fifo_create mem mutex sem SALOF_FIFO_SIZE\<rparr> in
      if sl_fifo st = None then (-1, st)
      else if \<not> task then (-1, st)
      else (0, st))"

text \<open>The length is compared with an unsigned constant, so it is taken as unsigned there and in the write.\<close>

definition salof :: "bool \<Rightarrow> bytes \<Rightarrow> va list \<Rightarrow> salof_state \<Rightarrow> salof_state option" where
  "salof pend fmt args st =
     do {
       (len, b) \<leftarrow> salof_format_nstr (Some (sl_format_buff st)) (of_nat (SALOF_BUFF_SIZE - 1)) fmt args;
       let len = (if (word_of_int len :: u32) > of_nat SALOF_BUFF_SIZE then int SALOF_BUFF_SIZE - 1 else len);
       (_, f) \<leftarrow> salof_fifo_write pend (sl_fifo st) b (word_of_int len);
       Some (st\<lparr>sl_format_buff := (case b of None \<Rightarrow> [] | Some b \<Rightarrow> b), sl_fifo := f\<rparr>)
     }"

definition salof_handler :: "salof_state \<Rightarrow> salof_state option" where
  "salof_handler st =
     do {
       (n, dst, f) \<leftarrow> salof_fifo_read (sl_fifo st) (Some (sl_out_buff st)) (of_nat SALOF_BUFF_SIZE);
       let st = st\<lparr>sl_len := sint n, sl_fifo := f, sl_out_buff := (case dst of None \<Rightarrow> [] | Some b \<Rightarrow> b)\<rparr>;
       if sl_len st > 0
       then do {
         sent \<leftarrow> rd_block (sl_out_buff st) 0 (nat (sl_len st));
         (b, _) \<leftarrow> write_bytes (sl_out_buff st, 0) (replicate (nat (sl_len st)) 0);
         Some (st\<lparr>sl_sent := sl_sent st @ [sent], sl_out_buff := b\<rparr>)
       }
       else Some st
     }"

section \<open>Lines in order\<close>

definition salof_ok :: "salof_state \<Rightarrow> bool" where
  "salof_ok st \<longleftrightarrow> (\<exists>f. sl_fifo st = Some f \<and> fifo_ok f) \<and>
     length (sl_format_buff st) = SALOF_BUFF_SIZE \<and> length (sl_out_buff st) = SALOF_BUFF_SIZE"

definition queued :: "salof_state \<Rightarrow> bytes" where
  "queued st = (case sl_fifo st of None \<Rightarrow> [] | Some f \<Rightarrow> fifo_bytes f)"

definition queue_size :: "salof_state \<Rightarrow> nat" where
  "queue_size st = (case sl_fifo st of None \<Rightarrow> 0 | Some f \<Rightarrow> unat (fifo_size f))"

definition line_ok :: "piece list \<Rightarrow> bool" where
  "line_ok ps \<longleftrightarrow> (\<forall>p\<in>set ps. piece_ok p) \<and> length (render_all ps) < SALOF_BUFF_SIZE - 1"

lemma line_format:
  assumes "salof_ok st" "line_ok ps"
  shows "salof_format_nstr (Some (sl_format_buff st)) (of_nat (SALOF_BUFF_SIZE - 1)) (spell_all ps @ [0]) (args_all ps) =
    Some (int (length (render_all ps)), Some (render_all ps @ 0 # drop (length (render_all ps) + 1) (sl_format_buff st)))"
proof -
  have n: "length (render_all ps) < 511" "\<forall>p\<in>set ps. piece_ok p" "length (sl_format_buff st) = 512"
    using assms by (simp_all add: line_ok_def salof_ok_def SALOF_BUFF_SIZE_def)
  have m: "min (unat (511 :: u32)) (length (render_all ps) + 1) = length (render_all ps) + 1"
    "take (unat (511 :: u32) - 1) (render_all ps) = render_all ps"
    using n(1) by simp_all
  have "of_nat (SALOF_BUFF_SIZE - 1) = (511 :: u32)" by (simp add: SALOF_BUFF_SIZE_def)
  then show ?thesis
    using format_nstr_eq [OF n(2), of 511 "sl_format_buff st", unfolded m] n(1,3) by simp
qed

lemma salof_line:
  assumes "salof_ok st" "line_ok ps" "length (queued st) + length (render_all ps) \<le> queue_size st"
  shows "\<exists>st'. salof True (spell_all ps @ [0]) (args_all ps) st = Some st' \<and> salof_ok st' \<and>
    queued st' = queued st @ render_all ps \<and> queue_size st' = queue_size st \<and> sl_sent st' = sl_sent st \<and>
    sl_out_buff st' = sl_out_buff st"
proof -
  define xs where "xs = render_all ps"
  obtain f where f: "sl_fifo st = Some f" "fifo_ok f" using assms(1) by (auto simp: salof_ok_def)
  have n: "length xs < 511" "\<forall>p\<in>set ps. piece_ok p"
    using assms(2) by (simp_all add: line_ok_def SALOF_BUFF_SIZE_def xs_def)
  have lb: "length (sl_format_buff st) = 512" using assms(1) by (simp add: salof_ok_def SALOF_BUFF_SIZE_def)
  define b where "b = xs @ 0 # drop (length xs + 1) (sl_format_buff st)"
  note fmt = line_format [OF assms(1,2), folded xs_def, folded b_def]
  have "unat (of_nat (length xs) :: u32) = length xs" using n(1) by (simp add: unat_of_nat)
  then have lt: "\<not> (word_of_int (int (length xs)) :: u32) > of_nat SALOF_BUFF_SIZE"
    using n(1) by (simp add: SALOF_BUFF_SIZE_def word_less_nat_alt)
  have bl: "length b = 512" "take (length xs) b = xs" using n(1) lb by (simp_all add: b_def)
  let ?st = "\<lambda>f'. st\<lparr>sl_format_buff := b, sl_fifo := Some f'\<rparr>"
  have "\<exists>k f'. salof_fifo_write True (Some f) (Some b) (of_nat (length xs)) = Some (k, Some f') \<and>
      fifo_ok f' \<and> fifo_bytes f' = fifo_bytes f @ xs \<and> fifo_size f' = fifo_size f"
  proof (cases "xs = []")
    case True
    then show ?thesis using f(2) by (simp add: salof_fifo_write_def)
  next
    case False
    have room: "min (length xs) (length (fifo_buff f) - unat (fifo_in f - fifo_out f)) = length xs"
      using assms(3) f fifo_room(3) [OF f(2)]
      by (simp add: queued_def queue_size_def fifo_bytes_def xs_def)
    from write_ok [OF f(2), of "length xs" b, unfolded room] False n(1) bl show ?thesis by auto
  qed
  then obtain k f' where w: "salof_fifo_write True (Some f) (Some b) (of_nat (length xs)) = Some (k, Some f')"
      "fifo_ok f'" "fifo_bytes f' = fifo_bytes f @ xs" "fifo_size f' = fifo_size f" by blast
  have "salof True (spell_all ps @ [0]) (args_all ps) st = Some (?st f')"
    unfolding salof_def fmt Let_def bind.bind_lunit prod.case if_not_P [OF lt] f(1)
    using w(1) by simp
  with w f assms(1) bl(1) show ?thesis
    by (intro exI [of _ "?st f'"])
      (simp add: salof_ok_def queued_def queue_size_def xs_def SALOF_BUFF_SIZE_def)
qed

text \<open>One call of the handler: what it reads, sends and leaves in its buffer.\<close>

lemma handler_run:
  assumes "salof_ok st"
  defines "ys \<equiv> take SALOF_BUFF_SIZE (queued st)"
  shows "\<exists>f'. salof_fifo_read (sl_fifo st) (Some (sl_out_buff st)) (of_nat SALOF_BUFF_SIZE) =
      Some (of_nat (length ys), Some (ys @ drop (length ys) (sl_out_buff st)), Some f')"
    and "\<exists>st'. salof_handler st = Some st' \<and> salof_ok st' \<and> queued st' = drop SALOF_BUFF_SIZE (queued st) \<and>
    queue_size st' = queue_size st \<and> sl_sent st' = sl_sent st @ (if ys = [] then [] else [ys]) \<and>
    sl_out_buff st' = replicate (length ys) 0 @ drop (length ys) (sl_out_buff st)"
proof -
  obtain f where f: "sl_fifo st = Some f" "fifo_ok f" using assms(1) by (auto simp: salof_ok_def)
  have lo: "length (sl_out_buff st) = 512" "of_nat SALOF_BUFF_SIZE = (of_nat 512 :: u32)"
    using assms by (simp_all add: salof_ok_def SALOF_BUFF_SIZE_def)
  define m where "m = min 512 (unat (fifo_in f - fifo_out f))"
  define xs where "xs = take m (fifo_bytes f)"
  have lx: "length xs = m" "m \<le> 512" by (simp_all add: xs_def m_def fifo_bytes_def)
  have all: "take 512 (fifo_bytes f) = xs" "drop 512 (fifo_bytes f) = drop m (fifo_bytes f)"
    by (simp_all add: xs_def m_def fifo_bytes_def min_def)
  obtain f' where r: "salof_fifo_read (Some f) (Some (sl_out_buff st)) (of_nat 512) =
        Some (of_nat m, Some (xs @ drop m (sl_out_buff st)), Some f')"
      "fifo_ok f'" "fifo_bytes f' = drop m (fifo_bytes f)" "fifo_size f' = fifo_size f"
    using read_ok [OF f(2), of 512 "sl_out_buff st"] lo(1) unfolding m_def [symmetric] xs_def [symmetric] by auto
  define st1 where "st1 = st\<lparr>sl_len := int m, sl_fifo := Some f', sl_out_buff := xs @ drop m (sl_out_buff st)\<rparr>"
  have s1: "sl_len st1 = int m" "sl_fifo st1 = Some f'" "sl_out_buff st1 = xs @ drop m (sl_out_buff st)"
    "sl_sent st1 = sl_sent st" "sl_format_buff st1 = sl_format_buff st"
    by (simp_all add: st1_def)
  have "unat (of_nat m :: u32) = m" using lx(2) by (simp add: unat_of_nat)
  then have si: "sint (of_nat m :: u32) = int m" using lx(2) by (subst sint_small) simp_all
  have h: "salof_handler st = (if m = 0 then Some st1
      else Some (st1\<lparr>sl_sent := sl_sent st @ [xs], sl_out_buff := replicate m 0 @ drop m (sl_out_buff st)\<rparr>))"
    unfolding salof_handler_def lo(2) f(1) r(1) bind.bind_lunit prod.case Let_def si option.case st1_def [symmetric]
    using lx lo(1) by (simp add: s1 rd_block_def write_bytes_def)
  have ys: "ys = xs" using all(1) f(1) by (simp add: ys_def queued_def SALOF_BUFF_SIZE_def)
  then show "\<exists>f'. salof_fifo_read (sl_fifo st) (Some (sl_out_buff st)) (of_nat SALOF_BUFF_SIZE) =
      Some (of_nat (length ys), Some (ys @ drop (length ys) (sl_out_buff st)), Some f')"
    using r(1) f(1) lx lo(2) by simp
  have "salof_ok st1" using assms r(2) lx lo(1) by (simp add: salof_ok_def s1 SALOF_BUFF_SIZE_def)
  with h all r lx lo(1) f show "\<exists>st'. salof_handler st = Some st' \<and> salof_ok st' \<and>
      queued st' = drop SALOF_BUFF_SIZE (queued st) \<and> queue_size st' = queue_size st \<and>
      sl_sent st' = sl_sent st @ (if ys = [] then [] else [ys]) \<and>
      sl_out_buff st' = replicate (length ys) 0 @ drop (length ys) (sl_out_buff st)"
    unfolding ys by (auto simp: s1 salof_ok_def queued_def queue_size_def SALOF_BUFF_SIZE_def)
qed

lemma handler_sends:
  assumes "salof_ok st"
  shows "\<exists>st'. salof_handler st = Some st' \<and> salof_ok st' \<and> queued st' = drop SALOF_BUFF_SIZE (queued st) \<and>
    queue_size st' = queue_size st \<and>
    concat (sl_sent st') = concat (sl_sent st) @ take SALOF_BUFF_SIZE (queued st)"
  using handler_run(2) [OF assms] by auto

fun log_all :: "piece list list \<Rightarrow> salof_state \<Rightarrow> salof_state option" where
  "log_all [] st = Some st"
| "log_all (ps # pss) st = do { st \<leftarrow> salof True (spell_all ps @ [0]) (args_all ps) st; log_all pss st }"

fun handle_all :: "nat \<Rightarrow> salof_state \<Rightarrow> salof_state option" where
  "handle_all 0 st = Some st"
| "handle_all (Suc n) st = do { st \<leftarrow> salof_handler st; handle_all n st }"

lemma log_all_queued:
  assumes "salof_ok st" "\<forall>ps\<in>set pss. line_ok ps"
    and "length (queued st) + length (concat (map render_all pss)) \<le> queue_size st"
  shows "\<exists>st'. log_all pss st = Some st' \<and> salof_ok st' \<and> queued st' = queued st @ concat (map render_all pss) \<and>
    sl_sent st' = sl_sent st"
  using assms
proof (induction pss arbitrary: st)
  case (Cons ps pss)
  then obtain st1 where st1: "salof True (spell_all ps @ [0]) (args_all ps) st = Some st1" "salof_ok st1"
      "queued st1 = queued st @ render_all ps" "queue_size st1 = queue_size st" "sl_sent st1 = sl_sent st"
    using salof_line [of st ps] by auto
  with Cons.IH [OF st1(2)] Cons.prems show ?case by (auto simp: add.assoc)
qed simp

lemma handle_all_sends:
  assumes "salof_ok st"
  shows "\<exists>st'. handle_all n st = Some st' \<and> salof_ok st' \<and> queued st' = drop (n * SALOF_BUFF_SIZE) (queued st) \<and>
    concat (sl_sent st') = concat (sl_sent st) @ take (n * SALOF_BUFF_SIZE) (queued st)"
  using assms
proof (induction n arbitrary: st)
  case (Suc n)
  obtain st1 where st1: "salof_handler st = Some st1" "salof_ok st1" "queued st1 = drop SALOF_BUFF_SIZE (queued st)"
      "concat (sl_sent st1) = concat (sl_sent st) @ take SALOF_BUFF_SIZE (queued st)"
    using handler_sends [OF Suc.prems] by blast
  from Suc.IH [OF st1(2)] st1 show ?case by (auto simp: take_add add.commute)
qed simp

text \<open>Log lines of at most 510 characters, as many as the queue has room for, followed by calls of the output
  handler: the handler sends the bytes that were queued before and then the printed lines, in order, each
  byte once, and what it has not sent yet is still in the queue.\<close>

theorem log_lines_in_order:
  assumes "salof_ok st" "\<forall>ps\<in>set pss. line_ok ps"
    and "length (queued st) + length (concat (map render_all pss)) \<le> queue_size st"
  shows "\<exists>st1 st2. log_all pss st = Some st1 \<and> handle_all n st1 = Some st2 \<and>
    concat (sl_sent st2) @ queued st2 = concat (sl_sent st) @ queued st @ concat (map render_all pss) \<and>
    length (queued st2) = length (queued st) + length (concat (map render_all pss)) - n * SALOF_BUFF_SIZE"
proof -
  obtain st1 where st1: "log_all pss st = Some st1" "salof_ok st1"
      "queued st1 = queued st @ concat (map render_all pss)" "sl_sent st1 = sl_sent st"
    using log_all_queued [OF assms] by blast
  obtain st2 where "handle_all n st1 = Some st2" "queued st2 = drop (n * SALOF_BUFF_SIZE) (queued st1)"
      "concat (sl_sent st2) = concat (sl_sent st1) @ take (n * SALOF_BUFF_SIZE) (queued st1)"
    using handle_all_sends [OF st1(2)] by blast
  with st1 show ?thesis by (intro exI [of _ st1] exI [of _ st2]) (simp only: append.assoc append_take_drop_id length_drop length_append simp_thms)
qed

definition sample_log :: salof_state where
  "sample_log =
     snd (salof_init (\<lambda>k. Some (replicate k 0)) True True True
       \<lparr>sl_fifo = None, sl_len = 0, sl_out_buff = replicate 512 0, sl_format_buff = replicate 512 0, sl_sent = []\<rparr>)"

lemma sample_log_ok:
  "salof_ok sample_log" "queued sample_log = []" "queue_size sample_log = 4096" "sl_sent sample_log = []"
  "sl_out_buff sample_log = replicate 512 0"
proof -
  let ?f = "\<lparr>fifo_size = 4096, fifo_in = 0, fifo_out = 0, fifo_buff = replicate 4096 0\<rparr>"
  have "salof_fifo_create (\<lambda>k. Some (replicate k 0)) True True 4096 = Some ?f"
  proof -
    have "(4096 :: u32) AND (4096 - 1) = 0" "unat (4096 :: u32) = 4096" by code_simp+
    then show ?thesis by (simp add: salof_fifo_create_def)
  qed
  then have s: "sample_log = \<lparr>sl_fifo = Some ?f, sl_len = 0, sl_out_buff = replicate 512 0,
      sl_format_buff = replicate 512 0, sl_sent = []\<rparr>"
    by (simp add: sample_log_def salof_init_def SALOF_FIFO_SIZE_def Let_def)
  have ok: "fifo_ok ?f" unfolding fifo_ok_def by (intro conjI exI [of _ 12]) simp_all
  then show "salof_ok sample_log" by (simp add: salof_ok_def s SALOF_BUFF_SIZE_def)
  show "queued sample_log = []" "queue_size sample_log = 4096" "sl_sent sample_log = []"
    "sl_out_buff sample_log = replicate 512 0"
    by (simp_all add: s queued_def queue_size_def fifo_bytes_def ring_def)
qed

theorem log_lines_in_order_witness:
  "\<exists>st1 st2. log_all [[Lit 97, Percent], [Lit 98]] sample_log = Some st1 \<and> handle_all 1 st1 = Some st2 \<and>
    concat (sl_sent st2) @ queued st2 = [97, 37, 98] \<and> length (queued st2) = 0"
proof -
  have r: "render_all [Lit 97, Percent] = [97, 37]" "render_all [Lit 98] = [98]" by code_simp+
  have 2: "\<forall>ps\<in>set [[Lit 97, Percent], [Lit 98]]. line_ok ps" by (simp add: line_ok_def r SALOF_BUFF_SIZE_def)
  from log_lines_in_order [OF sample_log_ok(1) 2, of 1] show ?thesis
    by (simp add: sample_log_ok(2-4) r SALOF_BUFF_SIZE_def)
qed

end
