(* ===== verification/Platform_Rtos.thy ===== *)
theory Platform_Rtos
  imports Platform_Net
begin

text \<open>
  The wrappers of memory and threads on the real-time systems, \<^verbatim>\<open>platform_memory.c\<close> and
  \<^verbatim>\<open>platform_thread.c\<close> under \<^verbatim>\<open>platform/FreeRTOS\<close>, \<^verbatim>\<open>platform/RT-Thread\<close> and
  \<^verbatim>\<open>platform/TencentOS-tiny\<close>. The heaps of the systems are one state: the blocks in use, and a
  script of what the next allocations give (\<open>None\<close> when there is no room, else the bytes that lie in the
  block). Whether the system creates a task is an argument. \<^const>\<open>None\<close> as a result is an access through a
  null pointer or the release of what is no block.
\<close>

record rtos =
  blocks :: "nat \<Rightarrow> bytes option"
  next_block :: nat
  outcomes :: "bytes option list"

definition sys_alloc :: "nat \<Rightarrow> rtos \<Rightarrow> nat option \<times> rtos" where
  "sys_alloc n st =
     (case outcomes st of
        [] \<Rightarrow> (None, st)
      | None # os \<Rightarrow> (None, st\<lparr>outcomes := os\<rparr>)
      | Some b # os \<Rightarrow>
          (Some (next_block st),
           st\<lparr>outcomes := os, next_block := Suc (next_block st),
              blocks := (blocks st)(next_block st \<mapsto> take n (b @ replicate n 0))\<rparr>))"

definition sys_free :: "nat option \<Rightarrow> rtos \<Rightarrow> rtos option" where
  "sys_free p st =
     (case p of
        None \<Rightarrow> Some st
      | Some p \<Rightarrow> if blocks st p = None then None else Some (st\<lparr>blocks := (blocks st)(p := None)\<rparr>))"

section \<open>Memory\<close>

text \<open>FreeRTOS and RT-Thread clear the block without a look at the pointer.\<close>

definition rtos_memory_alloc :: "nat \<Rightarrow> rtos \<Rightarrow> (nat \<times> rtos) option" where
  "rtos_memory_alloc n st =
     (case sys_alloc n st of
        (None, st) \<Rightarrow> None
      | (Some p, st) \<Rightarrow> Some (p, st\<lparr>blocks := (blocks st)(p \<mapsto> replicate n 0)\<rparr>))"

text \<open>FreeRTOS multiplies in the 32-bit size of the machine and does not clear the block.\<close>

definition freertos_memory_calloc :: "u32 \<Rightarrow> u32 \<Rightarrow> rtos \<Rightarrow> nat option \<times> rtos" where
  "freertos_memory_calloc num sz st = sys_alloc (unat (num * sz)) st"

definition tencent_memory_alloc :: "nat \<Rightarrow> rtos \<Rightarrow> nat option \<times> rtos" where
  "tencent_memory_alloc n st = sys_alloc n st"

section \<open>Threads\<close>

definition thread_size :: nat where "thread_size = 8"

definition freertos_thread_init :: "bool \<Rightarrow> rtos \<Rightarrow> (nat option \<times> rtos) option" where
  "freertos_thread_init created st =
     do {
       (thread, st) \<leftarrow> rtos_memory_alloc thread_size st;
       if \<not> created then do { st \<leftarrow> sys_free (Some thread) st; Some (None, st) }
       else Some (Some thread, st)
     }"

text \<open>For a thread that another one destroys: the system does not come back to a task that deletes itself.\<close>

definition freertos_thread_destroy :: "nat option \<Rightarrow> rtos \<Rightarrow> rtos option" where
  "freertos_thread_destroy thread st = sys_free thread st"

definition rtt_thread_init :: "bool \<Rightarrow> rtos \<Rightarrow> (nat option \<times> rtos) option" where
  "rtt_thread_init created st =
     do {
       (thread, st) \<leftarrow> rtos_memory_alloc thread_size st;
       if \<not> created then Some (None, st) else Some (Some thread, st)
     }"

definition rtt_thread_destroy :: "nat option \<Rightarrow> rtos \<Rightarrow> rtos option" where
  "rtt_thread_destroy thread st = sys_free thread st"

text \<open>TencentOS writes the task into the block without a look at the pointer, and gives the pointer back in every
  case.\<close>

definition tencent_thread_init :: "nat \<Rightarrow> bool \<Rightarrow> rtos \<Rightarrow> (nat option \<times> rtos) option" where
  "tencent_thread_init stack_size created st =
     (let (thread, st) = tencent_memory_alloc thread_size st;
          (thread_stack, st) = tencent_memory_alloc stack_size st
      in if thread = None then None
         else if \<not> created
         then do { st \<leftarrow> sys_free thread st; st \<leftarrow> sys_free thread_stack st; Some (thread, st) }
         else Some (thread, st))"

text \<open>The second release is of a pointer into the block just released.\<close>

definition tencent_thread_destroy :: "nat option \<Rightarrow> rtos \<Rightarrow> rtos option" where
  "tencent_thread_destroy thread st = do { p \<leftarrow> thread; st \<leftarrow> sys_free (Some p) st; None }"

section \<open>Properties\<close>

text \<open>The blocks in use have numbers below the next one.\<close>

definition heap_ok :: "rtos \<Rightarrow> bool" where
  "heap_ok st \<longleftrightarrow> (\<forall>p. blocks st p \<noteq> None \<longrightarrow> p < next_block st)"

lemma sys_alloc_ok: "heap_ok st \<Longrightarrow> sys_alloc n st = (p, st') \<Longrightarrow> heap_ok st'"
  by (auto simp: sys_alloc_def heap_ok_def less_Suc_eq split: list.splits option.splits if_splits)

lemma sys_free_ok: "heap_ok st \<Longrightarrow> sys_free p st = Some st' \<Longrightarrow> heap_ok st'"
  by (auto simp: sys_free_def heap_ok_def split: option.splits if_splits)

text \<open>
  An allocation on FreeRTOS and RT-Thread never returns a null pointer: it gives a block of zeros, or the
  clearing has gone through the null pointer the heap gave.\<close>

theorem rtos_alloc_zeros:
  "rtos_memory_alloc n st =
     (case outcomes st of
        Some b # os \<Rightarrow> Some (next_block st, st\<lparr>outcomes := os, next_block := Suc (next_block st),
          blocks := (blocks st)(next_block st \<mapsto> replicate n 0)\<rparr>)
      | _ \<Rightarrow> None)"
  by (auto simp: rtos_memory_alloc_def sys_alloc_def split: list.splits option.splits)

lemma calloc_wraps: "fst (freertos_memory_calloc 65536 65536 st) = fst (sys_alloc 0 st)"
  by (simp add: freertos_memory_calloc_def)

text \<open>When the task cannot be created, FreeRTOS returns a null pointer and has released everything, RT-Thread returns
  a null pointer and the block of the thread stays allocated, and TencentOS returns a pointer to a block that has
  been released. The first two have crashed before when the heap was full.\<close>

theorem failed_thread_init:
  assumes "heap_ok st" "outcomes st = Some b1 # Some b2 # os"
  shows "(\<exists>st'. freertos_thread_init False st = Some (None, st') \<and> blocks st' = blocks st) \<and>
    (\<exists>st' p. rtt_thread_init False st = Some (None, st') \<and> blocks st p = None \<and>
       blocks st' = (blocks st)(p \<mapsto> replicate thread_size 0)) \<and>
    (\<exists>st' p. tencent_thread_init stack_size False st = Some (Some p, st') \<and> blocks st' p = None \<and> blocks st' = blocks st)"
proof (intro conjI)
  have fresh: "blocks st (next_block st) = None" "blocks st (Suc (next_block st)) = None"
    using assms(1) by (auto simp: heap_ok_def)
  show "\<exists>st'. freertos_thread_init False st = Some (None, st') \<and> blocks st' = blocks st"
    using fresh assms(2) by (simp add: freertos_thread_init_def rtos_alloc_zeros sys_free_def fun_upd_idem)
  show "\<exists>st' p. rtt_thread_init False st = Some (None, st') \<and> blocks st p = None \<and>
       blocks st' = (blocks st)(p \<mapsto> replicate thread_size 0)"
    using fresh assms(2) by (auto simp: rtt_thread_init_def rtos_alloc_zeros)
  have "(blocks st)(next_block st := None, Suc (next_block st) := None) = blocks st"
    using fresh by (simp add: fun_eq_iff)
  then show "\<exists>st' p. tencent_thread_init stack_size False st = Some (Some p, st') \<and> blocks st' p = None \<and> blocks st' = blocks st"
    using fresh assms(2)
    by (simp add: tencent_thread_init_def tencent_memory_alloc_def sys_alloc_def sys_free_def fun_upd_twist fun_upd_idem)
qed

theorem failed_thread_init_witness:
  "\<exists>st' p. tencent_thread_init 64 False \<lparr>blocks = \<lambda>_. None, next_block = 0, outcomes = [Some [], Some []]\<rparr> = Some (Some p, st') \<and>
     blocks st' p = None"
proof -
  have "heap_ok \<lparr>blocks = \<lambda>_. None, next_block = 0, outcomes = [Some [], Some []]\<rparr>" by (simp add: heap_ok_def)
  from failed_thread_init [OF this, of "[]" "[]" "[]" 64] show ?thesis by auto
qed

text \<open>The end of the client's background thread on RT-Thread: the wrapper releases the object, and so does its caller
  in \<^verbatim>\<open>mqtt_yield_thread\<close>, which on Linux, where the wrapper does not, is right.\<close>

definition rtt_end_thread :: "nat option \<Rightarrow> rtos \<Rightarrow> rtos option" where
  "rtt_end_thread thread st =
     (if thread = None then Some st
      else do { st \<leftarrow> rtt_thread_destroy thread st; sys_free thread st })"

theorem rtt_thread_freed_twice: "rtt_end_thread (Some p) st = None"
  by (simp add: rtt_end_thread_def rtt_thread_destroy_def sys_free_def)

end
