(* ===== verification/Log_Ports.thy ===== *)
theory Log_Ports
  imports Salof_Log Platform_Rtos
begin

text \<open>
  The log on its systems, \<^verbatim>\<open>common/log/arch\<close>: the tasks of two ports, and on Linux the semaphore the
  output waits on and the function that prints. There a write posts the semaphore and a read waits until it was
  posted, whatever timeout it is given, and \<open>send_buff\<close> prints its buffer as a string, without a look at the
  length it is given.
\<close>

section \<open>Tasks\<close>

text \<open>Whether the system creates the task is an argument. FreeRTOS and RT-Thread hand back what their system gives.\<close>

definition linux_task_create :: "bool \<Rightarrow> rtos \<Rightarrow> (nat option \<times> rtos) option" where
  "linux_task_create created st =
     (let (task, st) = sys_alloc thread_size st in
      if task = None then None
      else if \<not> created then do { st \<leftarrow> sys_free task st; Some (task, st) }
      else Some (task, st))"

definition tencent_task_create :: "nat \<Rightarrow> bool \<Rightarrow> rtos \<Rightarrow> (nat option \<times> rtos) option" where
  "tencent_task_create stack_size created st =
     (let (task, st) = sys_alloc thread_size st; (task_stack, st) = sys_alloc stack_size st in
      if task = None then None
      else if \<not> created then do { st \<leftarrow> sys_free task st; st \<leftarrow> sys_free task_stack st; Some (task, st) }
      else Some (task, st))"

text \<open>A task that was not created is given back as a pointer to a released block, so the start of the log sees a success.\<close>

theorem failed_task_dangles:
  assumes "heap_ok st" "outcomes st = Some b1 # Some b2 # os"
  shows "(\<exists>p st'. linux_task_create False st = Some (Some p, st') \<and> blocks st' p = None) \<and>
    (\<exists>p st'. tencent_task_create n False st = Some (Some p, st') \<and> blocks st' p = None)"
  using assms
  by (auto simp: linux_task_create_def tencent_task_create_def sys_alloc_def sys_free_def heap_ok_def)

theorem failed_task_dangles_witness:
  "\<exists>p st'. linux_task_create False \<lparr>blocks = \<lambda>_. None, next_block = 0, outcomes = [Some [], Some []]\<rparr> = Some (Some p, st') \<and>
     blocks st' p = None"
proof -
  have "heap_ok \<lparr>blocks = \<lambda>_. None, next_block = 0, outcomes = [Some [], Some []]\<rparr>" by (simp add: heap_ok_def)
  from failed_task_dangles [OF this, of "[]" "[]" "[]" 64] show ?thesis by auto
qed

section \<open>The output on Linux\<close>

fun c_string :: "bytes \<Rightarrow> bytes option" where
  "c_string [] = None"
| "c_string (c # b) = (if c = 0 then Some [] else map_option ((#) c) (c_string b))"

definition linux_send_buff :: "bytes \<Rightarrow> int \<Rightarrow> bytes \<Rightarrow> (int \<times> bytes) option" where
  "linux_send_buff buf len stdout = do { s \<leftarrow> c_string buf; Some (len, stdout @ s) }"

definition linux_sem_post :: "nat \<Rightarrow> nat" where
  "linux_sem_post count = count + 1"

text \<open>No result is a caller that waits.\<close>

definition linux_sem_pend :: "nat \<Rightarrow> nat \<Rightarrow> nat option" where
  "linux_sem_pend timeout count = (if count = 0 then None else Some (count - 1))"

record linux_log =
  ll_log :: salof_state
  ll_count :: nat
  ll_stdout :: bytes

text \<open>A log line. The write returns before the semaphore is posted when there is nothing to write.\<close>

definition linux_log_line :: "bytes \<Rightarrow> va list \<Rightarrow> linux_log \<Rightarrow> linux_log option" where
  "linux_log_line fmt args ll =
     do {
       (len, b) \<leftarrow> salof_format_nstr (Some (sl_format_buff (ll_log ll))) (of_nat (SALOF_BUFF_SIZE - 1)) fmt args;
       st \<leftarrow> salof True fmt args (ll_log ll);
       Some (ll\<lparr>ll_log := st,
         ll_count := (if sl_fifo st = None \<or> b = None \<or> len = 0 then ll_count ll else linux_sem_post (ll_count ll))\<rparr>)
     }"

definition linux_log_output :: "linux_log \<Rightarrow> linux_log option" where
  "linux_log_output ll =
     do {
       count \<leftarrow> linux_sem_pend 0 (ll_count ll);
       let st = ll_log ll;
       (n, dst, f) \<leftarrow> salof_fifo_read (sl_fifo st) (Some (sl_out_buff st)) (of_nat SALOF_BUFF_SIZE);
       (_, out) \<leftarrow> (if sint n > 0 then do { b \<leftarrow> dst; linux_send_buff b (sint n) (ll_stdout ll) } else Some (0, ll_stdout ll));
       st \<leftarrow> salof_handler st;
       Some (ll\<lparr>ll_log := st, ll_count := count, ll_stdout := out\<rparr>)
     }"

section \<open>What is printed\<close>

text \<open>Between two calls the buffer of the output is clear, and no zero is in the queue.\<close>

definition linux_ok :: "linux_log \<Rightarrow> bool" where
  "linux_ok ll \<longleftrightarrow> salof_ok (ll_log ll) \<and> sl_out_buff (ll_log ll) = replicate SALOF_BUFF_SIZE 0 \<and>
     0 \<notin> set (queued (ll_log ll))"

lemma c_string_cut: "0 \<notin> set xs \<Longrightarrow> c_string (xs @ 0 # b) = Some xs"
  by (induction xs) auto

lemma c_string_open: "0 \<notin> set xs \<Longrightarrow> c_string xs = None"
  by (induction xs) auto

lemma linux_output:
  assumes "linux_ok ll" "0 < ll_count ll"
  shows "length (queued (ll_log ll)) < SALOF_BUFF_SIZE \<Longrightarrow>
    \<exists>ll'. linux_log_output ll = Some ll' \<and> linux_ok ll' \<and> queued (ll_log ll') = [] \<and>
      queue_size (ll_log ll') = queue_size (ll_log ll) \<and>
      ll_stdout ll' = ll_stdout ll @ queued (ll_log ll) \<and> ll_count ll' = ll_count ll - 1"
    and "SALOF_BUFF_SIZE \<le> length (queued (ll_log ll)) \<Longrightarrow> linux_log_output ll = None"
proof -
  let ?st = "ll_log ll"
  have ok: "salof_ok ?st" "sl_out_buff ?st = replicate 512 0" "0 \<notin> set (queued ?st)"
    using assms(1) by (simp_all add: linux_ok_def SALOF_BUFF_SIZE_def)
  define ys where "ys = take SALOF_BUFF_SIZE (queued ?st)"
  have ly: "length ys \<le> 512" "0 \<notin> set ys" using ok(3) by (auto simp: ys_def SALOF_BUFF_SIZE_def dest: in_set_takeD)
  obtain f' where r: "salof_fifo_read (sl_fifo ?st) (Some (sl_out_buff ?st)) (of_nat SALOF_BUFF_SIZE) =
      Some (of_nat (length ys), Some (ys @ replicate (512 - length ys) 0), Some f')"
    using handler_run(1) [OF ok(1)] ok(2) unfolding ys_def [symmetric] by auto
  obtain st' where h: "salof_handler ?st = Some st'" "salof_ok st'" "queued st' = drop SALOF_BUFF_SIZE (queued ?st)"
      "queue_size st' = queue_size ?st" "sl_out_buff st' = replicate (length ys) 0 @ drop (length ys) (replicate 512 0)"
    using handler_run(2) [OF ok(1)] ok(2) unfolding ys_def [symmetric] by auto
  have "unat (of_nat (length ys) :: u32) = length ys" using ly(1) by (simp add: unat_of_nat)
  then have si: "sint (of_nat (length ys) :: u32) = int (length ys)" using ly(1) by (subst sint_small) simp_all
  have pend: "linux_sem_pend 0 (ll_count ll) = Some (ll_count ll - 1)" using assms(2) by (simp add: linux_sem_pend_def)
  note run = linux_log_output_def [of ll, unfolded pend Let_def bind.bind_lunit r prod.case si h(1)]
  have clear: "sl_out_buff st' = replicate SALOF_BUFF_SIZE 0"
    using h(5) ly(1) by (simp add: SALOF_BUFF_SIZE_def flip: replicate_add)
  show "\<exists>ll'. linux_log_output ll = Some ll' \<and> linux_ok ll' \<and> queued (ll_log ll') = [] \<and>
      queue_size (ll_log ll') = queue_size ?st \<and>
      ll_stdout ll' = ll_stdout ll @ queued ?st \<and> ll_count ll' = ll_count ll - 1"
    if "length (queued ?st) < SALOF_BUFF_SIZE"
  proof -
    have q: "ys = queued ?st" "length ys < 512" "queued st' = []" using that h(3) by (simp_all add: ys_def SALOF_BUFF_SIZE_def)
    then have "replicate (512 - length ys) (0 :: u8) = 0 # replicate (511 - length ys) 0"
      by (simp flip: replicate_Suc Suc_diff_le)
    then have "c_string (ys @ replicate (512 - length ys) 0) = Some ys" using ly(2) c_string_cut by simp
    then show ?thesis using run h(2,4) clear q by (cases "ys = []") (simp_all add: linux_send_buff_def linux_ok_def)
  qed
  show "linux_log_output ll = None" if "SALOF_BUFF_SIZE \<le> length (queued ?st)"
  proof -
    have "length ys = 512" using that by (simp add: ys_def SALOF_BUFF_SIZE_def)
    then show ?thesis using run c_string_open [OF ly(2)] by (simp add: linux_send_buff_def)
  qed
qed

lemma linux_line:
  assumes "linux_ok ll" "line_ok ps" "0 \<notin> set (render_all ps)"
    and "length (queued (ll_log ll)) + length (render_all ps) \<le> queue_size (ll_log ll)"
  shows "\<exists>ll'. linux_log_line (spell_all ps @ [0]) (args_all ps) ll = Some ll' \<and> linux_ok ll' \<and>
    queued (ll_log ll') = queued (ll_log ll) @ render_all ps \<and> queue_size (ll_log ll') = queue_size (ll_log ll) \<and>
    ll_stdout ll' = ll_stdout ll \<and> ll_count ll' = ll_count ll + (if render_all ps = [] then 0 else 1)"
proof -
  have ok: "salof_ok (ll_log ll)" using assms(1) by (simp add: linux_ok_def)
  obtain st' where st: "salof True (spell_all ps @ [0]) (args_all ps) (ll_log ll) = Some st'" "salof_ok st'"
      "queued st' = queued (ll_log ll) @ render_all ps" "queue_size st' = queue_size (ll_log ll)"
      "sl_out_buff st' = sl_out_buff (ll_log ll)"
    using salof_line [OF ok assms(2,4)] by blast
  have "sl_fifo st' \<noteq> None" using st(2) by (auto simp: salof_ok_def)
  then show ?thesis
    using line_format [OF ok assms(2)] st assms(1,3)
    by (auto simp: linux_log_line_def linux_ok_def linux_sem_post_def)
qed

text \<open>The lines of a program, the output task running whenever the semaphore lets it.\<close>

fun linux_run :: "piece list list \<Rightarrow> linux_log \<Rightarrow> linux_log option" where
  "linux_run [] ll = Some ll"
| "linux_run (ps # pss) ll =
     do {
       ll \<leftarrow> linux_log_line (spell_all ps @ [0]) (args_all ps) ll;
       ll \<leftarrow> (if 0 < ll_count ll then linux_log_output ll else Some ll);
       linux_run pss ll
     }"


definition sample_linux :: linux_log where
  "sample_linux = \<lparr>ll_log = sample_log, ll_count = 0, ll_stdout = []\<rparr>"


text \<open>Two lines of 300 characters in a row leave the output task more than its buffer holds, and it reads on behind it.\<close>

lemma linux_burst_overruns:
  assumes "linux_ok ll" "queued (ll_log ll) = []" "600 \<le> queue_size (ll_log ll)"
  defines "line \<equiv> replicate 300 (Lit 97)"
  shows "\<exists>l1 l2. linux_log_line (spell_all line @ [0]) (args_all line) ll = Some l1 \<and>
    linux_log_line (spell_all line @ [0]) (args_all line) l1 = Some l2 \<and> linux_log_output l2 = None"
proof -
  have "render_all (replicate n (Lit 97)) = replicate n 97" for n by (induction n) (simp_all add: render_all_def)
  then have r: "render_all line = replicate 300 97" by (simp add: line_def)
  then have l: "line_ok line" "0 \<notin> set (render_all line)" "length (render_all line) = 300" "render_all line \<noteq> []"
    by (simp_all add: line_ok_def SALOF_BUFF_SIZE_def line_def)
  obtain l1 where l1: "linux_log_line (spell_all line @ [0]) (args_all line) ll = Some l1" "linux_ok l1"
      "length (queued (ll_log l1)) = 300" "queue_size (ll_log l1) = queue_size (ll_log ll)"
    using linux_line [OF assms(1) l(1,2)] assms(2,3) l(3) by auto
  obtain l2 where l2: "linux_log_line (spell_all line @ [0]) (args_all line) l1 = Some l2" "linux_ok l2"
      "length (queued (ll_log l2)) = 600" "0 < ll_count l2"
    using linux_line [OF l1(2) l(1,2)] l1(3,4) assms(3) l(3,4) by auto
  have "linux_log_output l2 = None" using linux_output(2) [OF l2(2,4)] l2(3) by (simp add: SALOF_BUFF_SIZE_def)
  with l1(1) l2(1) show ?thesis by blast
qed

end
