(* ===== verification/Random_Gen.thy ===== *)
theory Random_Gen
  imports Prelude
begin

text \<open>
  Random numbers and names, \<^verbatim>\<open>common/random.c\<close>. The generator of the C library, seeded afresh for every
  number, is the parameter \<open>rnd\<close>; the library promises a result between 0 and the greatest \<open>int\<close>. The
  clock is the argument \<open>now\<close>, and \<open>last_seed\<close> the static variable of the file.
\<close>

unbundle bit_operations_syntax

definition do_random :: "(u32 \<Rightarrow> int) \<Rightarrow> u32 \<Rightarrow> int" where
  "do_random rnd seed = rnd seed"

definition random_number :: "(u32 \<Rightarrow> int) \<Rightarrow> u32 \<Rightarrow> u32 \<Rightarrow> int \<times> u32" where
  "random_number rnd now last_seed =
     (let seed = now;
          last_seed = last_seed + drop_bit (unat ((seed XOR last_seed) mod 3)) seed
      in (do_random rnd (last_seed XOR seed), last_seed))"

text \<open>The remainder is taken between unsigned numbers; with an empty range it is a division by zero.\<close>

definition random_number_range :: "(u32 \<Rightarrow> int) \<Rightarrow> u32 \<Rightarrow> u32 \<Rightarrow> u32 \<Rightarrow> u32 \<Rightarrow> (int \<times> u32) option" where
  "random_number_range rnd now last_seed mi ma =
     (let (r, last_seed) = random_number rnd now last_seed in
      if ma - mi = 0 then None
      else Some (sint (word_of_int r mod (ma - mi) + mi), last_seed))"

fun random_loop :: "(u32 \<Rightarrow> int) \<Rightarrow> u32 \<Rightarrow> nat \<Rightarrow> u32 \<Rightarrow> u32 \<Rightarrow> bytes \<Rightarrow> bytes option" where
  "random_loop rnd seed 0 i random buf = Some buf"
| "random_loop rnd seed (Suc n) i random buf =
     do {
       let random = word_of_int (do_random rnd (seed XOR random));
       let flag = random mod 3;
       let c = (if flag = 0 then 65 + do_random rnd (random XOR (i AND flag)) mod 26
                else if flag = 1 then 97 + do_random rnd (random XOR (i AND flag)) mod 26
                else if flag = 2 then 48 + do_random rnd (random XOR (i AND flag)) mod 10
                else 120);
       buf \<leftarrow> arr_set buf (unat i) (word_of_int c);
       random_loop rnd seed n (i + 1) (random + push_bit (unat (i AND flag)) (0xb433e5c6 XOR random)) buf
     }"

text \<open>The counter of the loop is unsigned, so the length is taken as unsigned for the bound of the loop. The
  low 32 bits of the address of the buffer, \<open>adr\<close>, go into the seed.\<close>

definition random_string ::
  "(u32 \<Rightarrow> int) \<Rightarrow> u32 \<Rightarrow> u32 \<Rightarrow> u32 \<Rightarrow> bytes option \<Rightarrow> int \<Rightarrow> (int \<times> bytes option \<times> u32) option" where
  "random_string rnd now adr last_seed buffer len =
     (case buffer of
        None \<Rightarrow> Some (0, None, last_seed)
      | Some buf \<Rightarrow> do {
          let (r, last_seed) = random_number rnd now last_seed;
          let seed = word_of_int r;
          let seed = seed + (adr XOR seed);
          let random = word_of_int (do_random rnd seed);
          buf \<leftarrow> random_loop rnd seed (unat (word_of_int len :: u32)) 0 random buf;
          buf \<leftarrow> (if len < 0 then None else arr_set buf (nat len) 0);
          Some (len, Some buf, last_seed)
        })"

section \<open>Properties\<close>

definition alnum :: "u8 \<Rightarrow> bool" where
  "alnum c \<longleftrightarrow> 48 \<le> c \<and> c \<le> 57 \<or> 65 \<le> c \<and> c \<le> 90 \<or> 97 \<le> c \<and> c \<le> 122"

lemma alnum_char:
  "0 \<le> x \<Longrightarrow> x < 26 \<Longrightarrow> alnum (word_of_int (65 + x))" "0 \<le> x \<Longrightarrow> x < 26 \<Longrightarrow> alnum (word_of_int (97 + x))"
  "0 \<le> x \<Longrightarrow> x < 10 \<Longrightarrow> alnum (word_of_int (48 + x))"
proof -
  have u: "uint (word_of_int y :: u8) = y" if "0 \<le> y" "y < 256" for y
    using that by (simp add: unsigned_of_int take_bit_int_eq_self)
  show "0 \<le> x \<Longrightarrow> x < 26 \<Longrightarrow> alnum (word_of_int (65 + x))"
    by (simp add: alnum_def word_le_def u del: of_int_add)
  show "0 \<le> x \<Longrightarrow> x < 26 \<Longrightarrow> alnum (word_of_int (97 + x))"
    by (simp add: alnum_def word_le_def u del: of_int_add)
  show "0 \<le> x \<Longrightarrow> x < 10 \<Longrightarrow> alnum (word_of_int (48 + x))"
    by (simp add: alnum_def word_le_def u del: of_int_add)
qed

lemma random_loop_alnum:
  assumes "\<And>s. 0 \<le> rnd s" "unat i + n \<le> length buf" "unat i + n < 4294967296"
  shows "\<exists>xs. random_loop rnd seed n i random buf = Some (take (unat i) buf @ xs @ drop (unat i + n) buf) \<and>
    length xs = n \<and> list_all alnum xs"
  using assms(2,3)
proof (induction n arbitrary: i random buf)
  case (Suc n)
  define r where "r = (word_of_int (do_random rnd (seed XOR random)) :: u32)"
  define flag where "flag = r mod 3"
  define c where "c = (if flag = 0 then 65 + do_random rnd (r XOR (i AND flag)) mod 26
                else if flag = 1 then 97 + do_random rnd (r XOR (i AND flag)) mod 26
                else if flag = 2 then 48 + do_random rnd (r XOR (i AND flag)) mod 10 else 120)"
  have "flag < 3" unfolding flag_def by (rule word_mod_less_divisor) simp
  then have "unat flag < 3" by (simp add: word_less_nat_alt)
  then have "unat flag = 0 \<or> unat flag = 1 \<or> unat flag = 2" by linarith
  then have "flag = 0 \<or> flag = 1 \<or> flag = 2" by (auto simp: word_unat_eq_iff)
  then have al: "alnum (word_of_int c)"
    unfolding c_def by (elim disjE) (simp_all add: alnum_char del: of_int_add)
  have i1: "unat (i + 1) = unat i + 1" using Suc.prems(2) u32_no_wrap [of i 1] by simp
  let ?b = "buf[unat i := word_of_int c]"
  obtain xs where xs: "random_loop rnd seed n (i + 1) (r + push_bit (unat (i AND flag)) (0xb433e5c6 XOR r)) ?b =
      Some (take (unat i + 1) ?b @ xs @ drop (unat i + 1 + n) ?b)" "length xs = n" "list_all alnum xs"
    using Suc.IH [of "i + 1" ?b] Suc.prems i1 by (auto simp: i1)
  have "take (unat i + 1) ?b = take (unat i) buf @ [word_of_int c]"
    using Suc.prems(1) by (simp add: take_Suc_conv_app_nth)
  moreover have "drop (unat i + 1 + n) ?b = drop (unat i + Suc n) buf" by simp
  moreover have lt: "unat i < length buf" using Suc.prems(1) by simp
  have "random_loop rnd seed (Suc n) i random buf = Some (take (unat i + 1) ?b @ xs @ drop (unat i + 1 + n) ?b)"
    unfolding random_loop.simps Let_def r_def [symmetric] flag_def [symmetric] c_def [symmetric]
      arr_set_Some [OF lt] bind.bind_lunit xs(1) ..
  ultimately have "random_loop rnd seed (Suc n) i random buf =
      Some (take (unat i) buf @ (word_of_int c # xs) @ drop (unat i + Suc n) buf)"
    by simp
  with xs(2,3) al show ?case by (intro exI [of _ "word_of_int c # xs"]) simp
qed simp

text \<open>A random string of a length below the size of the buffer consists of that many letters and digits and a
  terminating zero, and the rest of the buffer is untouched, whatever the library's generator gives.\<close>

theorem random_string_alnum:
  assumes "\<And>s. 0 \<le> rnd s" "n < length buf" "n < 2147483648"
  shows "\<exists>xs last'. random_string rnd now adr last_seed (Some buf) (int n) =
      Some (int n, Some (xs @ 0 # drop (n + 1) buf), last') \<and> length xs = n \<and> list_all alnum xs"
proof -
  obtain r l where rn: "random_number rnd now last_seed = (r, l)" by (cases "random_number rnd now last_seed")
  define seed where "seed = (word_of_int r :: u32) + (adr XOR word_of_int r)"
  have n: "unat (word_of_int (int n) :: u32) = n" using assms(3) by (simp add: unat_of_nat)
  obtain xs where xs: "random_loop rnd seed n 0 (word_of_int (do_random rnd seed)) buf = Some (xs @ drop n buf)"
      "length xs = n" "list_all alnum xs"
    using random_loop_alnum [of rnd 0 n buf seed "word_of_int (do_random rnd seed)", OF assms(1)] assms(2,3) by auto
  have "arr_set (xs @ drop n buf) n 0 = Some (xs @ 0 # drop (n + 1) buf)"
    using xs(2) assms(2) by (simp add: list_update_append flip: Cons_nth_drop_Suc)
  then have "random_string rnd now adr last_seed (Some buf) (int n) = Some (int n, Some (xs @ 0 # drop (n + 1) buf), l)"
    unfolding random_string_def option.case rn Let_def prod.case seed_def [symmetric] n xs(1) bind.bind_lunit
    by simp
  with xs(2,3) show ?thesis by blast
qed

theorem random_string_alnum_witness:
  "\<exists>xs last'. random_string (\<lambda>s. int (unat s) div 2) 5 9 1 (Some [7, 7, 7, 7]) (int 2) =
      Some (int 2, Some (xs @ 0 # drop (2 + 1) [7, 7, 7, 7]), last') \<and> length xs = 2 \<and> list_all alnum xs"
  by (rule random_string_alnum) simp_all

text \<open>A number in a range; the range lies below 2 to the power 31, since the result is an \<open>int\<close>.\<close>

theorem random_range_bounds:
  assumes "mi < ma" "ma \<le> 2147483648"
  shows "\<exists>r last'. random_number_range rnd now last_seed mi ma = Some (r, last') \<and> uint mi \<le> r \<and> r < uint ma"
proof -
  obtain x l where rn: "random_number rnd now last_seed = (x, l)" by (cases "random_number rnd now last_seed")
  define k where "k = (word_of_int x :: u32) mod (ma - mi)"
  have d: "ma - mi \<noteq> 0" "unat (ma - mi) = unat ma - unat mi"
    using assms(1) by (auto simp: unat_sub less_imp_le word_less_nat_alt)
  have "k < ma - mi" unfolding k_def using d(1) by (intro word_mod_less_divisor) (simp only: word_neq_0_conv)
  then have k: "unat k < unat ma - unat mi" using d by (simp add: word_less_nat_alt)
  have ma: "unat ma \<le> 2147483648" using assms(2) by (simp add: word_le_nat_alt)
  have s: "unat (k + mi) = unat k + unat mi" using k ma by (intro u32_no_wrap) linarith
  then have v: "sint (k + mi) = int (unat k + unat mi)" using k ma by (subst sint_small) simp_all
  have "random_number_range rnd now last_seed mi ma = Some (sint (k + mi), l)"
    unfolding random_number_range_def rn Let_def prod.case if_not_P [OF d(1)] k_def [symmetric] ..
  moreover have "uint mi = int (unat mi)" "uint ma = int (unat ma)" by (simp_all only: uint_nat)
  then have "uint mi \<le> sint (k + mi)" "sint (k + mi) < uint ma" unfolding v using k by linarith+
  ultimately show ?thesis by blast
qed

theorem random_range_bounds_witness:
  "\<exists>r last'. random_number_range (\<lambda>s. 5) 3 1 10 20 = Some (r, last') \<and> uint (10 :: u32) \<le> r \<and> r < uint (20 :: u32)"
  by (rule random_range_bounds) simp_all

end
