(* ===== verification/Packet_Format.thy ===== *)
theory Packet_Format
  imports C_Text Packet_Connect Packet_Publish Packet_Subscribe
begin

text \<open>
  Printing packets, \<^verbatim>\<open>mqtt/MQTTFormat.c\<close>: a text per packet type through \<open>snprintf\<close>, and the two
  entry points that decode a packet and print it. The variables the entry points hand to the decoders
  uninitialised are the record \<open>locals\<close>. The result is the text buffer, \<^const>\<open>None\<close> where an access
  leaves an object.
\<close>

section \<open>The code\<close>

definition MQTTPacket_names :: "bytes list" where
  "MQTTPacket_names = map ascii
     [''RESERVED'', ''CONNECT'', ''CONNACK'', ''PUBLISH'', ''PUBACK'', ''PUBREC'', ''PUBREL'',
      ''PUBCOMP'', ''SUBSCRIBE'', ''SUBACK'', ''UNSUBSCRIBE'', ''UNSUBACK'',
      ''PINGREQ'', ''PINGRESP'', ''DISCONNECT'']"

definition MQTTPacket_getName :: "u16 \<Rightarrow> bytes option" where
  "MQTTPacket_getName packetid = arr MQTTPacket_names (unat packetid)"

definition str_arg :: "MQTTString \<Rightarrow> bytes option" where
  "str_arg s = prec_str (int (lenstring_len s)) (lenstring_data s)"

definition MQTTStringFormat_connect :: "bytes \<Rightarrow> int \<Rightarrow> MQTTPacket_connectData \<Rightarrow> (int \<times> bytes) option" where
  "MQTTStringFormat_connect strbuf strbuflen data =
     do {
       cl \<leftarrow> str_arg (clientID data);
       (strindex, strbuf) \<leftarrow> snprintf strbuf 0 strbuflen
         (ascii ''CONNECT MQTT version '' @ dec (uint (MQTTVersion data)) @ ascii '', client id '' @ cl @
          ascii '', clean session '' @ dec (uint (cleansession data)) @
          ascii '', keep alive '' @ dec (uint (keepAliveInterval data)));
       (strindex, strbuf) \<leftarrow>
         (if willFlag data \<noteq> 0
          then do {
            t \<leftarrow> str_arg (will_topicName (will data));
            m \<leftarrow> str_arg (will_message (will data));
            (k, strbuf) \<leftarrow> snprintf strbuf (nat strindex) (strbuflen - strindex)
              (ascii '', will QoS '' @ dec (int (will_qos (will data))) @
               ascii '', will retain '' @ dec (uint (will_retained (will data))) @
               ascii '', will topic '' @ t @ ascii '', will message '' @ m);
            Some (strindex + k, strbuf)
          }
          else Some (strindex, strbuf));
       (strindex, strbuf) \<leftarrow>
         (if lenstring_data (username data) \<noteq> None \<and> lenstring_len (username data) > 0
          then do {
            u \<leftarrow> str_arg (username data);
            (k, strbuf) \<leftarrow> snprintf strbuf (nat strindex) (strbuflen - strindex) (ascii '', user name '' @ u);
            Some (strindex + k, strbuf)
          }
          else Some (strindex, strbuf));
       if lenstring_data (password data) \<noteq> None \<and> lenstring_len (password data) > 0
       then do {
         p \<leftarrow> str_arg (password data);
         (k, strbuf) \<leftarrow> snprintf strbuf (nat strindex) (strbuflen - strindex) (ascii '', password '' @ p);
         Some (strindex + k, strbuf)
       }
       else Some (strindex, strbuf)
     }"

definition MQTTStringFormat_connack :: "bytes \<Rightarrow> int \<Rightarrow> u8 \<Rightarrow> u8 \<Rightarrow> (int \<times> bytes) option" where
  "MQTTStringFormat_connack strbuf strbuflen connack_rc sessionPresent =
     snprintf strbuf 0 strbuflen
       (ascii ''CONNACK session present '' @ dec (uint sessionPresent) @ ascii '', rc '' @ dec (uint connack_rc))"

definition MQTTStringFormat_publish ::
  "bytes \<Rightarrow> int \<Rightarrow> u8 \<Rightarrow> nat \<Rightarrow> u8 \<Rightarrow> u16 \<Rightarrow> MQTTString \<Rightarrow> cptr option \<Rightarrow> int \<Rightarrow> (int \<times> bytes) option" where
  "MQTTStringFormat_publish strbuf strbuflen dup qos retained packetid topicName payload payloadlen =
     do {
       t \<leftarrow> prec_str (if lenstring_len topicName < 20 then int (lenstring_len topicName) else 20)
              (lenstring_data topicName);
       p \<leftarrow> prec_str (if payloadlen < 20 then payloadlen else 20) payload;
       snprintf strbuf 0 strbuflen
         (ascii ''PUBLISH dup '' @ dec (uint dup) @ ascii '', QoS '' @ dec (int qos) @
          ascii '', retained '' @ dec (uint retained) @ ascii '', packet id '' @ dec (uint packetid) @
          ascii '', topic '' @ t @ ascii '', payload length '' @ dec payloadlen @ ascii '', payload '' @ p)
     }"

definition MQTTStringFormat_ack :: "bytes \<Rightarrow> int \<Rightarrow> u8 \<Rightarrow> u8 \<Rightarrow> u16 \<Rightarrow> (int \<times> bytes) option" where
  "MQTTStringFormat_ack strbuf strbuflen packettype dup packetid =
     do {
       name \<leftarrow> arr MQTTPacket_names (unat packettype);
       (strindex, strbuf) \<leftarrow> snprintf strbuf 0 strbuflen (name @ ascii '', packet id '' @ dec (uint packetid));
       if dup \<noteq> 0
       then do {
         (k, strbuf) \<leftarrow> snprintf strbuf (nat strindex) (strbuflen - strindex) (ascii '', dup '' @ dec (uint dup));
         Some (strindex + k, strbuf)
       }
       else Some (strindex, strbuf)
     }"

definition MQTTStringFormat_subscribe ::
  "bytes \<Rightarrow> int \<Rightarrow> u8 \<Rightarrow> u16 \<Rightarrow> nat \<Rightarrow> MQTTString list \<Rightarrow> int list \<Rightarrow> (int \<times> bytes) option" where
  "MQTTStringFormat_subscribe strbuf strbuflen dup packetid count topicFilters requestedQoSs =
     do {
       f \<leftarrow> arr topicFilters 0;
       t \<leftarrow> str_arg f;
       q \<leftarrow> arr requestedQoSs 0;
       snprintf strbuf 0 strbuflen
         (ascii ''SUBSCRIBE dup '' @ dec (uint dup) @ ascii '', packet id '' @ dec (uint packetid) @
          ascii '' count '' @ dec (int count) @ ascii '' topic '' @ t @ ascii '' qos '' @ dec q)
     }"

definition MQTTStringFormat_suback :: "bytes \<Rightarrow> int \<Rightarrow> u16 \<Rightarrow> nat \<Rightarrow> int list \<Rightarrow> (int \<times> bytes) option" where
  "MQTTStringFormat_suback strbuf strbuflen packetid count grantedQoSs =
     do {
       q \<leftarrow> arr grantedQoSs 0;
       snprintf strbuf 0 strbuflen
         (ascii ''SUBACK packet id '' @ dec (uint packetid) @ ascii '' count '' @ dec (int count) @
          ascii '' granted qos '' @ dec q)
     }"

definition MQTTStringFormat_unsubscribe ::
  "bytes \<Rightarrow> int \<Rightarrow> u8 \<Rightarrow> u16 \<Rightarrow> nat \<Rightarrow> MQTTString list \<Rightarrow> (int \<times> bytes) option" where
  "MQTTStringFormat_unsubscribe strbuf strbuflen dup packetid count topicFilters =
     do {
       f \<leftarrow> arr topicFilters 0;
       t \<leftarrow> str_arg f;
       snprintf strbuf 0 strbuflen
         (ascii ''UNSUBSCRIBE dup '' @ dec (uint dup) @ ascii '', packet id '' @ dec (uint packetid) @
          ascii '' count '' @ dec (int count) @ ascii '' topic '' @ t)
     }"

text \<open>What the uninitialised variables of the entry points happen to hold.\<close>

record locals =
  lo_connack :: connack_out
  lo_publish :: publish_out
  lo_ack :: ack_out
  lo_packetid :: u16
  lo_qos :: int
  lo_connect :: MQTTPacket_connectData
  lo_dup :: u8
  lo_filter :: MQTTString

definition print_publish :: "locals \<Rightarrow> bytes \<Rightarrow> int \<Rightarrow> bytes \<Rightarrow> nat \<Rightarrow> bytes option" where
  "print_publish lo strbuf strbuflen buf buflen =
     do {
       (rc, r) \<leftarrow> MQTTDeserialize_publish ((lo_publish lo)\<lparr>po_topic := MQTTString_initializer\<rparr>) buf buflen;
       if rc = 1
       then map_option snd (MQTTStringFormat_publish strbuf strbuflen (po_dup r) (po_qos r) (po_retained r)
              (po_packetid r) (po_topic r) (po_payload r) (po_payloadlen r))
       else Some strbuf
     }"

definition print_ack :: "locals \<Rightarrow> bytes \<Rightarrow> int \<Rightarrow> bytes \<Rightarrow> nat \<Rightarrow> bytes option" where
  "print_ack lo strbuf strbuflen buf buflen =
     do {
       (rc, r) \<leftarrow> MQTTDeserialize_ack (lo_ack lo) buf buflen;
       if rc = 1
       then map_option snd (MQTTStringFormat_ack strbuf strbuflen (ao_packettype r) (ao_dup r) (ao_packetid r))
       else Some strbuf
     }"

definition MQTTFormat_toClientString ::
  "bool \<Rightarrow> locals \<Rightarrow> bytes \<Rightarrow> int \<Rightarrow> bytes \<Rightarrow> nat \<Rightarrow> bytes option" where
  "MQTTFormat_toClientString sgnd lo strbuf strbuflen buf buflen =
     do {
       h \<leftarrow> rd buf 0;
       _ \<leftarrow> MQTTPacket_decodeBuf buf 1;
       let typ = hdr_type h;
       if typ = msg_code CONNACK
       then do {
         (rc, r) \<leftarrow> MQTTDeserialize_connack (lo_connack lo) buf buflen;
         if rc = 1
         then map_option snd (MQTTStringFormat_connack strbuf strbuflen (co_connack_rc r) (co_sessionPresent r))
         else Some strbuf
       }
       else if typ = msg_code PUBLISH then print_publish lo strbuf strbuflen buf buflen
       else if typ \<in> {msg_code PUBACK, msg_code PUBREC, msg_code PUBREL, msg_code PUBCOMP}
       then print_ack lo strbuf strbuflen buf buflen
       else if typ = msg_code SUBACK
       then do {
         (rc, r) \<leftarrow> MQTTDeserialize_suback sgnd 1
           \<lparr>sa_packetid = lo_packetid lo, sa_count = 0, sa_granted = [lo_qos lo]\<rparr> buf buflen;
         if rc = 1
         then map_option snd (MQTTStringFormat_suback strbuf strbuflen (sa_packetid r) (sa_count r) (sa_granted r))
         else Some strbuf
       }
       else if typ = msg_code UNSUBACK
       then do {
         (rc, pid) \<leftarrow> MQTTDeserialize_unsuback (lo_packetid lo) buf buflen;
         if rc = 1
         then map_option snd (MQTTStringFormat_ack strbuf strbuflen (msg_code UNSUBACK) 0 pid)
         else Some strbuf
       }
       else if typ \<in> {msg_code PINGREQ, msg_code PINGRESP, msg_code DISCONNECT}
       then do {
         name \<leftarrow> arr MQTTPacket_names (unat typ);
         map_option snd (snprintf strbuf 0 strbuflen name)
       }
       else Some strbuf
     }"

text \<open>The last statement stores a zero at index \<open>strbuflen\<close>.\<close>

definition MQTTFormat_toServerString ::
  "bool \<Rightarrow> locals \<Rightarrow> bytes \<Rightarrow> int \<Rightarrow> bytes \<Rightarrow> nat \<Rightarrow> bytes option" where
  "MQTTFormat_toServerString sgnd lo strbuf strbuflen buf buflen =
     do {
       h \<leftarrow> rd buf 0;
       _ \<leftarrow> MQTTPacket_decodeBuf buf 1;
       let typ = hdr_type h;
       strbuf \<leftarrow>
         (if typ = msg_code CONNECT
          then do {
            (rc, d) \<leftarrow> MQTTDeserialize_connect sgnd (lo_connect lo) buf buflen;
            if rc = 1 then map_option snd (MQTTStringFormat_connect strbuf strbuflen d) else Some strbuf
          }
          else if typ = msg_code PUBLISH then print_publish lo strbuf strbuflen buf buflen
          else if typ \<in> {msg_code PUBACK, msg_code PUBREC, msg_code PUBREL, msg_code PUBCOMP}
          then print_ack lo strbuf strbuflen buf buflen
          else if typ = msg_code SUBSCRIBE
          then do {
            (rc, r) \<leftarrow> MQTTDeserialize_subscribe sgnd 1
              \<lparr>so_dup = lo_dup lo, so_packetid = lo_packetid lo, so_count = 0, so_filters = [lo_filter lo],
               so_qos = [lo_qos lo]\<rparr> buf buflen;
            if rc = 1
            then map_option snd (MQTTStringFormat_subscribe strbuf strbuflen (so_dup r) (so_packetid r) (so_count r)
                   (so_filters r) (so_qos r))
            else Some strbuf
          }
          else if typ = msg_code UNSUBSCRIBE
          then do {
            (rc, r) \<leftarrow> MQTTDeserialize_unsubscribe 1
              \<lparr>uo_dup = lo_dup lo, uo_packetid = lo_packetid lo, uo_count = 0, uo_filters = [lo_filter lo]\<rparr> buf buflen;
            if rc = 1
            then map_option snd (MQTTStringFormat_unsubscribe strbuf strbuflen (uo_dup r) (uo_packetid r) (uo_count r)
                   (uo_filters r))
            else Some strbuf
          }
          else if typ \<in> {msg_code PINGREQ, msg_code PINGRESP, msg_code DISCONNECT}
          then do {
            name \<leftarrow> arr MQTTPacket_names (unat typ);
            map_option snd (snprintf strbuf 0 strbuflen name)
          }
          else Some strbuf);
       if strbuflen < 0 then None else arr_set strbuf (nat strbuflen) 0
     }"

section \<open>What is printed\<close>

definition printed :: "bytes \<Rightarrow> bytes \<Rightarrow> bytes" where
  "printed b text = text @ 0 # drop (length text + 1) b"

definition publish_text :: "u8 \<Rightarrow> nat \<Rightarrow> u8 \<Rightarrow> u16 \<Rightarrow> bytes \<Rightarrow> bytes \<Rightarrow> bytes" where
  "publish_text dup qos retained pid ts ps =
     ascii ''PUBLISH dup '' @ dec (uint (take_bit 1 dup)) @ ascii '', QoS '' @ dec (int qos) @
     ascii '', retained '' @ dec (uint (take_bit 1 retained)) @ ascii '', packet id '' @ dec (uint pid) @
     ascii '', topic '' @ take 20 ts @ ascii '', payload length '' @ dec (int (length ps)) @
     ascii '', payload '' @ take 20 ps"

definition ack_text :: "msgTypes \<Rightarrow> u8 \<Rightarrow> u16 \<Rightarrow> bytes" where
  "ack_text typ dup pid =
     (MQTTPacket_names ! unat (msg_code typ)) @ ascii '', packet id '' @ dec (uint pid) @
     (if take_bit 1 dup \<noteq> 0 then ascii '', dup '' @ dec (uint (take_bit 1 dup)) else [])"

lemma decodeBuf_packet:
  "rl < 268435456 \<Longrightarrow> MQTTPacket_decodeBuf (h # enc_len rl @ rest) 1 = Some (length (enc_len rl), rl)"
  using decodeBuf_enc [of "h # enc_len rl @ rest" 1 rl] seg_prefix [of "[h]" "enc_len rl" rest] by simp

lemma prec_twenty:
  assumes "seg b i xs" "0 \<notin> set (take 20 xs)"
  shows "prec_str (if length xs < 20 then int (length xs) else 20) (Some (b, i)) = Some (take 20 xs)"
proof -
  have "prec_str (int (min 20 (length xs))) (Some (b, i)) = Some (take (min 20 (length xs)) xs)"
    using assms(2) by (intro prec_str_seg [OF assms(1)]) (cases "length xs < 20"; simp add: min_def)+
  moreover have "(if length xs < 20 then int (length xs) else 20) = int (min 20 (length xs))" by simp
  moreover have "take (min 20 (length xs)) xs = take 20 xs" by (simp add: min_def)
  ultimately show ?thesis by simp
qed

lemma print_publish_packet:
  assumes "length ts < 65536" "qos < 4" "publish_rem qos ts ps < 268435456"
    and "0 \<notin> set (take 20 ts)" "0 \<notin> set (take 20 ps)" "pid = 0 \<or> qos > 0" "qos > 0 \<or> po_packetid (lo_publish lo) = 0"
    and "length (publish_text dup qos retained pid ts ps) < length b" "length b < 2147483648"
  shows "print_publish lo b (int (length b)) (publish_packet dup qos retained pid ts ps @ post) n =
    Some (printed b (publish_text dup qos retained pid ts ps))"
proof -
  let ?buf = "publish_packet dup qos retained pid ts ps @ post"
  note d = decode_publish_packet [OF assms(1-3) refl, where dup = dup and retained = retained and pid = pid and post = post]
  have t: "prec_str (if length ts < 20 then int (length ts) else 20) (Some (?buf, topic_at qos ts ps)) = Some (take 20 ts)"
    by (rule prec_twenty [OF d(2) assms(4)])
  have p: "prec_str (if int (length ps) < 20 then int (length ps) else 20) (Some (?buf, payload_at qos ts ps)) = Some (take 20 ps)"
    using prec_twenty [OF d(3) assms(5)] by simp
  have pid: "(if qos > 0 then pid else po_packetid (lo_publish lo\<lparr>po_topic := MQTTString_initializer\<rparr>)) = pid" using assms(6,7) by auto
  have "MQTTStringFormat_publish b (int (length b)) (take_bit 1 dup) qos (take_bit 1 retained) pid
      \<lparr>cstring = None, lenstring_len = length ts, lenstring_data = Some (?buf, topic_at qos ts ps)\<rparr>
      (Some (?buf, payload_at qos ts ps)) (int (length ps)) =
    Some (int (length (publish_text dup qos retained pid ts ps)), printed b (publish_text dup qos retained pid ts ps))"
    unfolding MQTTStringFormat_publish_def MQTTString.simps t p bind.bind_lunit publish_text_def [symmetric] printed_def
    by (rule snprintf_start [OF assms(8,9)])
  then show ?thesis
    unfolding print_publish_def d(1) bind.bind_lunit prod.case publish_out.simps pid by simp
qed


definition sample_locals :: locals where
  "sample_locals =
     \<lparr>lo_connack = \<lparr>co_sessionPresent = 0, co_connack_rc = 0\<rparr>,
      lo_publish = \<lparr>po_dup = 0, po_qos = 0, po_retained = 0, po_packetid = 0, po_topic = MQTTString_initializer,
        po_payload = None, po_payloadlen = 0\<rparr>,
      lo_ack = \<lparr>ao_packettype = 0, ao_dup = 0, ao_packetid = 0\<rparr>, lo_packetid = 0, lo_qos = 0,
      lo_connect = MQTTPacket_connectData_initializer, lo_dup = 0, lo_filter = MQTTString_initializer\<rparr>"


lemma valid_all: "(\<And>r. Q r) \<Longrightarrow> valid m Q"
  by (simp add: valid_def)

lemma valid_map [simp]: "valid (map_option f m) Q \<longleftrightarrow> valid m (\<lambda>r. Q (f r))"
  by (cases m) simp_all

lemma valid_if: "valid (if P then a else b) Q \<longleftrightarrow> (P \<longrightarrow> valid a Q) \<and> (\<not> P \<longrightarrow> valid b Q)"
  by simp

lemma snprintf_keeps: "valid (snprintf b i n t) (\<lambda>r. length (snd r) \<le> length b)"
  by (auto simp: valid_def dest: snprintf_length)

lemma snprintf_then:
  "length b \<le> L \<Longrightarrow> (\<And>r. length (snd r) \<le> L \<Longrightarrow> Q r) \<Longrightarrow> valid (snprintf b i n t) Q"
  by (auto simp: valid_def dest: snprintf_length)

lemma str_arg_then: "(\<And>r. Q r) \<Longrightarrow> valid (str_arg s) Q"
  by (rule valid_all)

lemma format_connect_length: "valid (MQTTStringFormat_connect b n d) (\<lambda>r. length (snd r) \<le> length b)"
  unfolding MQTTStringFormat_connect_def valid_bind split_beta valid_if valid_simps fst_conv snd_conv
  by (assumption | rule order_refl conjI impI str_arg_then snprintf_then [where L = "length b"])+

lemma format_lengths:
  "valid (MQTTStringFormat_publish b n dup qos ret pid t p l) (\<lambda>r. length (snd r) \<le> length b)"
  "valid (MQTTStringFormat_ack b n ty dup pid) (\<lambda>r. length (snd r) \<le> length b)"
  "valid (MQTTStringFormat_subscribe b n dup pid c fs qs) (\<lambda>r. length (snd r) \<le> length b)"
  "valid (MQTTStringFormat_unsubscribe b n dup pid c fs) (\<lambda>r. length (snd r) \<le> length b)"
  unfolding valid_def MQTTStringFormat_publish_def MQTTStringFormat_ack_def
    MQTTStringFormat_subscribe_def MQTTStringFormat_unsubscribe_def
  by (auto split: bind_splits if_splits dest!: snprintf_length)

lemmas printers = snprintf_keeps format_connect_length format_lengths

lemma print_lengths:
  "valid (print_publish lo b n buf m) (\<lambda>r. length r \<le> length b)"
  "valid (print_ack lo b n buf m) (\<lambda>r. length r \<le> length b)"
  unfolding print_publish_def print_ack_def valid_bind valid_if valid_map valid_simps split_beta
  by (intro valid_all conjI impI order_refl printers)+

text \<open>The server's printer, called with the size of its buffer, writes one byte behind the buffer for every packet,
  or has left an object before.\<close>

theorem server_text_overruns:
  "MQTTFormat_toServerString sgnd lo strbuf (int (length strbuf)) buf n = None"
proof -
  have last: "valid (if int (length strbuf) < 0 then None else arr_set b (nat (int (length strbuf))) 0) (\<lambda>_. False) \<longleftrightarrow>
      length b \<le> length strbuf" for b :: bytes
    by (auto simp: valid_def arr_set_def)
  have "valid (MQTTFormat_toServerString sgnd lo strbuf (int (length strbuf)) buf n) (\<lambda>_. False)"
    unfolding MQTTFormat_toServerString_def Let_def split_beta valid_bind last
    unfolding valid_if valid_bind valid_map valid_simps
    by (rule valid_all)+ (intro conjI impI order_refl printers print_lengths; (rule valid_all)?; intro conjI impI order_refl printers)
  then show ?thesis by (simp add: valid_def)
qed

text \<open>The second print of a text that did not fit gets a negative size, which \<open>snprintf\<close> takes for a huge one.\<close>

lemma ack_text_overruns:
  "MQTTStringFormat_ack (replicate 8 0) 8 (msg_code PUBREL) 1 7 = None"
  by code_simp

end
