(* ===== verification/Tls_Session.thy ===== *)
theory Tls_Session
  imports Platform_Net
begin

text \<open>
  Opening and closing a TLS session, \<^verbatim>\<open>network/nettype_tls.c\<close>. What the calls of mbedtls return is the
  record \<open>tls_env\<close>; what they leave behind is the list of parts of a session that have been initialised and
  not freed, whether its socket is connected, and how peers are checked. Freeing the block of a session whose
  parts are still live loses them: the model keeps the list of what was lost.
\<close>

section \<open>The code\<close>

datatype tls_part = Socket | Ssl | Ssl_conf | Ctr_drbg | Ca_cert | Client_cert | Private_key | Entropy

record tls_params =
  tp_parts :: "tls_part list"
  tp_connected :: bool
  tp_ca :: "bytes option"
  tp_verify :: bool
  tp_hostname :: "bytes option"
  tp_timeout :: nat

record tls_env =
  te_alloc :: bool
  te_seed :: int
  te_defaults :: int
  te_parse :: "bytes \<Rightarrow> int"
  te_own_cert :: int
  te_setup :: int
  te_hostname :: int
  te_net_connect :: int
  te_handshake :: "nat \<Rightarrow> int"
  te_verify_result :: int
  te_close_notify :: "nat \<Rightarrow> int"

record tls_network = network +
  nettype_tls_params :: "nat option"

record tls_heap =
  sessions :: "nat \<Rightarrow> tls_params option"
  next_session :: nat
  lost :: "tls_params list"

definition MBEDTLS_ERR_SSL_WANT_READ :: int where "MBEDTLS_ERR_SSL_WANT_READ = - 0x6900"
definition MBEDTLS_ERR_SSL_WANT_WRITE :: int where "MBEDTLS_ERR_SSL_WANT_WRITE = - 0x6880"
definition MBEDTLS_ERR_SSL_TIMEOUT :: int where "MBEDTLS_ERR_SSL_TIMEOUT = - 0x6800"

definition server_certificate_verify :: "u32 \<Rightarrow> int" where
  "server_certificate_verify flags = sint flags"

text \<open>The bytes of the seed come from the random numbers of the program.\<close>

definition nettype_tls_entropy_source :: "bytes \<Rightarrow> bytes \<Rightarrow> nat \<Rightarrow> (bytes \<times> nat) option" where
  "nettype_tls_entropy_source seed output len =
     (let len = (if len > 4 then 4 else len) in
      do { xs \<leftarrow> rd_block seed 0 len; (output, _) \<leftarrow> write_bytes (output, 0) xs; Some (output, len) })"

definition nettype_tls_init :: "tls_env \<Rightarrow> tls_network \<Rightarrow> tls_params \<Rightarrow> int \<times> tls_network \<times> tls_params" where
  "nettype_tls_init env n p =
     (let p = p\<lparr>tp_parts := [Socket, Ssl, Ssl_conf, Ctr_drbg, Ca_cert, Client_cert, Private_key, Entropy]\<rparr> in
      if te_seed env \<noteq> 0 then (te_seed env, n, p)
      else if te_defaults env \<noteq> 0 then (te_defaults env, n, p)
      else
        (let (rc, n, p) =
           (case net_ca_crt n of
              None \<Rightarrow> (0, n, p)
            | Some ca \<Rightarrow> (te_parse env ca, n\<lparr>net_ca_crt_len := length ca\<rparr>, p\<lparr>tp_ca := Some ca\<rparr>)) in
         if rc \<noteq> 0 then (rc, n, p)
         else if te_own_cert env \<noteq> 0 then (te_own_cert env, n, p)
         else
           (let p = p\<lparr>tp_verify := True, tp_timeout := net_timeout_ms n\<rparr> in
            if te_setup env \<noteq> 0 then (te_setup env, n, p)
            else if te_hostname env \<noteq> 0 then (te_hostname env, n, p)
            else (MQTT_SUCCESS_ERROR, n, p\<lparr>tp_hostname := net_host n\<rparr>))))"

text \<open>The loops ask again while the library wants to read or write; the number counts the calls.\<close>

definition wants :: "int \<Rightarrow> bool" where
  "wants rc \<longleftrightarrow> rc = MBEDTLS_ERR_SSL_WANT_READ \<or> rc = MBEDTLS_ERR_SSL_WANT_WRITE"

partial_function (option) handshake_loop :: "(nat \<Rightarrow> int) \<Rightarrow> nat \<Rightarrow> int option" where
  "handshake_loop f i =
     (if f i \<noteq> 0 then if \<not> wants (f i) then Some (f i) else handshake_loop f (Suc i)
      else Some 0)"

declare handshake_loop.simps [code]

partial_function (option) close_loop :: "(nat \<Rightarrow> int) \<Rightarrow> nat \<Rightarrow> int option" where
  "close_loop f i = (if wants (f i) then close_loop f (Suc i) else Some (f i))"

declare close_loop.simps [code]

definition tls_free :: "nat \<Rightarrow> tls_heap \<Rightarrow> tls_heap option" where
  "tls_free q h =
     do {
       p \<leftarrow> sessions h q;
       Some (h\<lparr>sessions := (sessions h)(q := None),
               lost := (if tp_parts p = [] \<and> \<not> tp_connected p then lost h else lost h @ [p])\<rparr>)
     }"

text \<open>The block comes with whatever it held; only what the code sets is relied on.\<close>

definition nettype_tls_connect ::
  "tls_env \<Rightarrow> tls_network option \<Rightarrow> tls_heap \<Rightarrow> (int \<times> tls_network option \<times> tls_heap) option" where
  "nettype_tls_connect env n h =
     (case n of
        None \<Rightarrow> Some (MQTT_NULL_VALUE_ERROR, None, h)
      | Some n \<Rightarrow>
          if \<not> te_alloc env then Some (MQTT_MEM_NOT_ENOUGH_ERROR, Some n, h)
          else do {
            let q = next_session h;
            let p = \<lparr>tp_parts = [], tp_connected = False, tp_ca = None, tp_verify = False, tp_hostname = None, tp_timeout = 0\<rparr>;
            let (rc, n, p) = nettype_tls_init env n p;
            let put = (\<lambda>p. h\<lparr>next_session := Suc q, sessions := (sessions h)(q \<mapsto> p)\<rparr>);
            if rc \<noteq> MQTT_SUCCESS_ERROR then do { h \<leftarrow> tls_free q (put p); Some (rc, Some n, h) }
            else if te_net_connect env \<noteq> 0
            then do { h \<leftarrow> tls_free q (put p); Some (te_net_connect env, Some n, h) }
            else do {
              let p = p\<lparr>tp_connected := True\<rparr>;
              rc \<leftarrow> handshake_loop (te_handshake env) 0;
              if rc \<noteq> 0 then do { h \<leftarrow> tls_free q (put p); Some (rc, Some n, h) }
              else if te_verify_result env \<noteq> 0
              then do { h \<leftarrow> tls_free q (put p); Some (te_verify_result env, Some n, h) }
              else Some (MQTT_SUCCESS_ERROR, Some (n\<lparr>nettype_tls_params := Some q\<rparr>), put p)
            }
          })"

definition nettype_tls_disconnect :: "tls_env \<Rightarrow> tls_network option \<Rightarrow> tls_heap \<Rightarrow> tls_heap option" where
  "nettype_tls_disconnect env n h =
     (case n of
        None \<Rightarrow> Some h
      | Some n \<Rightarrow> do {
          q \<leftarrow> nettype_tls_params n;
          p \<leftarrow> sessions h q;
          _ \<leftarrow> close_loop (te_close_notify env) 0;
          let p = p\<lparr>tp_connected := False, tp_parts := foldr remove1
            [Socket, Client_cert, Ca_cert, Private_key, Ssl, Ssl_conf, Ctr_drbg, Entropy] (tp_parts p)\<rparr>;
          tls_free q (h\<lparr>sessions := (sessions h)(q \<mapsto> p)\<rparr>)
        })"

section \<open>Properties\<close>

text \<open>The loops return as soon as the library stops asking.\<close>

lemma handshake_returns:
  assumes "\<forall>j<k. wants (f (i + j))" "\<not> wants (f (i + k))"
  shows "handshake_loop f i = Some (f (i + k))"
  using assms
proof (induction k arbitrary: i)
  case 0
  then show ?case by (subst handshake_loop.simps) auto
next
  case (Suc k)
  have "wants (f i)" using Suc.prems(1) by (metis add_0_right zero_less_Suc)
  moreover have "f i \<noteq> 0" using calculation by (auto simp: wants_def MBEDTLS_ERR_SSL_WANT_READ_def MBEDTLS_ERR_SSL_WANT_WRITE_def)
  moreover have "handshake_loop f (Suc i) = Some (f (Suc i + k))"
    using Suc.prems by (intro Suc.IH) (auto simp: add.commute [of i] dest: spec [of _ "Suc _"])
  ultimately show ?case by (subst handshake_loop.simps) simp
qed

lemma close_returns:
  assumes "\<forall>j<k. wants (f (i + j))" "\<not> wants (f (i + k))"
  shows "close_loop f i = Some (f (i + k))"
  using assms
proof (induction k arbitrary: i)
  case 0
  then show ?case by (subst close_loop.simps) auto
next
  case (Suc k)
  have "wants (f i)" using Suc.prems(1) by (metis add_0_right zero_less_Suc)
  moreover have "close_loop f (Suc i) = Some (f (Suc i + k))"
    using Suc.prems by (intro Suc.IH) (auto simp: add.commute [of i] dest: spec [of _ "Suc _"])
  ultimately show ?case by (subst close_loop.simps) simp
qed

text \<open>What a block owns before its parts are initialised, and what \<open>nettype_tls_init\<close> sets when it succeeds.\<close>

lemma tls_init_succeeds:
  assumes "nettype_tls_init env n p = (0, n', p')" and "tp_connected p = c"
  shows "te_seed env = 0 \<and> te_setup env = 0 \<and> te_hostname env = 0 \<and> tp_verify p' \<and> tp_connected p' = c
    \<and> tp_hostname p' = net_host n \<and> tp_timeout p' = net_timeout_ms n
    \<and> tp_parts p' = [Socket, Ssl, Ssl_conf, Ctr_drbg, Ca_cert, Client_cert, Private_key, Entropy]
    \<and> (case net_ca_crt n of None \<Rightarrow> True | Some ca \<Rightarrow> te_parse env ca = 0 \<and> tp_ca p' = Some ca)"
  using assms by (auto simp: nettype_tls_init_def Let_def split: if_splits option.splits prod.splits)

lemma tls_init_parts:
  assumes "nettype_tls_init env n p = (rc, n', p')"
  shows "length (tp_parts p') = 8 \<and> tp_connected p' = tp_connected p"
  using assms by (auto simp: nettype_tls_init_def Let_def split: if_splits option.splits prod.splits)

lemma tls_connect_cases:
  assumes "nettype_tls_connect env (Some n) h = Some (rc, n', h')" and "te_alloc env"
  obtains (connected) m p where "rc = 0" "nettype_tls_init env n \<lparr>tp_parts = [], tp_connected = False, tp_ca = None,
      tp_verify = False, tp_hostname = None, tp_timeout = 0\<rparr> = (0, m, p)"
    "te_net_connect env = 0" "handshake_loop (te_handshake env) 0 = Some 0" "te_verify_result env = 0"
    "n' = Some (m\<lparr>nettype_tls_params := Some (next_session h)\<rparr>)"
    "h' = h\<lparr>next_session := Suc (next_session h), sessions := (sessions h)(next_session h \<mapsto> p\<lparr>tp_connected := True\<rparr>)\<rparr>"
  | (failed) i m p where "rc \<noteq> 0" "nettype_tls_init env n \<lparr>tp_parts = [], tp_connected = False, tp_ca = None,
      tp_verify = False, tp_hostname = None, tp_timeout = 0\<rparr> = (i, m, p)" "n' = Some m"
    "h' = h\<lparr>next_session := Suc (next_session h), sessions := (sessions h)(next_session h := None),
      lost := lost h @ [p\<lparr>tp_connected := i = 0 \<and> te_net_connect env = 0\<rparr>]\<rparr>"
proof (cases "nettype_tls_init env n \<lparr>tp_parts = [], tp_connected = False, tp_ca = None,
      tp_verify = False, tp_hostname = None, tp_timeout = 0\<rparr>")
  case (fields i m p)
  note parts = tls_init_parts [OF fields]
  have "p\<lparr>tp_connected := False\<rparr> = p" using parts by simp
  then show thesis
    using assms parts fields connected failed
    by (auto simp: nettype_tls_connect_def tls_free_def Let_def MQTT_SUCCESS_ERROR_def
        split: if_splits Option.bind_splits)
qed

text \<open>A failed connection gives the block back, but every part of it is still live, with the socket if it was open.\<close>

lemma tls_failed_connect:
  assumes "nettype_tls_connect env (Some n) h = Some (rc, n', h')" and "te_alloc env" and "rc \<noteq> 0"
    and "sessions h (next_session h) = None"
  shows "sessions h' = sessions h \<and>
    (\<exists>p. lost h' = lost h @ [p] \<and> length (tp_parts p) = 8 \<and> (tp_connected p \<longrightarrow> te_net_connect env = 0))"
  using assms(1,2)
proof (cases rule: tls_connect_cases)
  case (failed i m p)
  then show ?thesis using tls_init_parts [OF failed(2)] assms(4) by (simp add: fun_upd_idem)
qed (use assms(3) in simp)

text \<open>\<^bold>\<open>Property C31 (tls_connect_disconnect).\<close>
  A connection that is reported as made has a session of its own, on an open socket, with an accepted
  certificate chain, a completed handshake, a verified peer, the name of the host to compare the certificate
  with, and the read timeout of the network. Closing it, once the peer has taken the notice, gives back exactly
  this session and loses nothing. The pointer to it stays in the network, so closing it twice is undefined.\<close>

theorem tls_connect_disconnect:
  assumes "nettype_tls_connect env (Some n) h = Some (0, n', h')" and "te_alloc env"
    and "sessions h (next_session h) = None"
    and "\<forall>j<k. wants (te_close_notify env j)" "\<not> wants (te_close_notify env k)"
  shows "(\<exists>m q p. n' = Some m \<and> nettype_tls_params m = Some q \<and> sessions h' q = Some p
      \<and> tp_connected p \<and> tp_verify p \<and> tp_hostname p = net_host n \<and> tp_timeout p = net_timeout_ms n
      \<and> (case net_ca_crt n of None \<Rightarrow> True | Some ca \<Rightarrow> te_parse env ca = 0 \<and> tp_ca p = Some ca))
    \<and> handshake_loop (te_handshake env) 0 = Some 0 \<and> te_verify_result env = 0
    \<and> (\<exists>h''. nettype_tls_disconnect env n' h' = Some h'' \<and> sessions h'' = sessions h \<and> lost h'' = lost h
        \<and> nettype_tls_disconnect env n' h'' = None)"
  using assms(1,2)
proof (cases rule: tls_connect_cases)
  case (connected m p)
  note init = tls_init_succeeds [OF connected(2) refl]
  have closed: "close_loop (te_close_notify env) 0 = Some (te_close_notify env k)"
    using close_returns [of k "te_close_notify env" 0] assms(4,5) by simp
  show ?thesis using connected init closed assms(3)
    by (cases "net_ca_crt n") (simp_all add: nettype_tls_disconnect_def tls_free_def fun_upd_idem)
qed simp

definition tls_env_good :: tls_env where
  "tls_env_good = \<lparr>te_alloc = True, te_seed = 0, te_defaults = 0, te_parse = (\<lambda>_. 0), te_own_cert = 0, te_setup = 0,
     te_hostname = 0, te_net_connect = 0,
     te_handshake = (\<lambda>i. if i < 2 then MBEDTLS_ERR_SSL_WANT_READ else 0), te_verify_result = 0,
     te_close_notify = (\<lambda>i. if i = 0 then MBEDTLS_ERR_SSL_WANT_WRITE else 0)\<rparr>"

definition tls_network_example :: tls_network where
  "tls_network_example = \<lparr>net_host = Some [104, 49], net_port = Some [56, 56, 56, 51], net_socket = -1, net_channel = 1,
     net_ca_crt = Some [67, 65], net_ca_crt_len = 0, net_timeout_ms = 5000, nettype_tls_params = None\<rparr>"

theorem tls_connect_disconnect_witness:
  "\<exists>n h. nettype_tls_connect tls_env_good (Some tls_network_example) \<lparr>sessions = (\<lambda>_. None), next_session = 7, lost = []\<rparr>
      = Some (0, n, h)
    \<and> (\<exists>m q p. n = Some m \<and> nettype_tls_params m = Some q \<and> sessions h q = Some p \<and> tp_verify p
        \<and> tp_hostname p = Some [104, 49])
    \<and> (\<exists>h'. nettype_tls_disconnect tls_env_good n h = Some h' \<and> nettype_tls_disconnect tls_env_good n h' = None)"
proof -
  let ?h = "\<lparr>sessions = (\<lambda>_. None), next_session = 7, lost = []\<rparr>"
  have shake: "handshake_loop (te_handshake tls_env_good) 0 = Some 0"
    using handshake_returns [of 2 "te_handshake tls_env_good" 0]
    by (simp add: tls_env_good_def wants_def MBEDTLS_ERR_SSL_WANT_READ_def MBEDTLS_ERR_SSL_WANT_WRITE_def)
  have "\<exists>n h. nettype_tls_connect tls_env_good (Some tls_network_example) ?h = Some (0, n, h)"
    using shake by (simp add: nettype_tls_connect_def nettype_tls_init_def tls_env_good_def tls_network_example_def
        MQTT_SUCCESS_ERROR_def)
  then obtain n h where run: "nettype_tls_connect tls_env_good (Some tls_network_example) ?h = Some (0, n, h)" by blast
  show ?thesis
    using run tls_connect_disconnect [OF run, of 1]
    by (auto simp: tls_env_good_def tls_network_example_def wants_def MBEDTLS_ERR_SSL_WANT_READ_def
        MBEDTLS_ERR_SSL_WANT_WRITE_def)
qed

text \<open>With a certificate the library cannot read, and then with a peer that fails the verification, the block is lost with all its parts.\<close>

lemma tls_failed_connect_examples:
  "(case nettype_tls_connect (tls_env_good\<lparr>te_parse := (\<lambda>_. - 0x2180)\<rparr>) (Some tls_network_example)
       \<lparr>sessions = (\<lambda>_. None), next_session = 7, lost = []\<rparr> of
     Some (rc, n, h) \<Rightarrow> rc = - 0x2180 \<and> map tp_connected (lost h) = [False] | None \<Rightarrow> False)"
  "(case nettype_tls_connect (tls_env_good\<lparr>te_verify_result := 8\<rparr>) (Some tls_network_example)
       \<lparr>sessions = (\<lambda>_. None), next_session = 7, lost = []\<rparr> of
     Some (rc, n, h) \<Rightarrow> rc = 8 \<and> map tp_connected (lost h) = [True] | None \<Rightarrow> False)"
  by code_simp+

end
