(* ===== verification/Tls_Transfer.thy ===== *)
theory Tls_Transfer
  imports Tls_Session
begin

text \<open>
  The channel a network uses, \<^verbatim>\<open>network/network.c\<close> in the build with TLS, and what the transfer loops of
  \<^verbatim>\<open>network/nettype_tls.c\<close> do with a session that keeps the promises of mbedtls.
\<close>

section \<open>The loops\<close>

text \<open>
  \<open>ssl_write q bs\<close> and \<open>ssl_read q n\<close> stand for \<open>mbedtls_ssl_write\<close> and \<open>mbedtls_ssl_read\<close> on the
  session \<open>q\<close>. The loops end only if the clock moves.
\<close>

definition tls_retry :: "int \<Rightarrow> bool" where
  "tls_retry rc \<longleftrightarrow>
     rc = MBEDTLS_ERR_SSL_WANT_WRITE \<or> rc = MBEDTLS_ERR_SSL_WANT_READ \<or> rc = MBEDTLS_ERR_SSL_TIMEOUT"

partial_function (option) tls_write_loop ::
  "(bytes \<Rightarrow> 'a world_scheme \<Rightarrow> int \<times> 'a world_scheme) \<Rightarrow> platform_timer \<Rightarrow> bytes \<Rightarrow> nat \<Rightarrow>
   'a world_scheme \<Rightarrow> (nat \<times> 'a world_scheme) option" where
  "tls_write_loop ssl_write timer buf write_len w =
     (let (rc, w) = ssl_write (drop write_len buf) w in
      if rc \<le> 0 \<and> (rc = 0 \<or> \<not> tls_retry rc) then Some (write_len, w)
      else
        (let write_len = (if rc > 0 then write_len + nat rc else write_len) in
         if \<not> platform_timer_is_expired (now_us w) timer \<and> write_len < length buf
         then tls_write_loop ssl_write timer buf write_len w
         else Some (write_len, w)))"

declare tls_write_loop.simps [code]

definition nettype_tls_write ::
  "(nat \<Rightarrow> bytes \<Rightarrow> 'a world_scheme \<Rightarrow> int \<times> 'a world_scheme) \<Rightarrow> tls_network option \<Rightarrow> bytes \<Rightarrow> nat \<Rightarrow>
   'a world_scheme \<Rightarrow> (int \<times> 'a world_scheme) option" where
  "nettype_tls_write ssl_write n buf timeout w =
     (case n of
        None \<Rightarrow> Some (MQTT_NULL_VALUE_ERROR, w)
      | Some n \<Rightarrow> do {
          q \<leftarrow> nettype_tls_params n;
          (k, w) \<leftarrow> tls_write_loop (ssl_write q) (platform_timer_cutdown (now_us w) timeout) buf 0 w;
          Some (int k, w)
        })"

partial_function (option) tls_read_loop ::
  "(nat \<Rightarrow> 'a world_scheme \<Rightarrow> (int \<times> bytes) \<times> 'a world_scheme) \<Rightarrow> platform_timer \<Rightarrow> bytes \<Rightarrow>
   nat \<Rightarrow> nat \<Rightarrow> nat \<Rightarrow> 'a world_scheme \<Rightarrow> (nat \<times> bytes \<times> 'a world_scheme) option" where
  "tls_read_loop ssl_read timer buf ptr len read_len w =
     (let ((rc, bs), w) = ssl_read (len - read_len) w in
      if rc \<le> 0 \<and> (rc = 0 \<or> \<not> tls_retry rc) then Some (read_len, buf, w)
      else do {
        (buf, _) \<leftarrow> write_bytes (buf, ptr + read_len) (if rc > 0 then bs else []);
        let read_len = (if rc > 0 then read_len + nat rc else read_len);
        if \<not> platform_timer_is_expired (now_us w) timer \<and> read_len < len
        then tls_read_loop ssl_read timer buf ptr len read_len w
        else Some (read_len, buf, w)
      })"

declare tls_read_loop.simps [code]

definition nettype_tls_read ::
  "(nat \<Rightarrow> nat \<Rightarrow> 'a world_scheme \<Rightarrow> (int \<times> bytes) \<times> 'a world_scheme) \<Rightarrow> tls_network option \<Rightarrow> bytes \<Rightarrow>
   nat \<Rightarrow> nat \<Rightarrow> nat \<Rightarrow> 'a world_scheme \<Rightarrow> (int \<times> bytes \<times> 'a world_scheme) option" where
  "nettype_tls_read ssl_read n buf ptr len timeout w =
     (case n of
        None \<Rightarrow> Some (MQTT_NULL_VALUE_ERROR, buf, w)
      | Some n \<Rightarrow> do {
          q \<leftarrow> nettype_tls_params n;
          (k, buf, w) \<leftarrow> tls_read_loop (ssl_read q) (platform_timer_cutdown (now_us w) timeout) buf ptr len 0 w;
          Some (int k, buf, w)
        })"

section \<open>The choice of the channel\<close>

definition network_read_tls ::
  "(nat \<Rightarrow> nat \<Rightarrow> 'a world_scheme \<Rightarrow> (int \<times> bytes) \<times> 'a world_scheme) \<Rightarrow> tls_network \<Rightarrow> bytes \<Rightarrow> nat \<Rightarrow>
   nat \<Rightarrow> nat \<Rightarrow> 'a world_scheme \<Rightarrow> (int \<times> bytes \<times> 'a world_scheme) option" where
  "network_read_tls ssl_read n buf ptr len timeout w =
     (if net_channel n \<noteq> 0 then nettype_tls_read ssl_read (Some n) buf ptr len timeout w
      else nettype_tcp_read n buf ptr len (int timeout) w)"

definition network_write_tls ::
  "(nat \<Rightarrow> bytes \<Rightarrow> 'a world_scheme \<Rightarrow> int \<times> 'a world_scheme) \<Rightarrow> tls_network \<Rightarrow> bytes \<Rightarrow> nat \<Rightarrow>
   'a world_scheme \<Rightarrow> (int \<times> 'a world_scheme) option" where
  "network_write_tls ssl_write n buf timeout w =
     (if net_channel n \<noteq> 0 then nettype_tls_write ssl_write (Some n) buf timeout w
      else Some (nettype_tcp_write n buf (int timeout) w))"

definition network_connect_tls ::
  "tls_env \<Rightarrow> tls_network \<Rightarrow> 'a world_scheme \<Rightarrow> tls_heap \<Rightarrow>
   (int \<times> tls_network \<times> 'a world_scheme \<times> tls_heap) option" where
  "network_connect_tls env n w h =
     (if net_channel n \<noteq> 0
      then do { (rc, n, h) \<leftarrow> nettype_tls_connect env (Some n) h; n \<leftarrow> n; Some (rc, n, w, h) }
      else (let (rc, n, w) = nettype_tcp_connect n w in Some (rc, n, w, h)))"

definition network_disconnect_tls ::
  "tls_env \<Rightarrow> tls_network \<Rightarrow> 'a world_scheme \<Rightarrow> tls_heap \<Rightarrow>
   (tls_network \<times> 'a world_scheme \<times> tls_heap) option" where
  "network_disconnect_tls env n w h =
     (if net_channel n \<noteq> 0
      then do { h \<leftarrow> nettype_tls_disconnect env (Some n) h; Some (n, w, h) }
      else (let (n, w) = nettype_tcp_disconnect n w in Some (n, w, h)))"

text \<open>A network without a certificate uses TCP in both builds, so what is shown for the build without TLS holds there.\<close>

lemma plain_channel:
  assumes "network_init_tls (Some m) host port None = (rc, Some n)"
  shows "net_channel n = 0" "network_init (Some m) host port = (rc, Some (n\<lparr>net_channel := net_channel m\<rparr>))"
  using assms by (auto simp: network_init_tls_def network_init_def)

lemma plain_network:
  assumes "net_channel n = 0"
  shows "network_read_tls ssl_read n buf ptr len timeout w =
      network_read (network.truncate n) buf ptr len (int timeout) w"
    "network_write_tls ssl_write n buf timeout w = Some (network_write (network.truncate n) buf (int timeout) w)"
    "map_option (\<lambda>(rc, n, w, h). (rc, network.truncate n, w)) (network_connect_tls env n w h) =
      Some (network_connect (network.truncate n) w)"
    "map_option (\<lambda>(n, w, h). (network.truncate n, w)) (network_disconnect_tls env n w h) =
      Some (network_disconnect (network.truncate n) w)"
  using assms
  by (simp_all add: network_read_tls_def network_read_def nettype_tcp_read_def network_write_tls_def network_write_def
      nettype_tcp_write_def network_connect_tls_def network_connect_def nettype_tcp_connect_def
      network_disconnect_tls_def network_disconnect_def nettype_tcp_disconnect_def network.truncate_def
      Let_def split: prod.splits)

text \<open>A network with a certificate uses TLS, in both directions.\<close>

lemma certified_channel:
  assumes "network_init_tls (Some m) host port (Some ca) = (rc, Some n)"
  shows "net_channel n = NETWORK_CHANNEL_TLS" "net_ca_crt n = Some ca" "net_timeout_ms n = MQTT_TLS_HANDSHAKE_TIMEOUT"
  using assms by (auto simp: network_init_tls_def network_set_ca_def)

section \<open>Transfers\<close>

text \<open>
  What mbedtls promises. A write takes a prefix of what it is offered, a read gives the next bytes that came in;
  other results move nothing. The clock does not go back, and a call that asks to be repeated takes time.
  \<open>accepted\<close> and \<open>incoming\<close> are the plain bytes of the two directions.
\<close>

definition ssl_write_ok ::
  "(bytes \<Rightarrow> 'a world_scheme \<Rightarrow> int \<times> 'a world_scheme) \<Rightarrow> ('a world_scheme \<Rightarrow> bytes) \<Rightarrow> bool" where
  "ssl_write_ok ssl_write accepted \<longleftrightarrow>
     (\<forall>bs w rc w'. ssl_write bs w = (rc, w') \<longrightarrow>
        rc \<le> int (length bs) \<and> accepted w' = accepted w @ take (nat rc) bs \<and> now_us w \<le> now_us w' \<and>
        (rc < 0 \<and> tls_retry rc \<longrightarrow> now_us w < now_us w'))"

definition ssl_read_ok ::
  "(nat \<Rightarrow> 'a world_scheme \<Rightarrow> (int \<times> bytes) \<times> 'a world_scheme) \<Rightarrow> ('a world_scheme \<Rightarrow> bytes) \<Rightarrow> bool" where
  "ssl_read_ok ssl_read incoming \<longleftrightarrow>
     (\<forall>n w rc bs w'. ssl_read n w = ((rc, bs), w') \<longrightarrow>
        (if rc > 0 then rc = int (length bs) \<and> length bs \<le> n \<and> incoming w = bs @ incoming w'
         else incoming w' = incoming w) \<and>
        now_us w \<le> now_us w' \<and> (rc < 0 \<and> tls_retry rc \<longrightarrow> now_us w < now_us w'))"

text \<open>How a loop may end before everything is moved: in time the deadline has passed, or the last call refused.\<close>

lemma tls_write_loop_prefix:
  assumes ok: "ssl_write_ok ssl_write accepted" and timer: "tv_norm timer"
  shows "wl \<le> length buf \<Longrightarrow> \<exists>n w'. tls_write_loop ssl_write timer buf wl w = Some (n, w') \<and>
    wl \<le> n \<and> n \<le> length buf \<and> accepted w' = accepted w @ take (n - wl) (drop wl buf) \<and> now_us w \<le> now_us w' \<and>
    (n < length buf \<longrightarrow> deadline timer \<le> int (now_us w') \<or>
       (\<exists>w1 rc. ssl_write (drop n buf) w1 = (rc, w') \<and> rc \<le> 0 \<and> (rc = 0 \<or> \<not> tls_retry rc)))"
proof (induction "nat (deadline timer - int (now_us w)) + (length buf - wl)" arbitrary: wl w rule: less_induct)
  case less
  obtain rc w1 where call: "ssl_write (drop wl buf) w = (rc, w1)" by (metis surj_pair)
  have c: "rc \<le> int (length buf - wl)" "accepted w1 = accepted w @ take (nat rc) (drop wl buf)" "now_us w \<le> now_us w1"
    "rc < 0 \<and> tls_retry rc \<Longrightarrow> now_us w < now_us w1"
    using ok call unfolding ssl_write_ok_def by force+
  show ?case
  proof (cases "rc \<le> 0 \<and> (rc = 0 \<or> \<not> tls_retry rc)")
    case True
    then show ?thesis
      using call c less.prems
      by (intro exI [of _ wl] exI [of _ w1]) (subst tls_write_loop.simps, auto)
  next
    case False
    define k where "k = nat rc"
    have k: "wl + k \<le> length buf" using c(1) less.prems by (simp add: k_def)
    have wl1: "(if rc > 0 then wl + nat rc else wl) = wl + k" by (simp add: k_def)
    show ?thesis
    proof (cases "\<not> platform_timer_is_expired (now_us w1) timer \<and> wl + k < length buf")
      case True
      have step: "tls_write_loop ssl_write timer buf wl w = tls_write_loop ssl_write timer buf (wl + k) w1"
        by (subst tls_write_loop.simps) (simp only: call prod.case Let_def if_not_P [OF False] wl1 if_P [OF True])
      have "int (now_us w1) < deadline timer" using True is_expired_iff [OF timer, of "now_us w1"] by simp
      moreover have "0 < k \<or> now_us w < now_us w1" using False c(4) by (cases "rc > 0") (auto simp: k_def)
      ultimately have "nat (deadline timer - int (now_us w1)) + (length buf - (wl + k)) <
          nat (deadline timer - int (now_us w)) + (length buf - wl)"
        using c(3) True by linarith
      from less.hyps [OF this k] obtain n w' where IH:
        "tls_write_loop ssl_write timer buf (wl + k) w1 = Some (n, w')" "wl + k \<le> n" "n \<le> length buf"
        "accepted w' = accepted w1 @ take (n - (wl + k)) (drop (wl + k) buf)" "now_us w1 \<le> now_us w'"
        "n < length buf \<longrightarrow> deadline timer \<le> int (now_us w') \<or>
          (\<exists>w1 rc. ssl_write (drop n buf) w1 = (rc, w') \<and> rc \<le> 0 \<and> (rc = 0 \<or> \<not> tls_retry rc))"
        by blast
      have "n - wl = k + (n - (wl + k))" using IH(2) by simp
      then have "take k (drop wl buf) @ take (n - (wl + k)) (drop (wl + k) buf) = take (n - wl) (drop wl buf)"
        by (simp only: take_add drop_drop add.commute)
      then have "accepted w' = accepted w @ take (n - wl) (drop wl buf)" using IH(4) c(2) by (simp add: k_def)
      then show ?thesis using step IH c(3) by (intro exI [of _ n] exI [of _ w']) simp
    next
      case stop: False
      have "tls_write_loop ssl_write timer buf wl w = Some (wl + k, w1)"
        by (subst tls_write_loop.simps) (simp only: call prod.case Let_def if_not_P [OF False] wl1 if_not_P [OF stop])
      then show ?thesis
        using k stop c(2,3) is_expired_iff [OF timer, of "now_us w1"]
        by (intro exI [of _ "wl + k"] exI [of _ w1]) (auto simp: k_def)
    qed
  qed
qed

lemma tls_read_loop_stream:
  assumes ok: "ssl_read_ok ssl_read incoming" and timer: "tv_norm timer"
  shows "rl \<le> len \<Longrightarrow> ptr + len \<le> length buf \<Longrightarrow>
    \<exists>bs w'. tls_read_loop ssl_read timer buf ptr len rl w =
        Some (rl + length bs, take (ptr + rl) buf @ bs @ drop (ptr + rl + length bs) buf, w') \<and>
      rl + length bs \<le> len \<and> incoming w = bs @ incoming w' \<and> now_us w \<le> now_us w' \<and>
      (rl + length bs < len \<longrightarrow> deadline timer \<le> int (now_us w') \<or>
         (\<exists>w1 rc cs. ssl_read (len - (rl + length bs)) w1 = ((rc, cs), w') \<and> rc \<le> 0 \<and> (rc = 0 \<or> \<not> tls_retry rc)))"
proof (induction "nat (deadline timer - int (now_us w)) + (len - rl)" arbitrary: rl buf w rule: less_induct)
  case less
  obtain rc cs w1 where call: "ssl_read (len - rl) w = ((rc, cs), w1)" by (metis surj_pair)
  have c: "rc > 0 \<Longrightarrow> rc = int (length cs) \<and> length cs \<le> len - rl \<and> incoming w = cs @ incoming w1"
    "\<not> rc > 0 \<Longrightarrow> incoming w1 = incoming w" "now_us w \<le> now_us w1" "rc < 0 \<and> tls_retry rc \<Longrightarrow> now_us w < now_us w1"
    using ok call unfolding ssl_read_ok_def by force+
  show ?case
  proof (cases "rc \<le> 0 \<and> (rc = 0 \<or> \<not> tls_retry rc)")
    case True
    have "tls_read_loop ssl_read timer buf ptr len rl w = Some (rl, buf, w1)"
      by (subst tls_read_loop.simps) (simp only: call prod.case Let_def if_P [OF True])
    moreover have "\<not> rc > 0" using True by simp
    ultimately show ?thesis
      using call c(2,3) less.prems True by (intro exI [of _ "[]"] exI [of _ w1]) auto
  next
    case False
    define ds where "ds = (if rc > 0 then cs else [])"
    define buf1 where "buf1 = take (ptr + rl) buf @ ds @ drop (ptr + rl + length ds) buf"
    have ds: "rl + length ds \<le> len" "incoming w = ds @ incoming w1" using c(1,2) less.prems(1) by (auto simp: ds_def)
    have rl1: "(if rc > 0 then rl + nat rc else rl) = rl + length ds" using c(1) by (auto simp: ds_def)
    have w1: "write_bytes (buf, ptr + rl) (if rc > 0 then cs else []) = Some (buf1, ptr + rl + length ds)"
      using ds(1) less.prems(2) unfolding ds_def [symmetric] by (simp add: write_bytes_Some buf1_def)
    have fit: "ptr + len \<le> length buf1" using ds(1) less.prems(2) by (simp add: buf1_def)
    show ?thesis
    proof (cases "\<not> platform_timer_is_expired (now_us w1) timer \<and> rl + length ds < len")
      case True
      have step: "tls_read_loop ssl_read timer buf ptr len rl w =
          tls_read_loop ssl_read timer buf1 ptr len (rl + length ds) w1"
        by (subst tls_read_loop.simps)
          (simp only: call prod.case Let_def if_not_P [OF False] w1 bind.bind_lunit rl1 if_P [OF True])
      have "int (now_us w1) < deadline timer" using True is_expired_iff [OF timer, of "now_us w1"] by simp
      moreover have "0 < length ds \<or> now_us w < now_us w1" using False c(1,4) by (cases "rc > 0") (auto simp: ds_def)
      ultimately have "nat (deadline timer - int (now_us w1)) + (len - (rl + length ds)) <
          nat (deadline timer - int (now_us w)) + (len - rl)"
        using c(3) True by linarith
      from less.hyps [OF this ds(1) fit] obtain bs w' where IH:
        "tls_read_loop ssl_read timer buf1 ptr len (rl + length ds) w1 = Some (rl + length ds + length bs,
          take (ptr + (rl + length ds)) buf1 @ bs @ drop (ptr + (rl + length ds) + length bs) buf1, w')"
        "rl + length ds + length bs \<le> len" "incoming w1 = bs @ incoming w'" "now_us w1 \<le> now_us w'"
        "rl + length ds + length bs < len \<longrightarrow> deadline timer \<le> int (now_us w') \<or>
          (\<exists>w1 rc cs. ssl_read (len - (rl + length ds + length bs)) w1 = ((rc, cs), w') \<and> rc \<le> 0 \<and> (rc = 0 \<or> \<not> tls_retry rc))"
        by blast
      have "take (ptr + (rl + length ds)) buf1 @ bs @ drop (ptr + (rl + length ds) + length bs) buf1 =
          take (ptr + rl) buf @ (ds @ bs) @ drop (ptr + rl + length (ds @ bs)) buf"
        using ds(1) less.prems(2) by (simp add: buf1_def ac_simps)
      with step IH ds(2) c(3) show ?thesis
        by (intro exI [of _ "ds @ bs"] exI [of _ w']) (simp add: add.assoc)
    next
      case stop: False
      have "tls_read_loop ssl_read timer buf ptr len rl w = Some (rl + length ds, buf1, w1)"
        by (subst tls_read_loop.simps)
          (simp only: call prod.case Let_def if_not_P [OF False] w1 bind.bind_lunit rl1 if_not_P [OF stop])
      then show ?thesis
        using ds stop c(3) is_expired_iff [OF timer, of "now_us w1"]
        by (intro exI [of _ ds] exI [of _ w1]) (auto simp: buf1_def)
    qed
  qed
qed

text \<open>A deadline that has passed is at least the timeout after the start.\<close>

lemma cutdown_passed:
  "deadline (platform_timer_cutdown t ms) \<le> int t' \<longleftrightarrow> t + ms * 1000 \<le> t'"
  by (simp only: deadline_cutdown of_nat_le_iff)

text \<open>Both transfers on a session always return. A write reports how long a prefix of the buffer the session has
  taken, and it has taken exactly this prefix; a read puts the next bytes that came in into its window, in
  order, leaves the rest of the buffer alone and reports their number. Either reports less than it was asked
  for only when the timeout has passed or the last call of the session refused.\<close>

theorem tls_transfers:
  assumes "ssl_write_ok (ssl_write q) accepted" and "ssl_read_ok (ssl_read q) incoming"
    and "nettype_tls_params n = Some q" and "ptr + len \<le> length buf"
  shows "(\<exists>k w'. nettype_tls_write ssl_write (Some n) out timeout w = Some (int k, w') \<and> k \<le> length out \<and>
      accepted w' = accepted w @ take k out \<and>
      (k < length out \<longrightarrow> now_us w + timeout * 1000 \<le> now_us w' \<or>
         (\<exists>w1 rc. ssl_write q (drop k out) w1 = (rc, w') \<and> rc \<le> 0 \<and> (rc = 0 \<or> \<not> tls_retry rc))))
    \<and> (\<exists>bs w'. nettype_tls_read ssl_read (Some n) buf ptr len timeout w =
        Some (int (length bs), take ptr buf @ bs @ drop (ptr + length bs) buf, w') \<and> length bs \<le> len \<and>
      incoming w = bs @ incoming w' \<and>
      (length bs < len \<longrightarrow> now_us w + timeout * 1000 \<le> now_us w' \<or>
         (\<exists>w1 rc cs. ssl_read q (len - length bs) w1 = ((rc, cs), w') \<and> rc \<le> 0 \<and> (rc = 0 \<or> \<not> tls_retry rc))))"
proof (intro conjI)
  obtain k w1 where "tls_write_loop (ssl_write q) (platform_timer_cutdown (now_us w) timeout) out 0 w = Some (k, w1)"
    "k \<le> length out" "accepted w1 = accepted w @ take k out"
    "k < length out \<longrightarrow> now_us w + timeout * 1000 \<le> now_us w1 \<or>
       (\<exists>w2 rc. ssl_write q (drop k out) w2 = (rc, w1) \<and> rc \<le> 0 \<and> (rc = 0 \<or> \<not> tls_retry rc))"
    using tls_write_loop_prefix [OF assms(1) tv_norm_cutdown [of "now_us w" timeout], of 0 out w]
    unfolding cutdown_passed by auto
  then show "\<exists>k w'. nettype_tls_write ssl_write (Some n) out timeout w = Some (int k, w') \<and> k \<le> length out \<and>
      accepted w' = accepted w @ take k out \<and>
      (k < length out \<longrightarrow> now_us w + timeout * 1000 \<le> now_us w' \<or>
         (\<exists>w1 rc. ssl_write q (drop k out) w1 = (rc, w') \<and> rc \<le> 0 \<and> (rc = 0 \<or> \<not> tls_retry rc)))"
    using assms(3) by (intro exI [of _ k] exI [of _ w1]) (simp add: nettype_tls_write_def)
next
  obtain bs w1 where "tls_read_loop (ssl_read q) (platform_timer_cutdown (now_us w) timeout) buf ptr len 0 w =
      Some (length bs, take ptr buf @ bs @ drop (ptr + length bs) buf, w1)" "length bs \<le> len"
    "incoming w = bs @ incoming w1" "length bs < len \<longrightarrow> now_us w + timeout * 1000 \<le> now_us w1 \<or>
       (\<exists>w2 rc cs. ssl_read q (len - length bs) w2 = ((rc, cs), w1) \<and> rc \<le> 0 \<and> (rc = 0 \<or> \<not> tls_retry rc))"
    using tls_read_loop_stream [OF assms(2) tv_norm_cutdown [of "now_us w" timeout], of 0 len ptr buf w] assms(4)
    unfolding cutdown_passed by (simp, blast)
  then show "\<exists>bs w'. nettype_tls_read ssl_read (Some n) buf ptr len timeout w =
        Some (int (length bs), take ptr buf @ bs @ drop (ptr + length bs) buf, w') \<and> length bs \<le> len \<and>
      incoming w = bs @ incoming w' \<and>
      (length bs < len \<longrightarrow> now_us w + timeout * 1000 \<le> now_us w' \<or>
         (\<exists>w1 rc cs. ssl_read q (len - length bs) w1 = ((rc, cs), w') \<and> rc \<le> 0 \<and> (rc = 0 \<or> \<not> tls_retry rc)))"
    using assms(3) by (intro exI [of _ bs] exI [of _ w1]) (simp add: nettype_tls_read_def)
qed

text \<open>A session that passes on what it is given, two bytes at a time, and waits for a silent peer.\<close>

definition pass_write :: "nat \<Rightarrow> bytes \<Rightarrow> world \<Rightarrow> int \<times> world" where
  "pass_write q bs w = (int (length (take 2 bs)), w\<lparr>wire := wire w @ [(int q, take 2 bs)]\<rparr>)"

definition pass_read :: "nat \<Rightarrow> nat \<Rightarrow> world \<Rightarrow> (int \<times> bytes) \<times> world" where
  "pass_read q n w =
     (case rx w of
        [] \<Rightarrow> ((MBEDTLS_ERR_SSL_TIMEOUT, []), w\<lparr>now_us := now_us w + 500\<rparr>)
      | _ \<Rightarrow> recv (min n 2) 500 w)"

theorem tls_transfers_witness:
  "nettype_tls_write pass_write (Some (tls_network_example\<lparr>nettype_tls_params := Some 3\<rparr>)) [1, 2, 3, 4, 5] 10 sample_world =
        Some (5, sample_world\<lparr>wire := [(3, [1, 2]), (3, [3, 4]), (3, [5])]\<rparr>)
    \<and> (\<exists>k w'. Some (5, sample_world\<lparr>wire := [(3, [1, 2]), (3, [3, 4]), (3, [5])]\<rparr>) = Some (int k, w') \<and>
      concat (map snd (wire w')) = take k [1, 2, 3, 4, 5])
    \<and> (\<exists>bs w'. nettype_tls_read pass_read (Some (tls_network_example\<lparr>nettype_tls_params := Some 3\<rparr>)) [0, 0, 0, 0] 1 3 10
          sample_world = Some (int (length bs), take 1 [0, 0, 0, 0] @ bs @ drop (1 + length bs) [0, 0, 0, 0], w') \<and>
      stream (rx sample_world) = bs @ stream (rx w'))"
proof -
  let ?n = "tls_network_example\<lparr>nettype_tls_params := Some 3\<rparr>"
  have 1: "ssl_write_ok (pass_write 3) (\<lambda>w. concat (map snd (wire w)))"
    by (auto simp: ssl_write_ok_def pass_write_def min_def tls_retry_def)
  have 2: "ssl_read_ok (pass_read 3) (\<lambda>w. stream (rx w))"
    unfolding ssl_read_ok_def pass_read_def
    by (auto simp: tls_retry_def MBEDTLS_ERR_SSL_WANT_READ_def MBEDTLS_ERR_SSL_WANT_WRITE_def
        MBEDTLS_ERR_SSL_TIMEOUT_def split: list.splits dest!: recv_cases)
  have 3: "nettype_tls_write pass_write (Some ?n) [1, 2, 3, 4, 5] 10 sample_world =
        Some (5, sample_world\<lparr>wire := [(3, [1, 2]), (3, [3, 4]), (3, [5])]\<rparr>)"
    by code_simp
  have "nettype_tls_params ?n = Some 3" by simp
  note run = tls_transfers [where ssl_write = pass_write and ssl_read = pass_read, OF 1 2 this, of 1 3 "[0, 0, 0, 0]" "[1, 2, 3, 4, 5]" 10 sample_world]
  have w: "wire sample_world = []" by (simp add: sample_world_def)
  show ?thesis using conjunct1 [OF run, unfolded 3] conjunct2 [OF run] w by (intro conjI 3) auto
qed

end
