(* ===== verification/Mbedtls_Wrapper.thy ===== *)
theory Mbedtls_Wrapper
  imports Tls_Transfer Random_Gen
begin

text \<open>
  What the program gives to mbedtls, \<^verbatim>\<open>network/mbedtls/wrapper\<close>: the sockets
  (\<^verbatim>\<open>net_sockets_alt.c\<close>), the delays (\<^verbatim>\<open>timing_alt.c\<close>) and the hardware random numbers
  (\<^verbatim>\<open>entropy_hardware_alt.c\<close>), on top of the socket layer, the clock and the random numbers of the program.
\<close>

section \<open>Blocking and non-blocking sockets\<close>

text \<open>The kernel keeps the status flags of every open descriptor.\<close>

definition O_NONBLOCK :: u32 where "O_NONBLOCK = 0x800"

definition fcntl_getfl :: "(int \<Rightarrow> u32 option) \<Rightarrow> int \<Rightarrow> u32" where
  "fcntl_getfl fl fd = (case fl fd of None \<Rightarrow> - 1 | Some v \<Rightarrow> v)"

definition fcntl_setfl :: "(int \<Rightarrow> u32 option) \<Rightarrow> int \<Rightarrow> u32 \<Rightarrow> int \<times> (int \<Rightarrow> u32 option)" where
  "fcntl_setfl fl fd v = (case fl fd of None \<Rightarrow> (-1, fl) | Some _ \<Rightarrow> (0, fl(fd \<mapsto> v)))"

definition platform_net_socket_set_block :: "(int \<Rightarrow> u32 option) \<Rightarrow> int \<Rightarrow> int \<times> (int \<Rightarrow> u32 option)" where
  "platform_net_socket_set_block fl fd = fcntl_setfl fl fd (fcntl_getfl fl fd AND NOT O_NONBLOCK)"

definition platform_net_socket_set_nonblock :: "(int \<Rightarrow> u32 option) \<Rightarrow> int \<Rightarrow> int \<times> (int \<Rightarrow> u32 option)" where
  "platform_net_socket_set_nonblock fl fd = fcntl_setfl fl fd (fcntl_getfl fl fd OR O_NONBLOCK)"

section \<open>Sockets\<close>

definition MBEDTLS_ERR_NET_INVALID_CONTEXT :: int where "MBEDTLS_ERR_NET_INVALID_CONTEXT = - 0x45"
definition MBEDTLS_ERR_NET_RECV_FAILED :: int where "MBEDTLS_ERR_NET_RECV_FAILED = - 0x4C"
definition MBEDTLS_ERR_NET_SEND_FAILED :: int where "MBEDTLS_ERR_NET_SEND_FAILED = - 0x4E"

lemmas mbedtls_errors = MBEDTLS_ERR_NET_INVALID_CONTEXT_def MBEDTLS_ERR_NET_RECV_FAILED_def
  MBEDTLS_ERR_NET_SEND_FAILED_def MBEDTLS_ERR_SSL_TIMEOUT_def MBEDTLS_ERR_SSL_WANT_READ_def
  MBEDTLS_ERR_SSL_WANT_WRITE_def

record net_context =
  ctx_fd :: int

definition mbedtls_net_init :: "net_context option \<Rightarrow> net_context option" where
  "mbedtls_net_init ctx = (case ctx of None \<Rightarrow> None | Some c \<Rightarrow> Some (c\<lparr>ctx_fd := -1\<rparr>))"

text \<open>The protocol is handed on to the name resolution, which is the script of the world.\<close>

definition mbedtls_net_connect :: "net_context \<Rightarrow> 'a world_scheme \<Rightarrow> int \<times> net_context \<times> 'a world_scheme" where
  "mbedtls_net_connect c w =
     (let (fd, w) = platform_net_socket_connect w; c = c\<lparr>ctx_fd := fd\<rparr> in
      if ctx_fd c < 0 then (ctx_fd c, c, w) else (0, c, w))"

definition mbedtls_net_set_block :: "(int \<Rightarrow> u32 option) \<Rightarrow> net_context \<Rightarrow> int \<times> (int \<Rightarrow> u32 option)" where
  "mbedtls_net_set_block fl c = platform_net_socket_set_block fl (ctx_fd c)"

definition mbedtls_net_set_nonblock :: "(int \<Rightarrow> u32 option) \<Rightarrow> net_context \<Rightarrow> int \<times> (int \<Rightarrow> u32 option)" where
  "mbedtls_net_set_nonblock fl c = platform_net_socket_set_nonblock fl (ctx_fd c)"

text \<open>The timeout of a plain \<open>recv\<close> or \<open>write\<close> is the one last set for the socket, \<open>tmo\<close>.\<close>

definition platform_net_socket_recv ::
  "nat \<Rightarrow> bytes \<Rightarrow> nat \<Rightarrow> nat \<Rightarrow> 'a world_scheme \<Rightarrow> (int \<times> bytes \<times> 'a world_scheme) option" where
  "platform_net_socket_recv tmo buf ptr len w =
     (let ((ret, bs), w) = recv len tmo w in do { (buf, _) \<leftarrow> write_bytes (buf, ptr) bs; Some (ret, buf, w) })"

definition platform_net_socket_write :: "nat \<Rightarrow> int \<Rightarrow> bytes \<Rightarrow> 'a world_scheme \<Rightarrow> int \<times> 'a world_scheme" where
  "platform_net_socket_write tmo fd bs w = send_some fd bs tmo w"

definition mbedtls_net_recv ::
  "nat \<Rightarrow> net_context \<Rightarrow> bytes \<Rightarrow> nat \<Rightarrow> nat \<Rightarrow> 'a world_scheme \<Rightarrow> (int \<times> bytes \<times> 'a world_scheme) option" where
  "mbedtls_net_recv tmo c buf ptr len w =
     (if ctx_fd c < 0 then Some (MBEDTLS_ERR_NET_INVALID_CONTEXT, buf, w)
      else do {
        (ret, buf, w) \<leftarrow> platform_net_socket_recv tmo buf ptr len w;
        if ret = 0 then Some (MBEDTLS_ERR_SSL_WANT_READ, buf, w)
        else if ret < 0 then Some (MBEDTLS_ERR_NET_RECV_FAILED, buf, w)
        else Some (ret, buf, w)
      })"

definition mbedtls_net_recv_timeout ::
  "net_context \<Rightarrow> bytes \<Rightarrow> nat \<Rightarrow> nat \<Rightarrow> u32 \<Rightarrow> 'a world_scheme \<Rightarrow> (int \<times> bytes \<times> 'a world_scheme) option" where
  "mbedtls_net_recv_timeout c buf ptr len timeout w =
     (if ctx_fd c < 0 then Some (MBEDTLS_ERR_NET_INVALID_CONTEXT, buf, w)
      else do {
        (ret, buf, w) \<leftarrow> platform_net_socket_recv_timeout buf ptr len (sint timeout) w;
        if ret = 0 then Some (MBEDTLS_ERR_SSL_TIMEOUT, buf, w)
        else if ret < 0 then Some (MBEDTLS_ERR_NET_RECV_FAILED, buf, w)
        else Some (ret, buf, w)
      })"

definition mbedtls_net_send :: "nat \<Rightarrow> net_context \<Rightarrow> bytes \<Rightarrow> 'a world_scheme \<Rightarrow> int \<times> 'a world_scheme" where
  "mbedtls_net_send tmo c bs w =
     (if ctx_fd c < 0 then (MBEDTLS_ERR_NET_INVALID_CONTEXT, w)
      else
        (let (ret, w) = platform_net_socket_write tmo (ctx_fd c) bs w in
         if ret = 0 then (MBEDTLS_ERR_SSL_WANT_WRITE, w)
         else if ret < 0 then (MBEDTLS_ERR_NET_SEND_FAILED, w)
         else (ret, w)))"

definition mbedtls_net_free :: "net_context \<Rightarrow> 'a world_scheme \<Rightarrow> net_context \<times> 'a world_scheme" where
  "mbedtls_net_free c w =
     (if ctx_fd c < 0 then (c, w)
      else (let w = platform_net_socket_close (ctx_fd c) w in (c\<lparr>ctx_fd := -1\<rparr>, w)))"

definition mbedtls_net_usleep :: "nat \<Rightarrow> 'a world_scheme \<Rightarrow> 'a world_scheme" where
  "mbedtls_net_usleep usec w = usleep_us usec w"

section \<open>Delays\<close>

text \<open>\<open>unsigned long\<close> is as wide as the platform has it; the result of \<open>platform_timer_now\<close> is one.\<close>

type_synonym u64 = "64 word"

record timing_delay =
  timer_ms :: u64
  int_ms :: u32
  fin_ms :: u32

definition mbedtls_timing_get_timer :: "'l::len word \<Rightarrow> u64 \<Rightarrow> bool \<Rightarrow> 'l word \<times> u64" where
  "mbedtls_timing_get_timer now val reset =
     (let now = ucast now; val = (if reset then now else val) in (ucast (now - val), val))"

definition mbedtls_timing_set_delay :: "'l::len word \<Rightarrow> timing_delay option \<Rightarrow> u32 \<Rightarrow> u32 \<Rightarrow> timing_delay option" where
  "mbedtls_timing_set_delay now data i f =
     (case data of
        None \<Rightarrow> None
      | Some ctx \<Rightarrow>
          (let ctx = ctx\<lparr>int_ms := i, fin_ms := f\<rparr> in
           Some (if f \<noteq> 0 then ctx\<lparr>timer_ms := snd (mbedtls_timing_get_timer now (timer_ms ctx) True)\<rparr> else ctx)))"

definition mbedtls_timing_get_delay :: "'l::len word \<Rightarrow> timing_delay option \<Rightarrow> int" where
  "mbedtls_timing_get_delay now data =
     (case data of
        None \<Rightarrow> -1
      | Some ctx \<Rightarrow>
          if fin_ms ctx = 0 then -1
          else
            (let elapsed_ms = fst (mbedtls_timing_get_timer now (timer_ms ctx) False) in
             if elapsed_ms \<ge> ucast (fin_ms ctx) then 2
             else if elapsed_ms \<ge> ucast (int_ms ctx) then 1
             else 0))"

section \<open>Random numbers from the hardware\<close>

text \<open>The four bytes of one number, and the numbers; \<open>clock i\<close> is the time of number \<open>i\<close>.\<close>

fun hw_bytes :: "u64 \<Rightarrow> nat \<Rightarrow> nat \<Rightarrow> nat \<Rightarrow> nat \<Rightarrow> bytes \<Rightarrow> bytes option" where
  "hw_bytes tmp i len 0 j buf = Some buf"
| "hw_bytes tmp i len (Suc n) j buf =
     (if i * 4 + j < len
      then do { buf \<leftarrow> arr_set buf (i * 4 + j) (ucast (drop_bit (j * 8) tmp)); hw_bytes tmp i len n (j + 1) buf }
      else Some buf)"

fun hw_words :: "(u32 \<Rightarrow> int) \<Rightarrow> (nat \<Rightarrow> u32) \<Rightarrow> nat \<Rightarrow> nat \<Rightarrow> nat \<Rightarrow> u32 \<Rightarrow> bytes \<Rightarrow> (bytes \<times> u32) option" where
  "hw_words rnd clock len 0 i last_seed buf = Some (buf, last_seed)"
| "hw_words rnd clock len (Suc n) i last_seed buf =
     (let (r, last_seed) = random_number rnd (clock i) last_seed in
      do { buf \<leftarrow> hw_bytes (word_of_int r) i len 4 0 buf; hw_words rnd clock len n (i + 1) last_seed buf })"

definition mbedtls_get_random ::
  "(u32 \<Rightarrow> int) \<Rightarrow> (nat \<Rightarrow> u32) \<Rightarrow> u32 \<Rightarrow> bytes \<Rightarrow> nat \<Rightarrow> (bytes \<times> u32) option" where
  "mbedtls_get_random rnd clock last_seed buf len =
     hw_words rnd clock len ((len + 3) div 4 * 4 div 4) 0 last_seed buf"

definition mbedtls_hardware_poll ::
  "(u32 \<Rightarrow> int) \<Rightarrow> (nat \<Rightarrow> u32) \<Rightarrow> u32 \<Rightarrow> bytes \<Rightarrow> nat \<Rightarrow> (int \<times> nat \<times> bytes \<times> u32) option" where
  "mbedtls_hardware_poll rnd clock last_seed out len =
     do { (out, last_seed) \<leftarrow> mbedtls_get_random rnd clock last_seed out len; Some (0, len, out, last_seed) }"

section \<open>Properties\<close>

text \<open>Making a socket non-blocking and blocking again changes the one flag, and only of this socket.\<close>

lemma set_block_flag:
  assumes "fl fd = Some v"
  shows "fst (mbedtls_net_set_nonblock fl \<lparr>ctx_fd = fd\<rparr>) = 0"
    "snd (mbedtls_net_set_nonblock fl \<lparr>ctx_fd = fd\<rparr>) = fl(fd \<mapsto> v OR O_NONBLOCK)"
    "snd (mbedtls_net_set_block (fl(fd \<mapsto> v OR O_NONBLOCK)) \<lparr>ctx_fd = fd\<rparr>) = fl(fd \<mapsto> v AND NOT O_NONBLOCK)"
proof -
  have "(v OR O_NONBLOCK) AND NOT O_NONBLOCK = v AND NOT O_NONBLOCK"
    by (rule bit_eqI) (auto simp: bit_simps)
  then show "snd (mbedtls_net_set_block (fl(fd \<mapsto> v OR O_NONBLOCK)) \<lparr>ctx_fd = fd\<rparr>) = fl(fd \<mapsto> v AND NOT O_NONBLOCK)"
    by (simp add: mbedtls_net_set_block_def platform_net_socket_set_block_def fcntl_setfl_def fcntl_getfl_def)
qed (use assms in \<open>simp_all add: mbedtls_net_set_nonblock_def platform_net_socket_set_nonblock_def
       fcntl_setfl_def fcntl_getfl_def\<close>)

text \<open>A context that was closed refuses every transfer, and closing it again does nothing.\<close>

lemma net_free_closes:
  assumes "mbedtls_net_free c w = (c', w')" "0 \<le> ctx_fd c"
  shows "closed w' = closed w @ [ctx_fd c]"
    "mbedtls_net_recv_timeout c' buf ptr len t v = Some (MBEDTLS_ERR_NET_INVALID_CONTEXT, buf, v)"
    "mbedtls_net_send tmo c' bs v = (MBEDTLS_ERR_NET_INVALID_CONTEXT, v)"
    "mbedtls_net_free c' v = (c', v)"
  using assms
  by (auto simp: mbedtls_net_free_def mbedtls_net_recv_timeout_def mbedtls_net_send_def platform_net_socket_close_def
      close_fd_def)

text \<open>A read for mbedtls on an open socket writes only the window, and there exactly the bytes it takes from the
  stream. A positive result is their number; the result for a timeout comes only with no byte taken; the result
  for a failed read may come with bytes that are lost. A peer that stays silent is reported as a failure,
  while the end of the stream is what is reported as a timeout.\<close>

theorem net_recv_timeout_outcomes:
  assumes "0 \<le> ctx_fd c" "ptr + len \<le> length buf" "0 < len"
  shows "(\<exists>rc bs w'. mbedtls_net_recv_timeout c buf ptr len timeout w =
        Some (rc, take ptr buf @ bs @ drop (ptr + length bs) buf, w') \<and> stream (rx w) = bs @ stream (rx w') \<and>
      (0 < rc \<and> rc = int (length bs) \<and> length bs \<le> len \<or> rc = MBEDTLS_ERR_SSL_TIMEOUT \<and> bs = [] \<or>
       rc = MBEDTLS_ERR_NET_RECV_FAILED \<and> length bs < len))
    \<and> (rx w = [] \<longrightarrow> map_option fst (mbedtls_net_recv_timeout c buf ptr len timeout w) = Some MBEDTLS_ERR_NET_RECV_FAILED)
    \<and> (rx w = [Rx 0 []] \<longrightarrow> map_option fst (mbedtls_net_recv_timeout c buf ptr len timeout w) = Some MBEDTLS_ERR_SSL_TIMEOUT)"
proof (intro conjI impI)
  obtain failed left bs w' where r: "recv_loop (sock_timeout_us (sint timeout)) buf ptr len w =
      Some (failed, left, take ptr buf @ bs @ drop (ptr + length bs) buf, w')"
    "left + length bs = len" "stream (rx w) = bs @ stream (rx w')" "failed \<longrightarrow> 0 < left"
    using recv_loop_stream [OF assms(2)] by blast
  have "\<not> ctx_fd c < 0" using assms(1) by simp
  with r show "\<exists>rc bs w'. mbedtls_net_recv_timeout c buf ptr len timeout w =
        Some (rc, take ptr buf @ bs @ drop (ptr + length bs) buf, w') \<and> stream (rx w) = bs @ stream (rx w') \<and>
      (0 < rc \<and> rc = int (length bs) \<and> length bs \<le> len \<or> rc = MBEDTLS_ERR_SSL_TIMEOUT \<and> bs = [] \<or>
       rc = MBEDTLS_ERR_NET_RECV_FAILED \<and> length bs < len)"
    by (cases failed; cases "bs = []")
      (auto simp: mbedtls_net_recv_timeout_def platform_net_socket_recv_timeout_def intro!: exI [of _ bs] exI [of _ w'])
qed (use assms in \<open>simp_all add: mbedtls_net_recv_timeout_def platform_net_socket_recv_timeout_def recv_loop.simps recv_def\<close>)

theorem net_recv_timeout_outcomes_witness:
  "(\<exists>rc bs w'. mbedtls_net_recv_timeout \<lparr>ctx_fd = 4\<rparr> [0, 0, 0, 0] 1 2 1000 sample_world =
      Some (rc, take 1 [0, 0, 0, 0] @ bs @ drop (1 + length bs) [0, 0, 0, 0], w') \<and>
    stream (rx sample_world) = bs @ stream (rx w')) \<and>
   map_option (\<lambda>(rc, buf, w). (rc, buf)) (mbedtls_net_recv_timeout \<lparr>ctx_fd = 4\<rparr> [0, 0, 0, 0] 1 2 1000 sample_world) =
     Some (2, [0, 1, 2, 0])"
proof (rule conjI)
  show "\<exists>rc bs w'. mbedtls_net_recv_timeout \<lparr>ctx_fd = 4\<rparr> [0, 0, 0, 0] 1 2 1000 sample_world =
      Some (rc, take 1 [0, 0, 0, 0] @ bs @ drop (1 + length bs) [0, 0, 0, 0], w') \<and>
    stream (rx sample_world) = bs @ stream (rx w')"
    using net_recv_timeout_outcomes [of "\<lparr>ctx_fd = 4\<rparr>" 1 2 "[0, 0, 0, 0]" 1000 sample_world] by auto
qed code_simp

text \<open>The time since the timer was set survives the wrap of the clock.\<close>

lemma elapsed_since:
  assumes "LENGTH('l::len) \<le> 64"
  shows "fst (mbedtls_timing_get_timer (t + d :: 'l word) (snd (mbedtls_timing_get_timer t v True)) False) = d"
proof -
  have "ucast (t + d) - (ucast t :: u64) = word_of_int (uint (t + d) - uint t)" by simp
  then have "ucast (ucast (t + d) - (ucast t :: u64)) = (word_of_int (uint (t + d) - uint t) :: 'l word)"
    using assms by (simp only:) (rule ucast_down_wi, simp add: is_down)
  then show ?thesis using assms by (simp add: mbedtls_timing_get_timer_def)
qed

text \<open>The delays are reported as their documentation has it, as long as the time since they were set fits the clock.\<close>

text \<open>After delays were set, the report some time later is minus one for a final delay of zero, two from the final
  delay on, one from the intermediate delay on, and zero before, in units of the clock. The clock may wrap in
  between: only the time between the two calls has to fit its width, which is at least 32 and at most 64 bits.\<close>

theorem delays_reported:
  fixes t :: "'l::len word"
  assumes "32 \<le> LENGTH('l)" "LENGTH('l) \<le> 64" "e < 2 ^ LENGTH('l)"
  shows "mbedtls_timing_get_delay (t + of_nat e) (mbedtls_timing_set_delay t (Some ctx) i f) =
    (if f = 0 then -1 else if unat f \<le> e then 2 else if unat i \<le> e then 1 else 0)"
proof -
  have u: "unat (ucast x :: 'l word) = unat x" for x :: u32
  proof -
    have "unat x < 2 ^ 32" using unsigned_less [of x, where ?'a = nat] by simp
    also have "\<dots> \<le> 2 ^ LENGTH('l)" using assms(1) by (rule power_increasing) simp
    finally show ?thesis by (simp add: unsigned_ucast_eq take_bit_nat_eq_self)
  qed
  have e: "unat (of_nat e :: 'l word) = e" using assms(3) by (simp add: unat_of_nat)
  have "fst (mbedtls_timing_get_timer (t + of_nat e) (snd (mbedtls_timing_get_timer t v True)) False) = of_nat e" for v
    by (rule elapsed_since [OF assms(2)])
  then show ?thesis
    by (simp add: mbedtls_timing_get_delay_def mbedtls_timing_set_delay_def Let_def word_le_nat_alt u e)
qed

theorem delays_reported_witness:
  "mbedtls_timing_get_delay ((0xFFFFFF00 :: u32) + of_nat 700) (mbedtls_timing_set_delay (0xFFFFFF00 :: u32)
      (Some \<lparr>timer_ms = 0, int_ms = 0, fin_ms = 0\<rparr>) 500 1000) = 1"
  by (subst delays_reported) (simp_all del: of_nat_numeral)

text \<open>On Linux the clock of the program counts seconds, so delays in milliseconds come a thousand times too late.\<close>

lemma linux_delay_late:
  "mbedtls_timing_get_delay (of_nat (platform_timer_now (t0 + 5000000)) :: u64)
     (mbedtls_timing_set_delay (of_nat (platform_timer_now t0) :: u64) (Some ctx) 1000 4000) = 0"
proof -
  have "platform_timer_now (t0 + 5000000) = platform_timer_now t0 + 5" by (simp add: platform_timer_now_def)
  then show ?thesis
    using elapsed_since [of "of_nat (platform_timer_now t0) :: u64" 5]
    by (simp add: mbedtls_timing_get_delay_def mbedtls_timing_set_delay_def Let_def)
qed

text \<open>The numbers the generator gives one after the other, and the bytes of a number.\<close>

fun numbers :: "(u32 \<Rightarrow> int) \<Rightarrow> (nat \<Rightarrow> u32) \<Rightarrow> u32 \<Rightarrow> nat \<Rightarrow> nat \<Rightarrow> int list" where
  "numbers rnd clock last_seed i 0 = []"
| "numbers rnd clock last_seed i (Suc n) =
     (let (r, last_seed) = random_number rnd (clock i) last_seed in r # numbers rnd clock last_seed (i + 1) n)"

definition le_bytes :: "u64 \<Rightarrow> bytes" where
  "le_bytes r = map (\<lambda>k. ucast (drop_bit (k * 8) r)) [0..<4]"

lemma length_le_bytes [simp]: "length (le_bytes r) = 4"
  by (simp add: le_bytes_def)

lemma hw_bytes_eq:
  assumes "i * 4 + min (j + n) (len - i * 4) \<le> length buf" "j \<le> len - i * 4" "i * 4 \<le> len"
  shows "hw_bytes tmp i len n j buf = Some (take (i * 4 + j) buf @
    map (\<lambda>k. ucast (drop_bit (k * 8) tmp)) [j..<min (j + n) (len - i * 4)] @ drop (i * 4 + min (j + n) (len - i * 4)) buf)"
  using assms(1,2)
proof (induction n arbitrary: j buf)
  case 0
  then have "min (j + 0) (len - i * 4) = j" by simp
  then show ?case by simp
next
  case (Suc n)
  define m where "m = min (j + Suc n) (len - i * 4)"
  have m: "min (j + 1 + n) (len - i * 4) = m" "i * 4 + m \<le> length buf" using Suc.prems by (auto simp: m_def)
  show ?case
  proof (cases "i * 4 + j < len")
    case True
    then have j: "j < m" "j + 1 \<le> len - i * 4" by (auto simp: m_def)
    let ?b = "buf[i * 4 + j := ucast (drop_bit (j * 8) tmp)]"
    have lt: "i * 4 + j < length buf" using m(2) j(1) by simp
    have "hw_bytes tmp i len n (j + 1) ?b = Some (take (i * 4 + (j + 1)) ?b @
        map (\<lambda>k. ucast (drop_bit (k * 8) tmp)) [j + 1..<m] @ drop (i * 4 + m) ?b)"
      using Suc.IH [of "j + 1" ?b, unfolded m(1)] j(2) m(2) by simp
    moreover have "take (i * 4 + (j + 1)) ?b = take (i * 4 + j) buf @ [ucast (drop_bit (j * 8) tmp)]"
      using lt take_Suc_conv_app_nth [of "i * 4 + j" ?b] by simp
    moreover have "[j..<m] = j # [j + 1..<m]" using j(1) by (simp add: upt_conv_Cons)
    ultimately show ?thesis unfolding m_def [symmetric] using True lt j(1) by simp
  next
    case False
    then have "m = j" using Suc.prems(2) by (simp add: m_def)
    then show ?thesis unfolding m_def [symmetric] using False by simp
  qed
qed

lemma hw_word_eq:
  assumes "len \<le> length buf" "i * 4 \<le> len"
  shows "hw_bytes tmp i len 4 0 buf =
    Some (take (i * 4) buf @ take (len - i * 4) (le_bytes tmp) @ drop (i * 4 + min 4 (len - i * 4)) buf)"
proof -
  have "take (len - i * 4) (le_bytes tmp) = map (\<lambda>k. ucast (drop_bit (k * 8) tmp)) [0..<min 4 (len - i * 4)]"
  proof (cases "len - i * 4 \<le> 4")
    case True
    then show ?thesis using take_upt [of 0 "len - i * 4" 4] by (simp add: le_bytes_def take_map del: upt_Suc)
  qed (simp add: le_bytes_def)
  then show ?thesis using hw_bytes_eq [of i 0 4 len buf tmp] assms by simp
qed

lemma hw_words_eq:
  assumes "len \<le> length buf" "i * 4 \<le> len" "n = (len + 3) div 4 - i"
  shows "\<exists>last'. hw_words rnd clock len n i last_seed buf = Some (take (i * 4) buf @
    take (len - i * 4) (concat (map (\<lambda>r. le_bytes (word_of_int r)) (numbers rnd clock last_seed i n))) @ drop len buf, last')"
  using assms
proof (induction n arbitrary: i buf last_seed)
  case 0
  then have "len = i * 4" by linarith
  then show ?case by simp
next
  case (Suc n)
  obtain r l where rn: "random_number rnd (clock i) last_seed = (r, l)" by (cases "random_number rnd (clock i) last_seed")
  let ?w = "le_bytes (word_of_int r)"
  define b where "b = take (i * 4) buf @ take (len - i * 4) ?w @ drop (i * 4 + min 4 (len - i * 4)) buf"
  have word: "hw_bytes (word_of_int r) i len 4 0 buf = Some b"
    using hw_word_eq [OF Suc.prems(1,2)] by (simp add: b_def)
  have lb: "length b = length buf" using Suc.prems(1,2) by (simp add: b_def)
  show ?case
  proof (cases "(i + 1) * 4 \<le> len")
    case True
    have n: "n = (len + 3) div 4 - (i + 1)" using Suc.prems(3) by simp
    have whole: "take (len - i * 4) ?w = ?w" "min 4 (len - i * 4) = 4" using True by simp_all
    obtain l' where "hw_words rnd clock len n (i + 1) l b = Some (take ((i + 1) * 4) b @
      take (len - (i + 1) * 4) (concat (map (\<lambda>r. le_bytes (word_of_int r)) (numbers rnd clock l (i + 1) n))) @ drop len b, l')"
      using Suc.IH [OF _ True n, of b l] lb Suc.prems(1) by auto
    moreover have "take ((i + 1) * 4) b = take (i * 4) buf @ ?w" "drop len b = drop len buf"
      using True Suc.prems(1) unfolding b_def whole by (simp_all add: algebra_simps)
    ultimately show ?thesis using True by (simp add: rn word add.commute)
  next
    case False
    then have "n = 0" using Suc.prems(2,3) by presburger
    moreover have "b = take (i * 4) buf @ take (len - i * 4) ?w @ drop len buf"
      using False Suc.prems(2) by (simp add: b_def)
    ultimately show ?thesis using False by (simp add: rn word)
  qed
qed

text \<open>
  A request for random bytes is filled with exactly that many bytes of the numbers the generator gives,
  lowest byte first, and nothing behind them is written. The numbers, and so what mbedtls takes for entropy, are
  a function of the clock and of how often the generator was asked.\<close>

theorem hardware_poll_fills:
  assumes "len \<le> length buf"
  shows "\<exists>last'. mbedtls_hardware_poll rnd clock last_seed buf len = Some (0, len,
    take len (concat (map (\<lambda>r. le_bytes (word_of_int r)) (numbers rnd clock last_seed 0 ((len + 3) div 4)))) @
      drop len buf, last')"
  using hw_words_eq [of len buf 0 "(len + 3) div 4" rnd clock last_seed] assms
  by (auto simp: mbedtls_hardware_poll_def mbedtls_get_random_def)

theorem hardware_poll_fills_witness:
  "(\<exists>last'. mbedtls_hardware_poll (\<lambda>s. int (unat s)) (\<lambda>i. 5) 1 [9, 9, 9, 9, 9, 9] 5 = Some (0, 5,
    take 5 (concat (map (\<lambda>r. le_bytes (word_of_int r)) (numbers (\<lambda>s. int (unat s)) (\<lambda>i. 5) 1 0 ((5 + 3) div 4)))) @
      drop 5 [9, 9, 9, 9, 9, 9], last'))"
  by (rule hardware_poll_fills) simp

end
