(* ===== verification/Platform_Sockets.thy ===== *)
theory Platform_Sockets
  imports Mbedtls_Wrapper Platform_Rtos
begin

text \<open>
  \<^verbatim>\<open>platform_net_socket.c\<close> of the real-time systems. FreeRTOS and RT-Thread have a socket library; TencentOS is
  built on one or, with \<^verbatim>\<open>MQTT_NETSOCKET_USING_AT\<close>, on a modem whose calls are the parameter. The system calls are
  those of the Linux sockets (\<^verbatim>\<open>Platform_Net\<close>), under other names: a close is logged, \<^verbatim>\<open>send\<close> is \<^verbatim>\<open>write\<close>, and
  \<^verbatim>\<open>ioctlsocket\<close> with \<^verbatim>\<open>FIONBIO\<close> sets or clears one flag. With a socket library the three do what the Linux functions do, which is
  what lets the client's theorems speak of all four systems.
\<close>

section \<open>RT-Thread\<close>

definition rtt_net_socket_close :: "int \<Rightarrow> 'a world_scheme \<Rightarrow> 'a world_scheme" where
  "rtt_net_socket_close fd w = close_fd fd w"

fun rtos_connect_addrs :: "addr_try list \<Rightarrow> int \<Rightarrow> 'a world_scheme \<Rightarrow> int \<times> 'a world_scheme" where
  "rtos_connect_addrs [] ret w = (ret, w)"
| "rtos_connect_addrs (cur # rest) ret w =
     (case cur of
        SocketFails \<Rightarrow> rtos_connect_addrs rest MQTT_SOCKET_FAILED_ERROR w
      | Connects fd \<Rightarrow> (fd, w)
      | ConnectFails fd \<Rightarrow> rtos_connect_addrs rest MQTT_CONNECT_FAILED_ERROR (rtt_net_socket_close fd w))"

definition rtt_net_socket_connect :: "'a world_scheme \<Rightarrow> int \<times> 'a world_scheme" where
  "rtt_net_socket_connect w =
     (let ret = MQTT_SOCKET_UNKNOWN_HOST_ERROR in
      case dns w of
        [] \<Rightarrow> (ret, w)
      | None # ds \<Rightarrow> (ret, w\<lparr>dns := ds\<rparr>)
      | Some addr_list # ds \<Rightarrow> rtos_connect_addrs addr_list ret (w\<lparr>dns := ds\<rparr>))"

text \<open>The timeout of a plain call is the one last set for the socket, \<open>tmo\<close>.\<close>

definition rtt_net_socket_recv ::
  "nat \<Rightarrow> bytes \<Rightarrow> nat \<Rightarrow> nat \<Rightarrow> 'a world_scheme \<Rightarrow> (int \<times> bytes \<times> 'a world_scheme) option" where
  "rtt_net_socket_recv tmo buf ptr len w =
     (let ((ret, bs), w) = recv len tmo w in do { (buf, _) \<leftarrow> write_bytes (buf, ptr) bs; Some (ret, buf, w) })"

text \<open>What is left to read bounds the rounds of the loop.\<close>

function rtos_recv_loop :: "nat \<Rightarrow> nat \<Rightarrow> bytes \<Rightarrow> nat \<Rightarrow> nat \<Rightarrow> 'a world_scheme \<Rightarrow> (int \<times> bytes \<times> 'a world_scheme) option" where
  "rtos_recv_loop tmo len buf ptr nleft w =
     (if nleft > 0
      then do {
        (nread, buf, w) \<leftarrow> rtt_net_socket_recv tmo buf ptr nleft w;
        if nread < 0 then Some (-1, buf, w)
        else if nread = 0 then Some (int len - int nleft, buf, w)
        else rtos_recv_loop tmo len buf (ptr + nat nread) (nleft - nat nread) w
      }
      else Some (int len - int nleft, buf, w))"
  by pat_completeness auto
termination
  by (relation "measure (\<lambda>(_, _, _, _, nleft, _). nleft)") auto

declare rtos_recv_loop.simps [simp del]

definition rtt_net_socket_recv_timeout ::
  "bytes \<Rightarrow> nat \<Rightarrow> nat \<Rightarrow> int \<Rightarrow> 'a world_scheme \<Rightarrow> (int \<times> bytes \<times> 'a world_scheme) option" where
  "rtt_net_socket_recv_timeout buf ptr len timeout w = rtos_recv_loop (sock_timeout_us timeout) len buf ptr len w"

definition rtt_net_socket_write :: "nat \<Rightarrow> int \<Rightarrow> bytes \<Rightarrow> 'a world_scheme \<Rightarrow> int \<times> 'a world_scheme" where
  "rtt_net_socket_write tmo fd bs w = send_some fd bs tmo w"

definition rtt_net_socket_write_timeout :: "int \<Rightarrow> bytes \<Rightarrow> int \<Rightarrow> 'a world_scheme \<Rightarrow> int \<times> 'a world_scheme" where
  "rtt_net_socket_write_timeout fd bs timeout w = send_some fd bs (sock_timeout_us timeout) w"

text \<open>The mode of a descriptor; setting it on one that is not open fails.\<close>

definition ioctl_fionbio :: "(int \<Rightarrow> u32 option) \<Rightarrow> int \<Rightarrow> u32 \<Rightarrow> int \<times> (int \<Rightarrow> u32 option)" where
  "ioctl_fionbio fl fd mode =
     (case fl fd of
        None \<Rightarrow> (-1, fl)
      | Some f \<Rightarrow> (0, fl(fd \<mapsto> if mode = 0 then f AND NOT O_NONBLOCK else f OR O_NONBLOCK)))"

definition rtt_net_socket_set_block :: "(int \<Rightarrow> u32 option) \<Rightarrow> int \<Rightarrow> int \<times> (int \<Rightarrow> u32 option)" where
  "rtt_net_socket_set_block fl fd = ioctl_fionbio fl fd 0"

definition rtt_net_socket_set_nonblock :: "(int \<Rightarrow> u32 option) \<Rightarrow> int \<Rightarrow> int \<times> (int \<Rightarrow> u32 option)" where
  "rtt_net_socket_set_nonblock fl fd = ioctl_fionbio fl fd 1"

section \<open>FreeRTOS\<close>

text \<open>The file has the loops of RT-Thread word for word.\<close>

definition freertos_net_socket_connect :: "'a world_scheme \<Rightarrow> int \<times> 'a world_scheme" where
  "freertos_net_socket_connect w =
     (let ret = MQTT_SOCKET_UNKNOWN_HOST_ERROR in
      case dns w of
        [] \<Rightarrow> (ret, w)
      | None # ds \<Rightarrow> (ret, w\<lparr>dns := ds\<rparr>)
      | Some addr_list # ds \<Rightarrow> rtos_connect_addrs addr_list ret (w\<lparr>dns := ds\<rparr>))"

definition freertos_net_socket_recv_timeout ::
  "bytes \<Rightarrow> nat \<Rightarrow> nat \<Rightarrow> int \<Rightarrow> 'a world_scheme \<Rightarrow> (int \<times> bytes \<times> 'a world_scheme) option" where
  "freertos_net_socket_recv_timeout buf ptr len timeout w = rtos_recv_loop (sock_timeout_us timeout) len buf ptr len w"

definition freertos_net_socket_write_timeout :: "int \<Rightarrow> bytes \<Rightarrow> int \<Rightarrow> 'a world_scheme \<Rightarrow> int \<times> 'a world_scheme" where
  "freertos_net_socket_write_timeout fd bs timeout w = send_some fd bs (sock_timeout_us timeout) w"

definition freertos_net_socket_close :: "int \<Rightarrow> 'a world_scheme \<Rightarrow> 'a world_scheme" where
  "freertos_net_socket_close fd w = close_fd fd w"

section \<open>TencentOS\<close>

text \<open>The calls of the modem layer: connecting and sending give their result, receiving the bytes too.\<close>

record 'a sal =
  sal_connect :: "'a world_scheme \<Rightarrow> int \<times> 'a world_scheme"
  sal_recv :: "int \<Rightarrow> nat \<Rightarrow> 'a world_scheme \<Rightarrow> (int \<times> bytes) \<times> 'a world_scheme"
  sal_recv_timeout :: "int \<Rightarrow> nat \<Rightarrow> int \<Rightarrow> 'a world_scheme \<Rightarrow> (int \<times> bytes) \<times> 'a world_scheme"
  sal_send :: "int \<Rightarrow> bytes \<Rightarrow> 'a world_scheme \<Rightarrow> int \<times> 'a world_scheme"
  sal_close :: "int \<Rightarrow> 'a world_scheme \<Rightarrow> 'a world_scheme"

definition store_received ::
  "bytes \<Rightarrow> nat \<Rightarrow> (int \<times> bytes) \<times> 'a world_scheme \<Rightarrow> (int \<times> bytes \<times> 'a world_scheme) option" where
  "store_received buf ptr res =
     (case res of ((ret, bs), w) \<Rightarrow> do { (buf, _) \<leftarrow> write_bytes (buf, ptr) bs; Some (ret, buf, w) })"

definition tencent_net_socket_connect :: "'a sal option \<Rightarrow> 'a world_scheme \<Rightarrow> int \<times> 'a world_scheme" where
  "tencent_net_socket_connect sal w =
     (let ret = MQTT_SOCKET_UNKNOWN_HOST_ERROR in
      case sal of
        Some s \<Rightarrow> (let (fd, w) = sal_connect s w in if fd < 0 then (MQTT_CONNECT_FAILED_ERROR, w) else (fd, w))
      | None \<Rightarrow>
          (case dns w of
             [] \<Rightarrow> (ret, w)
           | None # ds \<Rightarrow> (ret, w\<lparr>dns := ds\<rparr>)
           | Some addr_list # ds \<Rightarrow> rtos_connect_addrs addr_list ret (w\<lparr>dns := ds\<rparr>)))"

definition tencent_net_socket_recv ::
  "'a sal option \<Rightarrow> nat \<Rightarrow> int \<Rightarrow> bytes \<Rightarrow> nat \<Rightarrow> nat \<Rightarrow> 'a world_scheme \<Rightarrow> (int \<times> bytes \<times> 'a world_scheme) option" where
  "tencent_net_socket_recv sal tmo fd buf ptr len w =
     (case sal of
        Some s \<Rightarrow> store_received buf ptr (sal_recv s fd len w)
      | None \<Rightarrow> store_received buf ptr (recv len tmo w))"

definition tencent_net_socket_recv_timeout ::
  "'a sal option \<Rightarrow> int \<Rightarrow> bytes \<Rightarrow> nat \<Rightarrow> nat \<Rightarrow> int \<Rightarrow> 'a world_scheme \<Rightarrow> (int \<times> bytes \<times> 'a world_scheme) option" where
  "tencent_net_socket_recv_timeout sal fd buf ptr len timeout w =
     (case sal of
        Some s \<Rightarrow> store_received buf ptr (sal_recv_timeout s fd len timeout w)
      | None \<Rightarrow> rtos_recv_loop (sock_timeout_us timeout) len buf ptr len w)"

definition tencent_net_socket_write :: "'a sal option \<Rightarrow> nat \<Rightarrow> int \<Rightarrow> bytes \<Rightarrow> 'a world_scheme \<Rightarrow> int \<times> 'a world_scheme" where
  "tencent_net_socket_write sal tmo fd bs w =
     (case sal of Some s \<Rightarrow> sal_send s fd bs w | None \<Rightarrow> send_some fd bs tmo w)"

definition tencent_net_socket_write_timeout ::
  "'a sal option \<Rightarrow> int \<Rightarrow> bytes \<Rightarrow> int \<Rightarrow> 'a world_scheme \<Rightarrow> int \<times> 'a world_scheme" where
  "tencent_net_socket_write_timeout sal fd bs timeout w =
     (case sal of Some s \<Rightarrow> sal_send s fd bs w | None \<Rightarrow> send_some fd bs (sock_timeout_us timeout) w)"

definition tencent_net_socket_close :: "'a sal option \<Rightarrow> int \<Rightarrow> 'a world_scheme \<Rightarrow> 'a world_scheme" where
  "tencent_net_socket_close sal fd w = (case sal of Some s \<Rightarrow> sal_close s fd w | None \<Rightarrow> close_fd fd w)"

text \<open>\<^verbatim>\<open>TencentOS-tiny/sal\<close> is the modem layer alone. The timeout of a write is not passed on.\<close>

definition sal_net_socket_connect :: "'a sal \<Rightarrow> 'a world_scheme \<Rightarrow> int \<times> 'a world_scheme" where
  "sal_net_socket_connect s w =
     (let (fd, w) = sal_connect s w in if fd < 0 then (MQTT_CONNECT_FAILED_ERROR, w) else (fd, w))"

definition sal_net_socket_recv ::
  "'a sal \<Rightarrow> int \<Rightarrow> bytes \<Rightarrow> nat \<Rightarrow> nat \<Rightarrow> 'a world_scheme \<Rightarrow> (int \<times> bytes \<times> 'a world_scheme) option" where
  "sal_net_socket_recv s fd buf ptr len w = store_received buf ptr (sal_recv s fd len w)"

definition sal_net_socket_recv_timeout ::
  "'a sal \<Rightarrow> int \<Rightarrow> bytes \<Rightarrow> nat \<Rightarrow> nat \<Rightarrow> int \<Rightarrow> 'a world_scheme \<Rightarrow> (int \<times> bytes \<times> 'a world_scheme) option" where
  "sal_net_socket_recv_timeout s fd buf ptr len timeout w = store_received buf ptr (sal_recv_timeout s fd len timeout w)"

definition sal_net_socket_write :: "'a sal \<Rightarrow> int \<Rightarrow> bytes \<Rightarrow> 'a world_scheme \<Rightarrow> int \<times> 'a world_scheme" where
  "sal_net_socket_write s fd bs w = sal_send s fd bs w"

definition sal_net_socket_write_timeout :: "'a sal \<Rightarrow> int \<Rightarrow> bytes \<Rightarrow> int \<Rightarrow> 'a world_scheme \<Rightarrow> int \<times> 'a world_scheme" where
  "sal_net_socket_write_timeout s fd bs timeout w = sal_send s fd bs w"

definition sal_net_socket_close :: "'a sal \<Rightarrow> int \<Rightarrow> 'a world_scheme \<Rightarrow> 'a world_scheme" where
  "sal_net_socket_close s fd w = sal_close s fd w"

section \<open>The systems agree\<close>

lemma connect_addrs_agree: "rtos_connect_addrs as ret w = connect_addrs as ret w"
  by (induction as ret w rule: rtos_connect_addrs.induct) (auto simp: rtt_net_socket_close_def split: addr_try.split)

lemma recv_loop_agree:
  "ptr + nleft \<le> length buf \<Longrightarrow> rtos_recv_loop tmo len buf ptr nleft w =
    map_option (\<lambda>(failed, nleft, buf, w). (if failed then -1 else int len - int nleft, buf, w)) (recv_loop tmo buf ptr nleft w)"
proof (induction nleft arbitrary: buf ptr w rule: less_induct)
  case (less nleft)
  show ?case
  proof (cases "nleft = 0")
    case True
    then show ?thesis by (subst rtos_recv_loop.simps, subst recv_loop.simps) simp
  next
    case False
    obtain nread bs w1 where r: "recv nleft tmo w = ((nread, bs), w1)" by (metis surj_pair)
    from recv_cases [OF r] have c: "nread < 0 \<and> bs = [] \<or> nread = int (length bs) \<and> length bs \<le> nleft" by auto
    have "length bs \<le> nleft" using c by auto
    then obtain b where b: "write_bytes (buf, ptr) bs = Some (b, ptr + length bs)" "length b = length buf"
      using less.prems by (auto simp: write_bytes_def)
    have "rtos_recv_loop tmo len b (ptr + length bs) (nleft - length bs) w1 =
        map_option (\<lambda>(failed, nleft, buf, w). (if failed then -1 else int len - int nleft, buf, w))
          (recv_loop tmo b (ptr + length bs) (nleft - length bs) w1)" if "bs \<noteq> []"
      using that \<open>length bs \<le> nleft\<close> less.prems b(2) False by (intro less.IH) simp_all
    with c r b less.prems show ?thesis
      using False by (subst rtos_recv_loop.simps, subst recv_loop.simps) (auto simp: rtt_net_socket_recv_def)
  qed
qed

text \<open>On every world: with a socket library, connecting, receiving into a window of the buffer, writing and closing give on
  each of the three systems the result and the world they give on Linux.\<close>

theorem sockets_agree:
  assumes "ptr + len \<le> length buf"
  shows "rtt_net_socket_connect w = platform_net_socket_connect w \<and>
    freertos_net_socket_connect w = platform_net_socket_connect w \<and>
    tencent_net_socket_connect None w = platform_net_socket_connect w"
    and "rtt_net_socket_recv_timeout buf ptr len timeout w = platform_net_socket_recv_timeout buf ptr len timeout w \<and>
    freertos_net_socket_recv_timeout buf ptr len timeout w = platform_net_socket_recv_timeout buf ptr len timeout w \<and>
    tencent_net_socket_recv_timeout None fd buf ptr len timeout w = platform_net_socket_recv_timeout buf ptr len timeout w"
    and "rtt_net_socket_write_timeout fd bs timeout w = platform_net_socket_write_timeout fd bs timeout w \<and>
    freertos_net_socket_write_timeout fd bs timeout w = platform_net_socket_write_timeout fd bs timeout w \<and>
    tencent_net_socket_write_timeout None fd bs timeout w = platform_net_socket_write_timeout fd bs timeout w"
proof -
  have "platform_net_socket_recv_timeout buf ptr len timeout w = rtos_recv_loop (sock_timeout_us timeout) len buf ptr len w"
    by (simp add: recv_loop_agree [OF assms] platform_net_socket_recv_timeout_def case_prod_unfold map_conv_bind_option comp_def)
  then show "rtt_net_socket_recv_timeout buf ptr len timeout w = platform_net_socket_recv_timeout buf ptr len timeout w \<and>
    freertos_net_socket_recv_timeout buf ptr len timeout w = platform_net_socket_recv_timeout buf ptr len timeout w \<and>
    tencent_net_socket_recv_timeout None fd buf ptr len timeout w = platform_net_socket_recv_timeout buf ptr len timeout w"
    by (simp add: rtt_net_socket_recv_timeout_def freertos_net_socket_recv_timeout_def tencent_net_socket_recv_timeout_def)
qed (simp_all add: rtt_net_socket_connect_def freertos_net_socket_connect_def tencent_net_socket_connect_def
    platform_net_socket_connect_def connect_addrs_agree rtt_net_socket_write_timeout_def
    freertos_net_socket_write_timeout_def tencent_net_socket_write_timeout_def platform_net_socket_write_timeout_def
    split: list.splits option.splits)

text \<open>The modes agree on an open descriptor; on one that is not open both calls fail and change nothing.\<close>

theorem modes_agree:
  "rtt_net_socket_set_block fl fd = platform_net_socket_set_block fl fd"
  "rtt_net_socket_set_nonblock fl fd = platform_net_socket_set_nonblock fl fd"
  by (auto simp: rtt_net_socket_set_block_def rtt_net_socket_set_nonblock_def ioctl_fionbio_def
      platform_net_socket_set_block_def platform_net_socket_set_nonblock_def fcntl_setfl_def fcntl_getfl_def split: option.splits)

text \<open>Both files for the modem do the same, and a connection that is not made is one error whatever the modem says.\<close>

theorem modem_agrees:
  "tencent_net_socket_connect (Some s) w = sal_net_socket_connect s w \<and>
   tencent_net_socket_recv_timeout (Some s) fd buf ptr len timeout w = sal_net_socket_recv_timeout s fd buf ptr len timeout w \<and>
   tencent_net_socket_write_timeout (Some s) fd bs timeout w = sal_net_socket_write_timeout s fd bs timeout w \<and>
   (fst (sal_net_socket_connect s w) < 0 \<longrightarrow> fst (sal_net_socket_connect s w) = MQTT_CONNECT_FAILED_ERROR)"
  by (simp add: tencent_net_socket_connect_def sal_net_socket_connect_def tencent_net_socket_recv_timeout_def
      sal_net_socket_recv_timeout_def tencent_net_socket_write_timeout_def sal_net_socket_write_timeout_def
      Let_def case_prod_unfold)

end
