(* ===== verification/Spec2Isabelle.thy ===== *)
theory Spec2Isabelle
  imports Client_Safety Client_Incoming Client_Threads Client_Start Client_Subscription Client_Lifecycle Log_Ports Random_Gen Packet_Format Platform_Sockets
begin

text \<open>
  A verification library for mqttclient, an MQTT 3.1.1 client in C for Linux and three real-time systems.
  The paths below are relative to \<^verbatim>\<open>src/\<close>.

  \<^bold>\<open>The program.\<close> The application calls the functions of \<^verbatim>\<open>mqttclient/mqttclient.c\<close> on a client object; a
  background thread calls \<^verbatim>\<open>mqtt_yield\<close> on the same object. The client keeps two linked lists
  (\<^verbatim>\<open>common/mqtt_list.c\<close>): records of packets that wait for an acknowledgement, and message handlers of
  subscribed topics. Packets are written into and read from two buffers by the packet library \<^verbatim>\<open>mqtt/\<close>,
  and go through \<^verbatim>\<open>network/network.c\<close> to TCP or TLS, which use the wrappers of the system in
  \<^verbatim>\<open>platform/\<close>. The log of \<^verbatim>\<open>common/log/\<close> formats a line, queues it in a ring buffer and prints it from a task
  of its own.

  \<^bold>\<open>How C is modelled.\<close> A buffer is the list of its bytes, a machine integer a word of its width where it can wrap,
  an \<^verbatim>\<open>int\<close> that stays small an integer or natural number. A function that touches memory returns an option,
  and \<^const>\<open>None\<close> is behaviour C leaves undefined: an access outside an object, through a null, released or
  unassigned pointer, a second release. A loop that may run for ever is a partial function, where \<^const>\<open>None\<close> is also
  the run that does not return. So a statement that a result is \<^const>\<open>Some\<close> says that the run returns and is
  safe. Errors are the codes of \<^verbatim>\<open>common/mqtt_error.h\<close>. No definition has fuel: recursion is structural, has a
  measure, or is a partial function. The clock, what the network brings and takes, and the outcomes of allocations are
  scripts in a record of the world (\<^verbatim>\<open>Platform_Net\<close>), which the client record extends.

  \<^bold>\<open>The theories.\<close>
  \<^item> \<^verbatim>\<open>Prelude\<close>: buffers, cursors, words; the collections \<^verbatim>\<open>writer\<close>, \<^verbatim>\<open>reader\<close>, \<^verbatim>\<open>keep\<close> and
    \<^verbatim>\<open>wlen\<close> that carry the proofs of the other theories; \<^verbatim>\<open>C_Text\<close>: digits and \<^verbatim>\<open>snprintf\<close>.
  \<^item> \<^verbatim>\<open>Packet_Codec\<close> (\<^verbatim>\<open>mqtt/MQTTPacket.c\<close>), \<^verbatim>\<open>Packet_Connect\<close>, \<^verbatim>\<open>Packet_Publish\<close>,
    \<^verbatim>\<open>Packet_Subscribe\<close>, \<^verbatim>\<open>Packet_Format\<close>: the packet library, both the client's and the server's side. For each
    packet type a reference encoding; the serializer writes it, the deserializer reads it back, and bounds
    of both. \<^verbatim>\<open>Packet_Format\<close> shows what is printed for a packet.
  \<^item> \<^verbatim>\<open>Mqtt_List\<close>: the pointer operations on a heap of nodes, refined to operations on lists, and the two
    traversal macros, refined to recursion over the list. The locale \<^verbatim>\<open>intrusive_list\<close> is the contract, interpreted
    on these operations. It justifies the plain lists in the client.
  \<^item> \<^verbatim>\<open>Platform_Timer\<close>: the timers of the four systems. The locale \<^verbatim>\<open>countdown_timer\<close> is what the client relies on,
    interpreted on the Linux timer for every time and on the 32-bit timer while the clock does not wrap.
  \<^item> \<^verbatim>\<open>Platform_Net\<close>: sockets, TCP, and the network object; \<^verbatim>\<open>Tls_Session\<close> and \<^verbatim>\<open>Tls_Transfer\<close>: opening, closing and
    using a TLS session; \<^verbatim>\<open>Mbedtls_Wrapper\<close>: the sockets, delays and random numbers mbedtls is given;
    \<^verbatim>\<open>Platform_Rtos\<close>: memory and threads of the real-time systems; \<^verbatim>\<open>Platform_Sockets\<close>: their sockets, which
    do what the Linux sockets do; \<^verbatim>\<open>Random_Gen\<close>: random numbers and names.
  \<^item> \<^verbatim>\<open>Salof_Fifo\<close>: the ring buffer as a queue of bytes, with the locale \<^verbatim>\<open>byte_queue\<close> and its interpretation;
    \<^verbatim>\<open>Salof_Format\<close>: the formatter against a rendering of directives; \<^verbatim>\<open>Salof_Log\<close>: a line from
    the call to the output; \<^verbatim>\<open>Log_Ports\<close>: what Linux prints of it.
  \<^item> The client: \<^verbatim>\<open>Client_State\<close> (the object, creation, setters), \<^verbatim>\<open>Client_Topic\<close> (the wildcard matcher against its
    specification on levels), \<^verbatim>\<open>Client_IO\<close> (sending, reading, draining, keep alive), \<^verbatim>\<open>Client_Ack\<close> (the operations on
    the two lists), \<^verbatim>\<open>Client_Handlers\<close> (the handlers of received packets and their dispatcher),
    \<^verbatim>\<open>Client_Session\<close> (the calls of the application and the background loop).
  \<^item> What the client does: \<^verbatim>\<open>Client_Invariant\<close> (the invariant of its tables), \<^verbatim>\<open>Client_Tables\<close> (their operations under
    it; the locale \<^verbatim>\<open>id_table\<close> and its interpretation on the list of records), \<^verbatim>\<open>Client_Receive\<close> and
    \<^verbatim>\<open>Client_Requests\<close> (every operation keeps the invariant and the write lock), \<^verbatim>\<open>Client_Delivery\<close>,
    \<^verbatim>\<open>Client_Qos\<close>, \<^verbatim>\<open>Client_Protocol\<close>, \<^verbatim>\<open>Client_Subscription\<close> (exchanges of several packets),
    \<^verbatim>\<open>Client_Lifecycle\<close> (connecting, disconnecting, release) and \<^verbatim>\<open>Client_Reachable\<close> (the client as a state
    machine whose steps are calls, turns of the loop and changes of the environment, and its invariant);
    \<^verbatim>\<open>Client_Safety\<close> (the requests run to their end in every reachable state), \<^verbatim>\<open>Client_Incoming\<close> (what a broker may
    send is received safely), \<^verbatim>\<open>Client_Threads\<close> (the write buffer under several threads) and \<^verbatim>\<open>Client_Start\<close> (the
    start of the background thread).

  \<^bold>\<open>What is shown.\<close> The invariant of a client holds after every sequence of steps from its creation, whatever bytes the
  network sends and whichever allocations fail; with it every step is free of undefined behaviour that the guards of
  the steps do not name, and a packet a broker may send is handled to the end in each of these
  states. A message with quality of service 2 is delivered exactly once; publications of quality 1 and 2 run to their last
  acknowledgement; a subscription leads from the request to the delivery; connect, keep alive, disconnect and
  release do what they promise, and release returns. The packet library reads back what it writes.
  The matcher implements the rules of topic filters except for the parent level of a number sign. The log prints what
  the C standard says, in order. A TLS connection that is reported as made has been verified. Where the code
  does not do this, a theorem shows the case: short packets that are taken for good ones, a matcher that misses a parent
  level, a drain that never ends, a timer that does not survive the wrap of its clock, a printed line that leaves its
  buffer, a ping that overwrites another thread's packet, a background thread that misses its start.

  \<^bold>\<open>Bounds.\<close> Lengths handed to the serializers are as the callers have them, below the largest remaining length
  268435455; the write buffer of a client has at least four bytes; log lines have at most 510 characters. Each
  theorem states the bound it needs.

  \<^bold>\<open>Composition of threads.\<close> The mutex of the write buffer is a flag of the client, and taking it twice is undefined. A
  call of the application and a turn of the background loop are single steps of the state machine. In \<^verbatim>\<open>Client_Threads\<close> they
  are taken apart where they take the lock, fill the buffer, send it and let the lock go, and these steps interleave: the requests do not
  disturb each other's packets, the keep-alive round, which does not take the lock, does. \<^verbatim>\<open>Client_Start\<close> interleaves the
  end of the first connect with the beginning of the background thread. The global mutex
  protects single assignments. Nothing protects the list of records, so its operations are taken to be whole.
  A line of the log and a turn of its output task are separate steps that share the queue.

  \<^bold>\<open>Not modelled.\<close>
  \<^item> \<^verbatim>\<open>network/mbedtls\<close> apart from its wrapper is vendored third-party code. What its calls return is a parameter.
  \<^item> The text of \<^verbatim>\<open>mqtt_yield\<close> after the packet handler is lost in a comment that is not closed; what follows
    there is the parameter \<^verbatim>\<open>tail\<close> of the loop.
  \<^item> The client is modelled in the build without TLS. In the build with TLS a network without a certificate behaves
    the same (\<^verbatim>\<open>plain_network\<close> in \<^verbatim>\<open>Tls_Transfer\<close>).
  \<^item> The mutex wrappers, the start and stop of a thread outside Linux, and most of \<^verbatim>\<open>common/log/arch\<close> only call the system.
  \<^item> The callbacks of the application are logged with what they are given; a callback that calls the client is not
    modelled.
  \<^item> The macros of the list header for traversing backwards have no user. \<^verbatim>\<open>mqtt_log.h\<close> only expands to calls of the log,
    and the calls of the log in the client have no effect on its state.
  \<^item> The examples, build files and documents.
\<close>

end
